(* ===== verification/Proposal_State.thy ===== *)
theory Proposal_State
  imports Main
begin

text \<open>
  What a proposal says of itself outside its table (\<open>ProposalState\<close> of \<open>core/rebalance.py\<close>), with the
  document it keeps (\<open>core/proposal_plan.py\<close>) and the values of its columns (\<open>core/db/types.py\<close>). An exception
  carries one, so it comes before the exceptions. A moment is in microseconds since the epoch.
\<close>

type_synonym datetime = int

datatype proposal_status = EXECUTING | EXECUTED | LIVE | WITHDRAWN
datatype proposal_trigger = MANUAL | SCHEDULED

record doc_leg =
  dl_asset :: string
  dl_pair :: string
  dl_side :: string
  dl_amount_fiat :: string
  dl_minimum_fiat :: "string option"
  dl_note :: "string option"

record document =
  doc_fiat :: string
  doc_legs :: "doc_leg list"

record proposal_state =
  ps_version :: int
  ps_status :: proposal_status
  ps_trigger :: proposal_trigger
  ps_plan :: document
  ps_updated_at :: datetime

end
