(* ===== verification/Py_Decimal.thy ===== *)
theory Py_Decimal
  imports Prelude
begin

text \<open>
  Python's \<open>decimal.Decimal\<close> as the platform uses it: the default context, 28 significant
  digits, rounding half to even. A value is a rational number; every arithmetic
  operation is the exact rational operation followed by the context's rounding, which is
  how the General Decimal Arithmetic specification defines it. Comparisons do not round.
  The exponent of a decimal (the padding zeros of its string) and the signs of zero are
  not part of the value; NaN, the infinities, and the limits of the exponent (10 to the
  999999) are not modelled.
\<close>

type_synonym dec = rat

named_theorems dec_simps \<open>unfolding the decimal operations\<close>

section \<open>Powers of ten and the number of digits\<close>

abbreviation ten :: "int \<Rightarrow> rat" where
  "ten k \<equiv> 10 powi k"

lemma ten_pos [simp]: "0 < ten k"
  by simp

lemma ten_nonzero [simp]: "ten k \<noteq> 0"
  by simp

lemma ten_add: "ten (a + b) = ten a * ten b"
  by (simp add: power_int_add)

lemma ten_diff: "ten (a - b) = ten a / ten b"
  by (simp add: power_int_diff)

lemma ten_mono: "a \<le> b \<Longrightarrow> ten a \<le> ten b"
  by (simp add: power_int_increasing)

lemma ten_less_iff: "ten a < ten b \<longleftrightarrow> a < b"
  by (metis linorder_not_less not_less_iff_gr_or_eq one_less_numeral_iff power_int_strict_increasing
      semiring_norm(76) ten_mono)

lemma ten_of_nat: "ten (int n) = 10 ^ n"
  by simp

lemma ten_int: "0 \<le> k \<Longrightarrow> \<exists>n :: int. ten k = of_int n"
  by (rule exI [of _ "10 ^ nat k"]) (simp add: power_int_def)

function dlen :: "int \<Rightarrow> nat" where
  "dlen n = (if n < 10 then 1 else Suc (dlen (n div 10)))"
  by pat_completeness auto
termination
  by (relation "measure nat") auto

declare dlen.simps [simp del]

lemma dlen_pos: "0 < dlen n"
  by (subst dlen.simps) simp

lemma dlen_upper: "n < 10 ^ dlen n"
proof (induction n rule: dlen.induct)
  case (1 n)
  show ?case
  proof (cases "n < 10")
    case True
    then show ?thesis by (simp add: dlen.simps [of n])
  next
    case False
    with 1 have "n div 10 < 10 ^ dlen (n div 10)" by simp
    then have "n div 10 + 1 \<le> 10 ^ dlen (n div 10)" by simp
    then have "n < 10 * 10 ^ dlen (n div 10)" by linarith
    with False show ?thesis by (simp add: dlen.simps [of n])
  qed
qed

lemma dlen_lower: "0 < n \<Longrightarrow> 10 ^ (dlen n - 1) \<le> n"
proof (induction n rule: dlen.induct)
  case (1 n)
  show ?case
  proof (cases "n < 10")
    case True
    with "1.prems" show ?thesis by (simp add: dlen.simps [of n])
  next
    case False
    then have "0 < n div 10" by linarith
    with False 1 have IH: "10 ^ (dlen (n div 10) - 1) \<le> n div 10" by simp
    have "10 ^ dlen (n div 10) = 10 * (10 :: int) ^ (dlen (n div 10) - 1)"
      using dlen_pos [of "n div 10"] by (metis power_eq_if not_gr_zero)
    also have "\<dots> \<le> n" using IH by linarith
    finally show ?thesis using False by (simp add: dlen.simps [of n])
  qed
qed

lemma ten_le_of_int: "10 ^ k \<le> n \<Longrightarrow> (10 :: rat) ^ k \<le> of_int n"
  using of_int_le_iff [of "10 ^ k" n, where 'a = rat] by simp

lemma of_int_less_ten: "n < 10 ^ k \<Longrightarrow> of_int n + 1 \<le> (10 :: rat) ^ k"
  using of_int_le_iff [of "n + 1" "10 ^ k", where 'a = rat] by simp

text \<open>The adjusted exponent of a positive number: the power of ten of its first digit.\<close>

definition adjusted :: "rat \<Rightarrow> int" where
  "adjusted x =
     (if 1 \<le> x then int (dlen \<lfloor>x\<rfloor>) - 1 else - int (dlen (\<lceil>1 / x\<rceil> - 1)))"

lemma adjusted_bounds:
  assumes "0 < x"
  shows "ten (adjusted x) \<le> x \<and> x < ten (adjusted x + 1)"
proof (cases "1 \<le> x")
  case True
  define n where "n = \<lfloor>x\<rfloor>"
  have n: "0 < n" "of_int n \<le> x" "x < of_int n + 1"
    using True by (simp_all add: n_def le_floor_iff) linarith
  have "(10 :: rat) ^ (dlen n - 1) \<le> x"
    using ten_le_of_int [OF dlen_lower [OF n(1)]] n(2) by linarith
  moreover have "x < (10 :: rat) ^ dlen n"
    using of_int_less_ten [OF dlen_upper [of n]] n(3) by linarith
  moreover have "ten (adjusted x) = 10 ^ (dlen n - 1)" "ten (adjusted x + 1) = 10 ^ dlen n"
    using True dlen_pos [of n] ten_of_nat [of "dlen n - 1"] ten_of_nat [of "dlen n"]
    by (simp_all add: adjusted_def n_def of_nat_diff Suc_le_eq)
  ultimately show ?thesis by simp
next
  case False
  define m where "m = \<lceil>1 / x\<rceil> - 1"
  have "1 < 1 / x" using False assms by simp
  then have "2 \<le> \<lceil>1 / x\<rceil>" by (simp add: le_ceiling_iff)
  then have m: "0 < m" "of_int m < 1 / x" "1 / x \<le> of_int m + 1"
    by (auto simp: m_def, linarith+)
  have lo: "10 ^ (dlen m - 1) < 1 / x"
    using ten_le_of_int [OF dlen_lower [OF m(1)]] m(2) by linarith
  have hi: "1 / x \<le> 10 ^ dlen m"
    using of_int_less_ten [OF dlen_upper [of m]] m(3) by linarith
  have adj: "adjusted x = - int (dlen m)"
    using False by (simp add: adjusted_def m_def)
  have "adjusted x + 1 = - int (dlen m - 1)"
    using dlen_pos [of m] adj by linarith
  then have "ten (adjusted x + 1) = 1 / 10 ^ (dlen m - 1)"
    by (simp add: power_int_minus inverse_eq_divide)
  moreover have "ten (adjusted x) = 1 / 10 ^ dlen m"
    by (simp add: adj power_int_minus inverse_eq_divide)
  moreover have "x < 1 / 10 ^ (dlen m - 1)" "1 / 10 ^ dlen m \<le> x"
    using lo hi assms by (simp_all add: pos_less_divide_eq pos_divide_le_eq mult.commute)
  ultimately show ?thesis by simp
qed

lemma adjusted_mono: "0 < x \<Longrightarrow> x \<le> y \<Longrightarrow> adjusted x \<le> adjusted y"
  using adjusted_bounds [of x] adjusted_bounds [of y]
  by (metis leI linorder_not_less order_le_less_trans order_less_le_trans ten_less_iff zless_add1_eq
      order_less_imp_le)

section \<open>Rounding to an integer\<close>

definition round_half_even :: "rat \<Rightarrow> int" where
  "round_half_even y =
     (let f = \<lfloor>y\<rfloor>; r = y - of_int f
      in if r < 1 / 2 then f else if 1 / 2 < r then f + 1 else if even f then f else f + 1)"

definition round_down :: "rat \<Rightarrow> int" where
  "round_down y = (if 0 \<le> y then \<lfloor>y\<rfloor> else \<lceil>y\<rceil>)"

definition round_up :: "rat \<Rightarrow> int" where
  "round_up y = (if 0 \<le> y then \<lceil>y\<rceil> else \<lfloor>y\<rfloor>)"

definition round_half_up :: "rat \<Rightarrow> int" where
  "round_half_up y = (if 0 \<le> y then \<lfloor>y + 1 / 2\<rfloor> else \<lceil>y - 1 / 2\<rceil>)"

lemma round_half_even_int [simp]: "round_half_even (of_int n) = n"
  by (simp add: round_half_even_def)

lemma round_half_even_err: "\<bar>of_int (round_half_even y) - y\<bar> \<le> 1 / 2"
proof -
  have "of_int \<lfloor>y\<rfloor> \<le> y" "y < of_int \<lfloor>y\<rfloor> + 1" by linarith+
  then show ?thesis by (simp add: round_half_even_def Let_def abs_le_iff)
qed

lemma round_half_even_mono:
  assumes "x \<le> y"
  shows "round_half_even x \<le> round_half_even y"
proof (cases "\<lfloor>x\<rfloor> = \<lfloor>y\<rfloor>")
  case True
  with assms show ?thesis by (auto simp: round_half_even_def Let_def)
next
  case False
  with assms have "\<lfloor>x\<rfloor> + 1 \<le> \<lfloor>y\<rfloor>"
    using floor_mono [OF assms] by linarith
  then show ?thesis by (auto simp: round_half_even_def Let_def)
qed

lemma round_half_even_minus: "round_half_even (- y) = - round_half_even y"
proof (cases "y = of_int \<lfloor>y\<rfloor>")
  case True
  then show ?thesis by (metis of_int_minus round_half_even_int)
next
  case False
  then have fl: "\<lfloor>- y\<rfloor> = - \<lfloor>y\<rfloor> - 1" by linarith
  have "odd \<lfloor>- y\<rfloor> \<longleftrightarrow> even \<lfloor>y\<rfloor>" by (simp add: fl)
  then show ?thesis
    by (auto simp: round_half_even_def Let_def fl)
qed

section \<open>The context's rounding\<close>

definition dec_prec :: int where
  "dec_prec = 28"

text \<open>The exponent of the last digit that is kept.\<close>

definition dec_exp :: "rat \<Rightarrow> int" where
  "dec_exp x = adjusted \<bar>x\<bar> + 1 - dec_prec"

definition dec_round :: "rat \<Rightarrow> dec" where
  "dec_round x =
     (if x = 0 then 0 else of_int (round_half_even (x / ten (dec_exp x))) * ten (dec_exp x))"

lemma dec_exp_eqs:
  assumes "0 < x"
  shows "ten (adjusted x) = 10 ^ 27 * ten (dec_exp x)"
    and "ten (adjusted x + 1) = 10 ^ 28 * ten (dec_exp x)"
  using ten_add [of 27 "dec_exp x"] ten_add [of 28 "dec_exp x"] assms
  by (simp_all add: dec_exp_def dec_prec_def add.commute)

lemma dec_exp_minus [simp]: "dec_exp (- x) = dec_exp x"
  by (simp add: dec_exp_def)

text \<open>The unit of rounding: half a unit in the 28th digit, relative to the value.\<close>

definition dec_ulp :: rat where
  "dec_ulp = 1 / (2 * 10 ^ 27)"

definition dec_fits :: "rat \<Rightarrow> bool" where
  "dec_fits x \<longleftrightarrow> dec_round x = x"

lemma dec_round_0 [simp]: "dec_round 0 = 0"
  by (simp add: dec_round_def)

lemma dec_round_minus: "dec_round (- x) = - dec_round x"
  by (simp add: dec_round_def round_half_even_minus)

lemma dec_round_range:
  assumes "0 < x"
  shows "ten (adjusted x) \<le> dec_round x \<and> dec_round x \<le> ten (adjusted x + 1)"
proof -
  let ?e = "dec_exp x" and ?c = "round_half_even (x / ten (dec_exp x))"
  have "of_int (10 ^ 27) \<le> x / ten ?e" "x / ten ?e \<le> of_int (10 ^ 28)"
    using adjusted_bounds [OF assms] unfolding dec_exp_eqs [OF assms]
    by (simp_all add: pos_le_divide_eq pos_divide_le_eq)
  then have "10 ^ 27 \<le> ?c" "?c \<le> 10 ^ 28"
    using round_half_even_mono round_half_even_int by metis+
  then have "of_int (10 ^ 27) \<le> (of_int ?c :: rat)" "(of_int ?c :: rat) \<le> of_int (10 ^ 28)"
    by (simp_all only: of_int_le_iff)
  then show ?thesis
    using assms unfolding dec_exp_eqs [OF assms]
    by (simp add: dec_round_def mult_right_mono)
qed

lemma dec_round_mono_pos:
  assumes "0 < x" "x \<le> y"
  shows "dec_round x \<le> dec_round y"
proof (cases "adjusted x = adjusted y")
  case True
  then have e: "dec_exp x = dec_exp y" using assms by (simp add: dec_exp_def)
  have "x / ten (dec_exp y) \<le> y / ten (dec_exp y)" using assms by (simp add: divide_right_mono)
  then have "round_half_even (x / ten (dec_exp y)) \<le> round_half_even (y / ten (dec_exp y))"
    by (rule round_half_even_mono)
  with assms e show ?thesis
    by (simp add: dec_round_def)
next
  case False
  then have "adjusted x + 1 \<le> adjusted y" using adjusted_mono [OF assms] by simp
  then have "ten (adjusted x + 1) \<le> ten (adjusted y)" by (rule ten_mono)
  with dec_round_range [of x] dec_round_range [of y] assms show ?thesis by force
qed

lemma dec_round_pos: "0 < x \<Longrightarrow> 0 < dec_round x"
  using dec_round_range [of x] by (metis order_less_le_trans ten_pos)

lemma dec_round_mono: "x \<le> y \<Longrightarrow> dec_round x \<le> dec_round y"
proof (cases x "0 :: rat" rule: linorder_cases)
  case less
  assume "x \<le> y"
  show ?thesis
  proof (cases "0 \<le> y")
    case True
    have "dec_round x < 0" using dec_round_pos [of "- x"] less by (simp add: dec_round_minus)
    moreover have "0 \<le> dec_round y" using True dec_round_pos [of y] by (cases "y = 0") auto
    ultimately show ?thesis by simp
  next
    case False
    then have "dec_round (- y) \<le> dec_round (- x)"
      using \<open>x \<le> y\<close> by (intro dec_round_mono_pos) auto
    then show ?thesis by (simp add: dec_round_minus)
  qed
next
  case equal
  assume "x \<le> y"
  with equal show ?thesis using dec_round_pos [of y] by (cases "y = 0") auto
next
  case greater
  assume "x \<le> y"
  with greater show ?thesis by (rule dec_round_mono_pos)
qed

text \<open>A number of at most 28 digits is kept as it is.\<close>

lemma dec_fits_pos:
  assumes "0 < c" "c < 10 ^ 28"
  shows "dec_round (of_int c * ten e) = of_int c * ten e"
proof -
  let ?x = "of_int c * ten e :: rat"
  have pos: "0 < ?x" using assms by simp
  have "(of_int c :: rat) < of_int (10 ^ 28)" using assms(2) by (simp only: of_int_less_iff)
  then have "?x < ten (28 + e)" by (simp add: ten_add)
  with adjusted_bounds [OF pos] have "ten (adjusted ?x) < ten (28 + e)" by linarith
  then have le: "dec_exp ?x \<le> e" using pos by (simp add: ten_less_iff dec_exp_def dec_prec_def)
  define e' where "e' = dec_exp ?x"
  obtain n where n: "ten (e - e') = of_int n"
    using ten_int [of "e - e'"] le by (auto simp: e'_def)
  have "?x / ten e' = of_int (c * n)" by (simp add: n [symmetric] ten_diff)
  then have "of_int (round_half_even (?x / ten e')) * ten e' = ?x / ten e' * ten e'"
    by (simp only: round_half_even_int)
  then show ?thesis
    using pos by (simp add: dec_round_def e'_def [symmetric])
qed

lemma dec_fits_int:
  assumes "\<bar>c\<bar> \<le> 10 ^ 28"
  shows "dec_round (of_int c * ten e) = of_int c * ten e"
proof -
  have pos: "dec_round (of_int c * ten e) = of_int c * ten e" if "0 < c" "c \<le> 10 ^ 28" for c
  proof (cases "c = 10 ^ 28")
    case True
    have "of_int c * ten e = of_int 1 * ten (28 + e)" by (simp add: True ten_add)
    then show ?thesis using dec_fits_pos [of 1 "28 + e"] by simp
  next
    case False
    with that show ?thesis by (intro dec_fits_pos) auto
  qed
  consider "0 < c" | "c = 0" | "0 < - c" by linarith
  then show ?thesis
  proof cases
    case 3
    then have "dec_round (of_int (- c) * ten e) = of_int (- c) * ten e"
      using assms by (intro pos) auto
    then show ?thesis by (simp add: dec_round_minus)
  qed (use pos assms in auto)
qed

lemma dec_round_form: "\<exists>c e. dec_round x = of_int c * ten e \<and> \<bar>c\<bar> \<le> 10 ^ 28"
proof -
  have pos: "\<exists>c e. dec_round x = of_int c * ten e \<and> \<bar>c\<bar> \<le> 10 ^ 28" if "0 < x" for x
  proof -
    define e where "e = dec_exp x"
    define c where "c = round_half_even (x / ten e)"
    have eq: "dec_round x = of_int c * ten e"
      using that by (simp add: dec_round_def e_def c_def)
    have hi: "of_int c * ten e \<le> 10 ^ 28 * ten e"
      using dec_round_range [OF that] dec_exp_eqs [OF that] unfolding eq e_def by linarith
    have lo: "0 < of_int c * ten e" using dec_round_pos [OF that] by (simp only: eq)
    have "of_int c \<le> (of_int (10 ^ 28) :: rat)" using hi by simp
    moreover have "0 < c" using zero_less_mult_pos2 [OF lo ten_pos] by simp
    ultimately have "of_int c \<le> (of_int (10 ^ 28) :: rat)" "0 < c" by auto
    then have "\<bar>c\<bar> \<le> 10 ^ 28" by (simp only: of_int_le_iff abs_of_pos)
    with eq show ?thesis by blast
  qed
  consider "0 < x" | "x = 0" | "0 < - x" by linarith
  then show ?thesis
  proof cases
    case 1 then show ?thesis by (rule pos)
  next
    case 2 then show ?thesis by (intro exI [of _ 0]) simp
  next
    case 3
    then obtain c e where "dec_round (- x) = of_int c * ten e" "\<bar>c\<bar> \<le> 10 ^ 28" using pos by blast
    then show ?thesis by (intro exI [of _ "- c"] exI [of _ e]) (simp add: dec_round_minus)
  qed
qed

lemma dec_round_idem: "dec_round (dec_round x) = dec_round x"
  using dec_round_form [of x] dec_fits_int by metis

lemma dec_round_err: "\<bar>dec_round x - x\<bar> \<le> dec_ulp * \<bar>x\<bar>"
proof (cases "x = 0")
  case False
  define e where "e = dec_exp x"
  have "dec_round x - x = (of_int (round_half_even (x / ten e)) - x / ten e) * ten e"
    using False by (simp add: dec_round_def e_def [symmetric] left_diff_distrib)
  then have "\<bar>dec_round x - x\<bar> = \<bar>of_int (round_half_even (x / ten e)) - x / ten e\<bar> * ten e"
    by (simp add: abs_mult)
  also have "\<dots> \<le> 1 / 2 * ten e"
    by (intro mult_right_mono round_half_even_err) simp
  also have "\<dots> = dec_ulp * ten (adjusted \<bar>x\<bar>)"
    using dec_exp_eqs(1) [of "\<bar>x\<bar>"] False by (simp add: e_def dec_exp_def dec_ulp_def)
  also have "\<dots> \<le> dec_ulp * \<bar>x\<bar>"
    using adjusted_bounds [of "\<bar>x\<bar>"] False by (intro mult_left_mono) (auto simp: dec_ulp_def)
  finally show ?thesis .
qed simp

section \<open>Evaluation\<close>

text \<open>
  Rounding a literal: the value stays, when it is an integer or a fraction of at most 18
  places. These equations let the simplifier run the model on concrete decimals.
\<close>

named_theorems dec_eval \<open>decimal operations on literals\<close>

lemma dec_round_literal [dec_eval]:
  "\<bar>numeral n\<bar> \<le> (10 ^ 28 :: int) \<Longrightarrow> dec_round (numeral n) = numeral n"
  using dec_fits_int [of "numeral n" 0] by simp

lemma dec_round_1 [dec_eval]: "dec_round 1 = 1"
  using dec_fits_int [of 1 0] by simp

lemma dec_round_neg_literal [dec_eval]:
  "\<bar>numeral n\<bar> \<le> (10 ^ 28 :: int) \<Longrightarrow> dec_round (- numeral n) = - numeral n"
  by (simp add: dec_round_minus dec_round_literal)

lemma dec_round_fraction:
  assumes "a * 10 ^ 18 mod b = 0" "0 < b" "\<bar>a * 10 ^ 18 div b\<bar> \<le> 10 ^ 28"
  shows "dec_round (of_int a / of_int b) = of_int a / of_int b"
proof -
  obtain c where c: "a * 10 ^ 18 = b * c" using assms(1) by (auto simp: mod_eq_0_iff_dvd elim: dvdE)
  have "(of_int a :: rat) * 10 ^ 18 = of_int b * of_int c"
    using arg_cong [OF c, of "of_int :: int \<Rightarrow> rat"] by simp
  then have "(of_int a / of_int b :: rat) * ten 18 = of_int c"
    using assms(2) by (simp add: field_simps)
  then have eq: "(of_int a / of_int b :: rat) = of_int c * ten (- 18)"
    by (simp add: power_int_minus field_simps)
  have "c = a * 10 ^ 18 div b" using c assms(2) by simp
  then show ?thesis unfolding eq using assms(3) by (intro dec_fits_int) simp
qed

lemma dec_round_literal_fraction [dec_eval]:
  assumes "numeral a * 10 ^ 18 mod numeral b = (0 :: int)" "numeral a * 10 ^ 18 div numeral b \<le> (10 ^ 28 :: int)"
  shows "dec_round (numeral a / numeral b) = numeral a / numeral b"
proof -
  have "\<bar>numeral a * 10 ^ 18 div numeral b :: int\<bar> \<le> 10 ^ 28"
    using assms(2) pos_imp_zdiv_nonneg_iff [of "numeral b" "numeral a * 10 ^ 18"] by (simp add: abs_le_iff)
  then have "dec_round (of_int (numeral a) / of_int (numeral b)) = of_int (numeral a) / of_int (numeral b)"
    by (intro dec_round_fraction assms(1)) auto
  then show ?thesis by (simp only: of_int_numeral)
qed

lemma dec_round_unit_fraction [dec_eval]:
  assumes "10 ^ 18 mod numeral b = (0 :: int)"
  shows "dec_round (1 / numeral b) = 1 / numeral b"
proof -
  have "(10 ^ 18 :: int) div numeral b \<le> 10 ^ 18 div 1" by (intro zdiv_mono2) auto
  then have "\<bar>1 * 10 ^ 18 div numeral b :: int\<bar> \<le> 10 ^ 28"
    using pos_imp_zdiv_nonneg_iff [of "numeral b" "10 ^ 18"] by (simp add: abs_le_iff)
  then have "dec_round (of_int 1 / of_int (numeral b)) = of_int 1 / of_int (numeral b)"
    using assms by (intro dec_round_fraction) auto
  then show ?thesis by (simp only: of_int_numeral of_int_1)
qed

lemma dec_round_neg_fraction [dec_eval]:
  "dec_round (- (x / y)) = - dec_round (x / y)"
  by (simp add: dec_round_minus)

section \<open>The interface the components use\<close>

text \<open>
  What a component needs to know of the context's rounding: it is monotone and odd, it
  keeps what it has already rounded, and its relative error is bounded. Everything the
  engine proves about money rests on these four laws.
\<close>

locale rounding =
  fixes rnd :: "rat \<Rightarrow> rat"
    and u :: rat
  assumes mono: "x \<le> y \<Longrightarrow> rnd x \<le> rnd y"
    and odd: "rnd (- x) = - rnd x"
    and idem: "rnd (rnd x) = rnd x"
    and err: "\<bar>rnd x - x\<bar> \<le> u * \<bar>x\<bar>"
    and unit: "0 \<le> u" "u < 1"
begin

lemma zero: "rnd 0 = 0"
  using odd [of 0] by simp

lemma nonneg: "0 \<le> x \<Longrightarrow> 0 \<le> rnd x"
  using mono [of 0 x] zero by simp

lemma nonpos: "x \<le> 0 \<Longrightarrow> rnd x \<le> 0"
  using mono [of x 0] zero by simp

lemma above: "0 \<le> x \<Longrightarrow> rnd x \<le> x * (1 + u)"
  using err [of x] by (simp add: abs_le_iff algebra_simps)

lemma below: "0 \<le> x \<Longrightarrow> x * (1 - u) \<le> rnd x"
  using err [of x] by (simp add: abs_le_iff algebra_simps)

lemma pos: "0 < x \<Longrightarrow> 0 < rnd x"
  using below [of x] unit by (meson diff_gt_0_iff_gt less_eq_rat_def mult_pos_pos order_less_le_trans)

lemma pos_iff: "0 < rnd x \<longleftrightarrow> 0 < x"
  using pos nonpos by (meson linorder_not_le)

lemma neg_iff: "rnd x < 0 \<longleftrightarrow> x < 0"
  using pos_iff [of "- x"] odd by simp

lemma zero_iff: "rnd x = 0 \<longleftrightarrow> x = 0"
  using pos_iff neg_iff zero by (metis linorder_neq_iff)

lemma below_fit: "x \<le> y \<Longrightarrow> rnd y = y \<Longrightarrow> rnd x \<le> y"
  using mono by fastforce

lemma above_fit: "y \<le> x \<Longrightarrow> rnd y = y \<Longrightarrow> y \<le> rnd x"
  using mono by fastforce

lemma abs_rnd: "\<bar>rnd x\<bar> = rnd \<bar>x\<bar>"
  using nonneg nonpos odd by (simp add: abs_if not_less order.strict_implies_order) (metis linorder_not_le minus_zero neg_le_0_iff_le odd order_le_less)

lemma sum_bound: "0 \<le> x \<Longrightarrow> x \<le> b * (1 + u) ^ n \<Longrightarrow> rnd x \<le> b * (1 + u) ^ Suc n"
proof -
  assume x: "0 \<le> x" "x \<le> b * (1 + u) ^ n"
  have "rnd x \<le> x * (1 + u)" using x(1) by (rule above)
  also have "\<dots> \<le> b * (1 + u) ^ n * (1 + u)" using x(2) unit by (intro mult_right_mono) auto
  finally show ?thesis by (simp add: algebra_simps)
qed

end

lemma dec_ulp_bounds: "0 \<le> dec_ulp" "dec_ulp < 1"
  by (simp_all add: dec_ulp_def)

interpretation dec: rounding dec_round dec_ulp
  by unfold_locales (auto intro: dec_round_mono dec_round_minus dec_round_idem dec_round_err dec_ulp_bounds)

lemmas dec_sign_iffs [simp] = dec.pos_iff dec.neg_iff dec.zero_iff

section \<open>The operators\<close>

text \<open>\<open>+\<close>, \<open>-\<close>, \<open>*\<close>, \<open>abs\<close> and the unary minus round their result. \<open>/\<close> also raises on a zero divisor.\<close>

definition dadd :: "dec \<Rightarrow> dec \<Rightarrow> dec" where
  "dadd a b = dec_round (a + b)"

definition dsub :: "dec \<Rightarrow> dec \<Rightarrow> dec" where
  "dsub a b = dec_round (a - b)"

definition dmul :: "dec \<Rightarrow> dec \<Rightarrow> dec" where
  "dmul a b = dec_round (a * b)"

definition ddiv :: "dec \<Rightarrow> dec \<Rightarrow> dec result" where
  "ddiv a b =
     (if b = 0 then Inl (if a = 0 then InvalidOperation else DivisionByZero)
      else Inr (dec_round (a / b)))"

definition dabs :: "dec \<Rightarrow> dec" where
  "dabs a = dec_round \<bar>a\<bar>"

definition dneg :: "dec \<Rightarrow> dec" where
  "dneg a = dec_round (- a)"

text \<open>\<open>sum(values, ZERO)\<close>: left to right, from zero.\<close>

definition dsum :: "dec list \<Rightarrow> dec" where
  "dsum xs = foldl dadd 0 xs"

lemmas dec_op_defs [dec_simps] = dadd_def dsub_def dmul_def dabs_def dneg_def

lemma ddiv_Inr [simp]: "b \<noteq> 0 \<Longrightarrow> ddiv a b = Inr (dec_round (a / b))"
  by (simp add: ddiv_def)

lemma foldl_dadd_nonneg: "0 \<le> a \<Longrightarrow> (\<And>x. x \<in> set xs \<Longrightarrow> 0 \<le> x) \<Longrightarrow> 0 \<le> foldl dadd a xs"
  by (induction xs arbitrary: a) (auto simp: dadd_def dec.nonneg)

lemma dsum_nonneg: "(\<And>x. x \<in> set xs \<Longrightarrow> 0 \<le> x) \<Longrightarrow> 0 \<le> dsum xs"
  unfolding dsum_def by (rule foldl_dadd_nonneg) auto

subsection \<open>Exact sums\<close>

text \<open>
  Amounts written with a fixed number of places are added without rounding as long as
  the running sum stays below 28 digits, which is the case of weights and of fiat.
\<close>

definition on_grid :: "int \<Rightarrow> rat \<Rightarrow> bool" where
  "on_grid k x \<longleftrightarrow> x * ten k = of_int \<lfloor>x * ten k\<rfloor>"

lemma on_gridI: "x * ten k = of_int c \<Longrightarrow> on_grid k x"
  by (simp add: on_grid_def)

lemma on_gridE: "on_grid k x \<Longrightarrow> (\<And>c. x = of_int c * ten (- k) \<Longrightarrow> thesis) \<Longrightarrow> thesis"
  by (metis mult.assoc mult.right_neutral on_grid_def power_int_minus right_inverse ten_nonzero)

lemma on_grid_0 [simp]: "on_grid k 0"
  by (simp add: on_grid_def)

lemma on_grid_add: "on_grid k x \<Longrightarrow> on_grid k y \<Longrightarrow> on_grid k (x + y)"
  by (rule on_gridI [of _ _ "\<lfloor>x * ten k\<rfloor> + \<lfloor>y * ten k\<rfloor>"]) (simp add: on_grid_def distrib_right)

lemma on_grid_diff: "on_grid k x \<Longrightarrow> on_grid k y \<Longrightarrow> on_grid k (x - y)"
  by (rule on_gridI [of _ _ "\<lfloor>x * ten k\<rfloor> - \<lfloor>y * ten k\<rfloor>"]) (simp add: on_grid_def left_diff_distrib)

lemma on_grid_fits:
  assumes "on_grid k x" "\<bar>x\<bar> * ten k \<le> 10 ^ 28"
  shows "dec_round x = x"
proof -
  from assms(1) obtain c where c: "x = of_int c * ten (- k)" by (rule on_gridE)
  have "of_int \<bar>c\<bar> = \<bar>x\<bar> * ten k"
    by (simp add: c abs_mult power_int_minus)
  with assms(2) have "of_int \<bar>c\<bar> \<le> (of_int (10 ^ 28) :: rat)" by simp
  then have "\<bar>c\<bar> \<le> 10 ^ 28" by (simp only: of_int_le_iff)
  then show ?thesis unfolding c by (rule dec_fits_int)
qed

lemma foldl_dadd_exact:
  assumes "\<And>x. x \<in> set xs \<Longrightarrow> on_grid k x \<and> 0 \<le> x"
    and "on_grid k a" "0 \<le> a" "(a + sum_list xs) * ten k \<le> 10 ^ 28"
  shows "foldl dadd a xs = a + sum_list xs"
  using assms
proof (induction xs arbitrary: a)
  case (Cons x xs)
  have nn: "0 \<le> sum_list xs" using Cons.prems(1) by (intro sum_list_nonneg) auto
  have "(a + x) * ten k \<le> (a + sum_list (x # xs)) * ten k"
    using nn by (intro mult_right_mono) auto
  with Cons.prems have "(a + x) * ten k \<le> 10 ^ 28" by linarith
  then have ax: "dadd a x = a + x"
    using Cons.prems unfolding dadd_def by (intro on_grid_fits on_grid_add) auto
  have "foldl dadd (a + x) xs = a + x + sum_list xs"
    using Cons.prems by (intro Cons.IH on_grid_add) (auto simp: add.assoc)
  with ax show ?case by (simp add: add.assoc)
qed simp

lemma dsum_exact:
  assumes "\<And>x. x \<in> set xs \<Longrightarrow> on_grid k x \<and> 0 \<le> x" "sum_list xs * ten k \<le> 10 ^ 28"
  shows "dsum xs = sum_list xs"
  using foldl_dadd_exact [of xs k 0] assms by (simp add: dsum_def)

section \<open>Quantize\<close>

datatype round_mode = ROUND_DOWN | ROUND_UP | ROUND_HALF_UP | ROUND_HALF_EVEN

fun round_int :: "round_mode \<Rightarrow> rat \<Rightarrow> int" where
  "round_int ROUND_DOWN y = round_down y"
| "round_int ROUND_UP y = round_up y"
| "round_int ROUND_HALF_UP y = round_half_up y"
| "round_int ROUND_HALF_EVEN y = round_half_even y"

text \<open>
  \<open>value.quantize(Decimal(1).scaleb(-places), rounding=mode)\<close>: the nearest multiple of the
  quantum in the mode's direction. More than 28 digits in the result is InvalidOperation.
\<close>

definition quantize :: "round_mode \<Rightarrow> int \<Rightarrow> dec \<Rightarrow> dec result" where
  "quantize mode places x =
     (let c = round_int mode (x * ten places)
      in if 10 ^ 28 \<le> \<bar>c\<bar> then Inl InvalidOperation else Inr (of_int c * ten (- places)))"

lemma round_down_bounds:
  "0 \<le> y \<Longrightarrow> 0 \<le> round_down y \<and> of_int (round_down y) \<le> y \<and> y < of_int (round_down y) + 1"
  unfolding round_down_def by (auto simp: le_floor_iff) linarith

lemma round_up_bounds:
  "0 \<le> y \<Longrightarrow> y \<le> of_int (round_up y) \<and> of_int (round_up y) < y + 1"
  unfolding round_up_def by (auto simp: le_of_int_ceiling) linarith

lemma quantize_cases:
  "quantize mode places x = Inl e \<Longrightarrow> e = InvalidOperation"
  "quantize mode places x = Inr y \<Longrightarrow>
     y = of_int (round_int mode (x * ten places)) * ten (- places) \<and> \<bar>round_int mode (x * ten places)\<bar> < 10 ^ 28"
  by (auto simp: quantize_def Let_def split: if_splits)

lemma quantize_on_grid: "quantize mode places x = Inr y \<Longrightarrow> on_grid places y"
  by (rule on_gridI [of _ _ "round_int mode (x * ten places)"])
    (auto dest!: quantize_cases(2) simp: power_int_minus)

lemma quantize_range: "quantize mode places x = Inr y \<Longrightarrow> \<bar>y\<bar> * ten places \<le> 10 ^ 28"
proof -
  let ?c = "round_int mode (x * ten places)"
  assume "quantize mode places x = Inr y"
  then have y: "y = of_int ?c * ten (- places)" and c: "\<bar>?c\<bar> < 10 ^ 28" by (auto dest: quantize_cases(2))
  have "\<bar>y\<bar> * ten places = of_int \<bar>?c\<bar>" by (simp add: y abs_mult power_int_minus)
  also have "\<dots> \<le> of_int (10 ^ 28)" using c by (subst of_int_le_iff) simp
  finally show ?thesis by simp
qed

lemma quantize_fits: "quantize mode places x = Inr y \<Longrightarrow> dec_round y = y"
  by (auto dest!: quantize_cases(2) intro!: dec_fits_int)

lemma quantize_down_bounds:
  assumes "quantize ROUND_DOWN places x = Inr y" "0 \<le> x"
  shows "0 \<le> y" "y \<le> x" "x < y + ten (- places)"
proof -
  let ?c = "round_down (x * ten places)"
  have y: "y = of_int ?c * ten (- places)" using quantize_cases(2) [OF assms(1)] by simp
  have b: "0 \<le> ?c" "of_int ?c \<le> x * ten places" "x * ten places < of_int ?c + 1"
    using round_down_bounds [of "x * ten places"] assms(2) by auto
  show "0 \<le> y" using b(1) by (simp add: y)
  have inv: "x = x * ten places * ten (- places)" by (simp add: power_int_minus)
  show "y \<le> x" unfolding y by (subst inv) (intro mult_right_mono b(2), simp)
  have "x * ten places * ten (- places) < (of_int ?c + 1) * ten (- places)"
    by (intro mult_strict_right_mono b(3)) simp
  then show "x < y + ten (- places)" unfolding y by (subst inv) (simp add: distrib_right)
qed

lemma quantize_up_bounds:
  assumes "quantize ROUND_UP places x = Inr y" "0 \<le> x"
  shows "x \<le> y" "y < x + ten (- places)"
proof -
  let ?c = "round_up (x * ten places)"
  have y: "y = of_int ?c * ten (- places)" using quantize_cases(2) [OF assms(1)] by simp
  have b: "x * ten places \<le> of_int ?c" "of_int ?c < x * ten places + 1"
    using round_up_bounds [of "x * ten places"] assms(2) by auto
  have inv: "x = x * ten places * ten (- places)" by (simp add: power_int_minus)
  show "x \<le> y" unfolding y by (subst inv) (intro mult_right_mono b(1), simp)
  have "of_int ?c * ten (- places) < (x * ten places + 1) * ten (- places)"
    by (intro mult_strict_right_mono b(2)) simp
  then show "y < x + ten (- places)" unfolding y by (subst (2) inv) (simp add: distrib_right)
qed

end
