(* ===== verification/Engine.thy ===== *)
theory Engine
  imports Py_Decimal
begin

text \<open>
  The value objects of the engine (\<open>engine/types.py\<close>), the valuation of the managed
  portfolio (\<open>engine/valuation.py\<close>) and its distance from the targets
  (\<open>engine/drift.py\<close>). Holdings and prices are only looked up, so they are partial
  functions; the targets are iterated, so they are a dictionary in insertion order.
\<close>

section \<open>engine/types.py\<close>

datatype side = BUY | SELL

datatype cash_policy = PRORATA | REDUCE_DRIFT

record policy =
  allow_sells :: bool
  cash_policy :: cash_policy
  min_drift_pct :: dec
  min_order_fiat :: dec

record leg =
  leg_asset :: string
  leg_side :: side
  leg_amount_fiat :: dec

record plan =
  legs :: "leg list"

definition is_empty :: "plan \<Rightarrow> bool" where
  "is_empty p \<longleftrightarrow> legs p = []"

definition HUNDRED :: dec where
  "HUNDRED = 100"

text \<open>
  A division whose divisor is a non-zero constant or has just been compared with zero:
  it cannot raise.
\<close>

definition dquot :: "dec \<Rightarrow> dec \<Rightarrow> dec" where
  "dquot a b = dec_round (a / b)"

lemma dquot_ddiv: "b \<noteq> 0 \<Longrightarrow> ddiv a b = Inr (dquot a b)"
  by (simp add: dquot_def)

lemma HUNDRED_simps [simp]: "0 < HUNDRED" "HUNDRED \<noteq> 0"
  by (simp_all add: HUNDRED_def)

section \<open>engine/valuation.py\<close>

record valuation =
  asset_values :: "dec dict"
  val_cash :: dec
  managed_value :: dec
  weights :: "dec dict"
  cash_weight :: dec

text \<open>\<open>holdings.get(asset, ZERO) * price\<close>, for an asset that has a price.\<close>

definition value_asset ::
  "(string \<rightharpoonup> dec) \<Rightarrow> (string \<rightharpoonup> dec) \<Rightarrow> string \<Rightarrow> (string \<times> dec) result" where
  "value_asset holdings prices asset =
     (case prices asset of
        None \<Rightarrow> Inl (UnpricedAsset asset)
      | Some price \<Rightarrow>
          Inr (asset, dmul (case holdings asset of None \<Rightarrow> 0 | Some amount \<Rightarrow> amount) price))"

definition value_portfolio ::
  "(string \<rightharpoonup> dec) \<Rightarrow> (string \<rightharpoonup> dec) \<Rightarrow> dec dict \<Rightarrow> dec \<Rightarrow> valuation result" where
  "value_portfolio holdings prices targets cash =
     rbind (rmap (value_asset holdings prices) (map fst targets)) (\<lambda>values.
       let managed = dadd (dsum (map snd values)) cash
       in Inr (if managed = 0
               then \<lparr>asset_values = values, val_cash = cash, managed_value = managed,
                     weights = map (\<lambda>(a, v). (a, 0)) values, cash_weight = 0\<rparr>
               else \<lparr>asset_values = values, val_cash = cash, managed_value = managed,
                     weights = map (\<lambda>(a, v). (a, dmul (dquot v managed) HUNDRED)) values,
                     cash_weight = dmul (dquot cash managed) HUNDRED\<rparr>))"

text \<open>The asset values that a valuation of priced targets holds.\<close>

definition worth :: "(string \<rightharpoonup> dec) \<Rightarrow> (string \<rightharpoonup> dec) \<Rightarrow> string \<Rightarrow> dec" where
  "worth holdings prices a =
     dmul (case holdings a of None \<Rightarrow> 0 | Some h \<Rightarrow> h) (case prices a of None \<Rightarrow> 0 | Some p \<Rightarrow> p)"

lemma value_asset_Inr: "prices a = Some p \<Longrightarrow> value_asset h prices a = Inr (a, worth h prices a)"
  by (simp add: value_asset_def worth_def)

lemma value_assets:
  "rmap (value_asset h prices) as =
     (case find (\<lambda>a. prices a = None) as of
        Some a \<Rightarrow> Inl (UnpricedAsset a)
      | None \<Rightarrow> Inr (map (\<lambda>a. (a, worth h prices a)) as))"
  by (induction as) (auto simp: value_asset_def worth_def split: option.splits)

lemma find_keys: "find P (map fst d) = map_option fst (find (\<lambda>(a, _). P a) d)"
  by (induction d) auto

lemma value_portfolio_Inl:
  "value_portfolio h prices t c = Inl e \<longleftrightarrow>
     (\<exists>a p. find (\<lambda>(a, _). prices a = None) t = Some (a, p) \<and> e = UnpricedAsset a)"
  by (auto simp: value_portfolio_def value_assets find_keys Let_def split: option.splits)

lemma value_portfolio_Inr:
  assumes "value_portfolio h prices t c = Inr v"
  shows "asset_values v = map (\<lambda>(a, _). (a, worth h prices a)) t"
    and "val_cash v = c"
    and "managed_value v = dadd (dsum (map (\<lambda>(a, _). worth h prices a) t)) c"
    and "map fst (weights v) = map fst t"
    and "a \<in> fst ` set t \<Longrightarrow> \<exists>p. prices a = Some p"
  using assms
  by (auto simp: value_portfolio_def value_assets find_keys Let_def comp_def case_prod_unfold find_None_iff
      split: option.splits if_splits)

lemma value_portfolio_weights:
  assumes "value_portfolio h prices t c = Inr v"
  shows "weights v = map (\<lambda>(a, _). (a, if managed_value v = 0 then 0
           else dmul (dquot (worth h prices a) (managed_value v)) HUNDRED)) t"
  using assms
  by (auto simp: value_portfolio_def value_assets find_keys Let_def comp_def case_prod_unfold
      split: option.splits if_splits)

lemma map_of_keyed: "map_of (map (\<lambda>(a, _). (a, f a)) t) a = (if a \<in> fst ` set t then Some (f a) else None)"
  by (induction t) auto

section \<open>engine/drift.py\<close>

definition cash_target_pct :: "dec dict \<Rightarrow> dec" where
  "cash_target_pct targets = dsub HUNDRED (dsum (map snd targets))"

definition target_values :: "valuation \<Rightarrow> dec dict \<Rightarrow> dec dict" where
  "target_values v targets =
     map (\<lambda>(asset, pct). (asset, dquot (dmul (managed_value v) pct) HUNDRED)) targets"

definition deltas :: "valuation \<Rightarrow> dec dict \<Rightarrow> dec dict result" where
  "deltas v targets =
     (let wanted = target_values v targets
      in rmap (\<lambda>asset.
           rbind (get_item (map_of wanted) asset) (\<lambda>w.
           rbind (get_item (map_of (asset_values v)) asset) (\<lambda>x. Inr (asset, dsub w x))))
         (map fst targets))"

definition drifts :: "valuation \<Rightarrow> dec dict \<Rightarrow> dec dict result" where
  "drifts v targets =
     rmap (\<lambda>(asset, pct). rbind (get_item (map_of (weights v)) asset) (\<lambda>w. Inr (asset, dsub w pct))) targets"

text \<open>The two numbers per asset, in closed form.\<close>

definition delta_of :: "valuation \<Rightarrow> dec dict \<Rightarrow> string \<Rightarrow> dec" where
  "delta_of v targets a =
     dsub (dquot (dmul (managed_value v) (the (map_of targets a))) HUNDRED) (the (map_of (asset_values v) a))"

definition drift_of :: "valuation \<Rightarrow> string \<Rightarrow> dec \<Rightarrow> dec" where
  "drift_of v a pct = dsub (the (map_of (weights v) a)) pct"

lemma target_values_map_of:
  "map_of (target_values v t) a =
     map_option (\<lambda>pct. dquot (dmul (managed_value v) pct) HUNDRED) (map_of t a)"
  by (simp add: target_values_def map_of_map_val)

lemma deltas_Inr:
  assumes "value_portfolio h prices t c = Inr v"
  shows "deltas v t = Inr (map (\<lambda>(a, _). (a, delta_of v t a)) t)"
proof -
  have "deltas v t = Inr (map (\<lambda>a. (a, delta_of v t a)) (map fst t))"
    unfolding deltas_def Let_def
  proof (rule rmap_Inr_map)
    fix a assume "a \<in> set (map fst t)"
    then obtain p where p: "map_of t a = Some p" using map_of_in_keys by fastforce
    have "map_of (asset_values v) a = Some (worth h prices a)"
      using \<open>a \<in> set (map fst t)\<close> by (simp add: value_portfolio_Inr(1) [OF assms] map_of_keyed)
    with p show "rbind (get_item (map_of (target_values v t)) a) (\<lambda>w.
        rbind (get_item (map_of (asset_values v)) a) (\<lambda>x. Inr (a, dsub w x))) = Inr (a, delta_of v t a)"
      by (simp add: target_values_map_of delta_of_def)
  qed
  then show ?thesis by (simp add: case_prod_unfold comp_def)
qed

lemma drifts_Inr:
  assumes "value_portfolio h prices t c = Inr v"
  shows "drifts v t = Inr (map (\<lambda>(a, pct). (a, drift_of v a pct)) t)"
  unfolding drifts_def
proof (rule rmap_Inr_map)
  fix x assume "x \<in> set t"
  then obtain a pct where x: "x = (a, pct)" "a \<in> fst ` set t"
    by (metis imageI prod.collapse)
  have "set (map fst (weights v)) = set (map fst t)"
    using value_portfolio_Inr(4) [OF assms] by simp
  with x(2) have "a \<in> fst ` set (weights v)" by (simp only: set_map)
  then obtain w where "map_of (weights v) a = Some w" using map_of_in_keys by metis
  then show "(case x of (a, pct) \<Rightarrow>
      rbind (get_item (map_of (weights v)) a) (\<lambda>w. Inr (a, dsub w pct))) =
      Inr (case x of (a, pct) \<Rightarrow> (a, drift_of v a pct))"
    by (simp add: x drift_of_def)
qed

end
