(* ===== verification/Allocation.thy ===== *)
theory Allocation
  imports Engine
begin

text \<open>
  Where available cash goes (\<open>engine/allocation.py\<close>): the cash above the cash target, its
  split in proportion to the targets, and its greedy use on the biggest shortfalls.
\<close>

section \<open>The operations\<close>

definition investable_cash :: "valuation \<Rightarrow> dec dict \<Rightarrow> dec" where
  "investable_cash v targets =
     (let wanted = dquot (dmul (managed_value v) (cash_target_pct targets)) HUNDRED;
          excess = dsub (val_cash v) wanted
      in if 0 < excess then excess else 0)"

definition allocate_prorata :: "dec \<Rightarrow> dec dict \<Rightarrow> dec dict" where
  "allocate_prorata amount targets =
     (let total = dsum (map snd targets)
      in if amount \<le> 0 \<or> total \<le> 0 then []
         else map (\<lambda>(asset, pct). (asset, dquot (dmul amount pct) total))
                (filter (\<lambda>(asset, pct). 0 < pct) targets))"

text \<open>
  The loop over the sorted shortfalls. It returns what is allocated and what remains; the
  \<open>break\<close> is the first branch.
\<close>

fun spend_shortfalls :: "dec dict \<Rightarrow> dec \<Rightarrow> dec dict \<Rightarrow> dec dict \<times> dec" where
  "spend_shortfalls [] remaining allocated = (allocated, remaining)"
| "spend_shortfalls ((asset, shortfall) # rest) remaining allocated =
     (if remaining \<le> 0 then (allocated, remaining)
      else let take = (if shortfall \<le> remaining then shortfall else remaining)
           in spend_shortfalls rest (dsub remaining take) (AList.update asset take allocated))"

fun add_extras :: "dec dict \<Rightarrow> dec dict \<Rightarrow> dec dict" where
  "add_extras [] allocated = allocated"
| "add_extras ((asset, extra) # rest) allocated =
     add_extras rest
       (AList.update asset
         (dadd (case map_of allocated asset of None \<Rightarrow> 0 | Some x \<Rightarrow> x) extra) allocated)"

definition sort_shortfalls :: "dec dict \<Rightarrow> dec dict" where
  "sort_shortfalls shortfalls = sort_key (\<lambda>(asset, d). (dneg d, asset)) shortfalls"

definition allocate_reduce_drift :: "dec \<Rightarrow> dec dict \<Rightarrow> dec dict \<Rightarrow> dec dict" where
  "allocate_reduce_drift amount asset_deltas targets =
     (if amount \<le> 0 then []
      else let shortfalls = filter (\<lambda>(a, d). 0 < d) asset_deltas;
               (allocated, remaining) = spend_shortfalls (sort_shortfalls shortfalls) amount []
           in if 0 < remaining then add_extras (allocate_prorata remaining targets) allocated
              else allocated)"

section \<open>The total of a dictionary\<close>

definition total :: "dec dict \<Rightarrow> rat" where
  "total d = (\<Sum>(a, x)\<leftarrow>d. x)"

lemma total_simps [simp]:
  "total [] = 0"
  "total ((a, x) # d) = x + total d"
  "total (d @ d') = total d + total d'"
  by (simp_all add: total_def)

lemma total_nonneg: "(\<And>a x. (a, x) \<in> set d \<Longrightarrow> 0 \<le> x) \<Longrightarrow> 0 \<le> total d"
  unfolding total_def by (rule sum_list_nonneg_map) auto

lemma total_update:
  "total (AList.update a y d) = total d - (case map_of d a of None \<Rightarrow> 0 | Some x \<Rightarrow> x) + y"
  by (induction d) (auto split: option.splits)

lemma update_new: "a \<notin> fst ` set d \<Longrightarrow> AList.update a x d = d @ [(a, x)]"
  by (induction d) auto

lemma set_update_subset: "set (AList.update a x d) \<subseteq> insert (a, x) (set d)"
  by (induction d) auto

section \<open>Cash above the target\<close>

lemma investable_cash_nonneg: "0 \<le> investable_cash v t"
  by (simp add: investable_cash_def Let_def)

lemma investable_cash_le:
  assumes "0 \<le> managed_value v" "0 \<le> cash_target_pct t" "0 \<le> val_cash v" "dec_round (val_cash v) = val_cash v"
  shows "investable_cash v t \<le> val_cash v"
proof -
  have "0 \<le> dquot (dmul (managed_value v) (cash_target_pct t)) HUNDRED"
    using assms unfolding dquot_def dmul_def
    by (intro dec.nonneg divide_nonneg_pos mult_nonneg_nonneg) auto
  then have "dsub (val_cash v) (dquot (dmul (managed_value v) (cash_target_pct t)) HUNDRED) \<le> val_cash v"
    unfolding dsub_def using assms(4) by (intro dec.below_fit) auto
  then show ?thesis using assms(3) by (simp add: investable_cash_def Let_def)
qed

section \<open>Pro rata\<close>

lemma allocate_prorata_pos: "(a, x) \<in> set (allocate_prorata amount t) \<Longrightarrow> 0 < x"
  by (auto simp: allocate_prorata_def Let_def dquot_def dmul_def split: if_splits)

lemma allocate_prorata_keys: "fst ` set (allocate_prorata amount t) \<subseteq> fst ` set t"
  by (auto simp: allocate_prorata_def Let_def intro: rev_image_eqI)

lemma allocate_prorata_ok: "dict_ok t \<Longrightarrow> dict_ok (allocate_prorata amount t)"
  by (simp add: allocate_prorata_def Let_def dict_ok_filter)

lemma allocate_prorata_length: "length (allocate_prorata amount t) \<le> length t"
  by (simp add: allocate_prorata_def Let_def)

text \<open>What the platform keeps of a user's weights: two places, each at least 0, 100 in all at most.\<close>

definition weights_ok :: "dec dict \<Rightarrow> bool" where
  "weights_ok t \<longleftrightarrow>
     dict_ok t \<and> list_all (\<lambda>(a, pct). on_grid 2 pct \<and> 0 \<le> pct) t \<and> total t \<le> 100"

lemma weights_ok_dsum: "weights_ok t \<Longrightarrow> dsum (map snd t) = total t"
  unfolding total_def case_prod_unfold
  by (rule dsum_exact [where k = 2]) (auto simp: weights_ok_def total_def case_prod_unfold list_all_iff)

lemma weights_ok_nonneg: "weights_ok t \<Longrightarrow> (a, pct) \<in> set t \<Longrightarrow> 0 \<le> pct"
  by (auto simp: weights_ok_def list_all_iff)

lemma share_bound:
  assumes "0 < amount" "0 < pct" "0 < tot"
  shows "dquot (dmul amount pct) tot \<le> amount / tot * (1 + dec_ulp) ^ 2 * pct"
proof -
  have "dquot (dmul amount pct) tot \<le> dmul amount pct / tot * (1 + dec_ulp)"
    unfolding dquot_def using assms by (intro dec.above) (simp add: dmul_def dec.nonneg)
  also have "\<dots> \<le> amount * pct * (1 + dec_ulp) / tot * (1 + dec_ulp)"
    unfolding dmul_def using assms dec.unit
    by (intro mult_right_mono divide_right_mono dec.above) auto
  finally show ?thesis by (simp add: power2_eq_square field_simps)
qed

lemma allocate_prorata_total:
  assumes "weights_ok t" "0 \<le> amount"
  shows "total (allocate_prorata amount t) \<le> amount * (1 + dec_ulp) ^ 2"
proof (cases "amount \<le> 0 \<or> dsum (map snd t) \<le> 0")
  case True
  then show ?thesis using assms(2) dec.unit by (simp add: allocate_prorata_def)
next
  case False
  define c where "c = amount / total t * (1 + dec_ulp) ^ 2"
  have tot: "0 < total t" "0 < amount" using False weights_ok_dsum [OF assms(1)] by auto
  then have c: "0 \<le> c" using dec.unit by (simp add: c_def)
  have "total (allocate_prorata amount t) =
      (\<Sum>x\<leftarrow>filter (\<lambda>(a, pct). 0 < pct) t. dquot (dmul amount (snd x)) (total t))"
    using False weights_ok_dsum [OF assms(1)]
    by (simp add: allocate_prorata_def Let_def total_def case_prod_unfold comp_def)
  also have "\<dots> \<le> (\<Sum>x\<leftarrow>filter (\<lambda>(a, pct). 0 < pct) t. c * snd x)"
    using tot unfolding c_def by (intro sum_list_mono_map share_bound) auto
  also have "\<dots> \<le> (\<Sum>x\<leftarrow>t. c * snd x)"
    using c weights_ok_nonneg [OF assms(1)] by (intro sum_list_filter_le) auto
  also have "\<dots> = c * total t"
    by (simp add: sum_list_scale total_def case_prod_unfold)
  also have "\<dots> = amount * (1 + dec_ulp) ^ 2" using tot by (simp add: c_def)
  finally show ?thesis .
qed

section \<open>The greedy loop\<close>

lemma spend_shortfalls_acc:
  assumes "fst ` set acc \<inter> fst ` set xs = {}" "dict_ok xs"
  shows "spend_shortfalls xs r acc = (acc @ fst (spend_shortfalls xs r []), snd (spend_shortfalls xs r []))"
  using assms
proof (induction xs arbitrary: r acc)
  case (Cons x xs)
  obtain a s where x: "x = (a, s)" by (cases x)
  let ?take = "if s \<le> r then s else r"
  have new: "AList.update a ?take acc = acc @ [(a, ?take)]"
    using Cons.prems x by (intro update_new) auto
  have disj: "fst ` set (acc @ [(a, ?take)]) \<inter> fst ` set xs = {}" "fst ` set [(a, ?take)] \<inter> fst ` set xs = {}"
    and ok: "dict_ok xs"
    using Cons.prems by (simp_all add: x)
  have 1: "spend_shortfalls xs (dsub r ?take) (acc @ [(a, ?take)]) =
      ((acc @ [(a, ?take)]) @ fst (spend_shortfalls xs (dsub r ?take) []),
       snd (spend_shortfalls xs (dsub r ?take) []))"
    by (rule Cons.IH [OF disj(1) ok])
  have 2: "spend_shortfalls xs (dsub r ?take) [(a, ?take)] =
      ([(a, ?take)] @ fst (spend_shortfalls xs (dsub r ?take) []),
       snd (spend_shortfalls xs (dsub r ?take) []))"
    by (rule Cons.IH [OF disj(2) ok])
  show ?case using 1 2 by (simp add: x new Let_def)
qed simp

text \<open>One step of the loop on an empty accumulator.\<close>

lemma spend_shortfalls_step:
  assumes "dict_ok ((a, s) # xs)" "0 < r"
  shows "spend_shortfalls ((a, s) # xs) r [] =
     (let take = (if s \<le> r then s else r); rest = spend_shortfalls xs (dsub r take) []
      in ((a, take) # fst rest, snd rest))"
  using assms spend_shortfalls_acc [of "[(a, if s \<le> r then s else r)]" xs]
  by (auto simp: Let_def)

lemma spend_shortfalls_done: "r \<le> 0 \<Longrightarrow> spend_shortfalls xs r acc = (acc, r)"
  by (cases xs) auto

text \<open>
  The greedy order: a prefix of the sorted shortfalls is filled whole, the next one is cut
  to what remains, and nothing after it gets anything.
\<close>

definition greedy :: "dec dict \<Rightarrow> dec dict \<Rightarrow> dec dict \<Rightarrow> dec dict \<Rightarrow> dec \<Rightarrow> bool" where
  "greedy xs ys zs al r \<longleftrightarrow>
     xs = ys @ zs \<and> 0 \<le> r \<and>
     (al = ys \<and> (zs = [] \<or> r = 0) \<or>
      (\<exists>a s x zs'. zs = (a, s) # zs' \<and> al = ys @ [(a, x)] \<and> 0 < x \<and> x < s \<and> r = 0))"

lemma spend_shortfalls_shape:
  assumes "dict_ok xs" "\<And>a s. (a, s) \<in> set xs \<Longrightarrow> 0 < s" "0 \<le> r"
    and "spend_shortfalls xs r [] = (al, r')"
  shows "\<exists>ys zs. greedy xs ys zs al r'"
  using assms
proof (induction xs arbitrary: r al r')
  case (Cons x xs)
  obtain a s where x: "x = (a, s)" by (cases x)
  show ?case
  proof (cases "0 < r")
    case False
    then have "greedy (x # xs) [] (x # xs) al r'"
      using Cons.prems by (auto simp: spend_shortfalls_done greedy_def)
    then show ?thesis by blast
  next
    case r: True
    let ?take = "if s \<le> r then s else r"
    obtain al2 where rest: "spend_shortfalls xs (dsub r ?take) [] = (al2, r')" "al = (a, ?take) # al2"
      using Cons.prems r spend_shortfalls_step [of a s xs r]
      by (cases "spend_shortfalls xs (dsub r ?take) []") (auto simp: x Let_def)
    show ?thesis
    proof (cases "s \<le> r")
      case True
      have "\<exists>ys zs. greedy xs ys zs al2 r'"
        using Cons.prems(1,2) rest(1) True x
        by (intro Cons.IH [of "dsub r s"]) (auto simp: dsub_def dec.nonneg)
      then obtain ys zs where "greedy xs ys zs al2 r'" by blast
      then have "greedy (x # xs) ((a, s) # ys) zs al r'"
        using True rest(2) x by (auto simp: greedy_def)
      then show ?thesis by blast
    next
      case False
      then have "al2 = []" "r' = 0" using rest(1) by (auto simp: dsub_def spend_shortfalls_done)
      then have "greedy (x # xs) [] (x # xs) al r'"
        using False rest(2) r x by (auto simp: greedy_def)
      then show ?thesis by blast
    qed
  qed
qed (simp add: greedy_def)

text \<open>The cost of the loop: what is taken and what remains, up to one rounding per step.\<close>

lemma spend_shortfalls_total:
  assumes "dict_ok xs" "0 \<le> r" "spend_shortfalls xs r [] = (al, r')"
    and "\<And>a s. (a, s) \<in> set xs \<Longrightarrow> 0 < s"
  shows "total al + r' \<le> r * (1 + dec_ulp) ^ length xs"
  using assms
proof (induction xs arbitrary: r al r')
  case (Cons x xs)
  obtain a s where x: "x = (a, s)" by (cases x)
  let ?k = "(1 + dec_ulp) ^ length xs"
  have k: "1 \<le> ?k" using dec.unit by (intro one_le_power) auto
  show ?case
  proof (cases "0 < r")
    case False
    then show ?thesis using Cons.prems by (auto simp: spend_shortfalls_done)
  next
    case r: True
    let ?take = "if s \<le> r then s else r"
    obtain al2 where rest: "spend_shortfalls xs (dsub r ?take) [] = (al2, r')" "al = (a, ?take) # al2"
      using Cons.prems r spend_shortfalls_step [of a s xs r]
      by (cases "spend_shortfalls xs (dsub r ?take) []") (auto simp: x Let_def)
    have left: "0 \<le> r - ?take" by simp
    have "total al2 + r' \<le> dsub r ?take * ?k"
      using Cons.prems(1,4) rest(1) x left by (intro Cons.IH) (auto simp: dsub_def dec.nonneg)
    also have "\<dots> \<le> (r - ?take) * (1 + dec_ulp) * ?k"
      unfolding dsub_def using left k by (intro mult_right_mono dec.above) auto
    finally have IH: "total al2 + r' \<le> (r - ?take) * ((1 + dec_ulp) * ?k)" by (simp add: mult.assoc)
    have "1 * 1 \<le> (1 + dec_ulp) * ?k" using k dec.unit by (intro mult_mono) auto
    then have "?take * 1 \<le> ?take * ((1 + dec_ulp) * ?k)"
      using Cons.prems(4) [of a s] r x by (intro mult_left_mono) auto
    with IH rest(2) show ?thesis by (simp add: algebra_simps)
  qed
qed simp

section \<open>The leftover\<close>

lemma add_extras_ok: "dict_ok al \<Longrightarrow> dict_ok (add_extras es al)"
  by (induction es al rule: add_extras.induct) (auto simp: dict_ok_update)

lemma add_extras_keys: "fst ` set (add_extras es al) = fst ` set es \<union> fst ` set al"
  by (induction es al rule: add_extras.induct) (auto simp: dom_update)

lemma update_pos:
  assumes "\<And>a x. (a, x) \<in> set al \<Longrightarrow> 0 < (x :: dec)" "0 < y"
  shows "(a, x) \<in> set (AList.update k y al) \<Longrightarrow> 0 < x"
  using assms set_update_subset [of k y al] by auto

lemma map_of_default_nonneg:
  "(\<And>a x. (a, x) \<in> set al \<Longrightarrow> 0 < (x :: dec)) \<Longrightarrow> 0 \<le> (case map_of al k of None \<Rightarrow> 0 | Some x \<Rightarrow> x)"
  by (auto split: option.splits dest!: map_of_SomeD intro: less_imp_le)

lemma add_extras_pos:
  assumes "\<And>a x. (a, x) \<in> set es \<Longrightarrow> 0 < x" "\<And>a x. (a, x) \<in> set al \<Longrightarrow> 0 < x"
  shows "(a, x) \<in> set (add_extras es al) \<Longrightarrow> 0 < x"
  using assms
proof (induction es al rule: add_extras.induct)
  case (2 k e rest al)
  have e: "0 < e" using "2.prems"(2) by auto
  have "0 \<le> (case map_of al k of None \<Rightarrow> 0 | Some x \<Rightarrow> x)"
    using "2.prems"(3) by (rule map_of_default_nonneg)
  with e have "0 < dadd (case map_of al k of None \<Rightarrow> 0 | Some x \<Rightarrow> x) e"
    by (simp add: dadd_def)
  then show ?case
    using "2.prems" update_pos [of al] by (intro "2.IH") auto
qed auto

lemma add_extras_ge:
  assumes "\<And>a x. (a, x) \<in> set es \<Longrightarrow> 0 < x" "map_of al a = Some y" "d \<le> y" "dec_fits y"
  shows "\<exists>x. map_of (add_extras es al) a = Some x \<and> d \<le> x"
  using assms
proof (induction es al arbitrary: y rule: add_extras.induct)
  case (2 k e rest al)
  show ?case
  proof (cases "k = a")
    case True
    have "0 < e" using "2.prems"(1) by auto
    then have "y \<le> dadd y e"
      unfolding dadd_def using "2.prems"(4) by (intro dec.above_fit) (auto simp: dec_fits_def)
    moreover have "dec_fits (dadd y e)" by (simp add: dec_fits_def dadd_def dec.idem)
    ultimately show ?thesis
      using "2.prems" "2.IH" [of "dadd y e"] True by (auto simp: update_conv')
  next
    case False
    then show ?thesis
      using "2.prems" "2.IH" [of y] by (auto simp: update_conv')
  qed
qed auto

lemma default_le_total:
  "(\<And>a x. (a, x) \<in> set al \<Longrightarrow> 0 < x) \<Longrightarrow> (case map_of al k of None \<Rightarrow> 0 | Some x \<Rightarrow> x) \<le> total al"
proof (induction al)
  case (Cons p al)
  obtain a y where p: "p = (a, y)" by (cases p)
  have "0 \<le> total al" using Cons.prems by (intro total_nonneg less_imp_le) auto
  moreover have "0 < y" "(case map_of al k of None \<Rightarrow> 0 | Some x \<Rightarrow> x) \<le> total al"
    using Cons by (auto simp: p)
  ultimately show ?case by (auto simp: p split: option.splits)
qed simp

lemma add_extras_total:
  assumes "\<And>a x. (a, x) \<in> set es \<Longrightarrow> 0 < x" "\<And>a x. (a, x) \<in> set al \<Longrightarrow> 0 < x"
  shows "total (add_extras es al) \<le> (total al + total es) * (1 + dec_ulp) ^ length es"
  using assms
proof (induction es al rule: add_extras.induct)
  case (2 k e rest al)
  let ?old = "case map_of al k of None \<Rightarrow> 0 | Some x \<Rightarrow> x"
  let ?al = "AList.update k (dadd ?old e) al"
  let ?k = "(1 + dec_ulp) ^ length rest"
  have e: "0 < e" using "2.prems"(1) by auto
  have old: "0 \<le> ?old" using "2.prems"(2) by (rule map_of_default_nonneg)
  have new: "0 < dadd ?old e" using e old by (simp add: dadd_def)
  have rest_nn: "0 \<le> total rest" using "2.prems"(1) by (intro total_nonneg less_imp_le) auto
  have al_nn: "0 \<le> total al" using "2.prems"(2) by (intro total_nonneg less_imp_le)
  have le_total: "?old \<le> total al"
    using "2.prems"(2) by (rule default_le_total)
  have "total (add_extras rest ?al) \<le> (total ?al + total rest) * ?k"
    using "2.prems" new update_pos [of al] by (intro "2.IH") auto
  also have "total ?al \<le> total al - ?old + (?old + e) * (1 + dec_ulp)"
    unfolding total_update dadd_def using e old by (intro add_left_mono dec.above) simp
  also have "\<dots> \<le> (total al + e) * (1 + dec_ulp)"
    using le_total dec.unit mult_right_mono [OF le_total dec.unit(1)] by (simp add: algebra_simps)
  finally have "total (add_extras rest ?al) \<le> ((total al + e) * (1 + dec_ulp) + total rest) * ?k"
    using dec.unit by (simp add: mult_right_mono)
  also have "\<dots> \<le> ((total al + e + total rest) * (1 + dec_ulp)) * ?k"
    using rest_nn dec.unit by (intro mult_right_mono) (auto simp: algebra_simps)
  finally show ?case by (simp add: algebra_simps)
qed simp

section \<open>Reducing drift\<close>

lemma sort_shortfalls_simps [simp]:
  "set (sort_shortfalls d) = set d"
  "length (sort_shortfalls d) = length d"
  "dict_ok (sort_shortfalls d) = dict_ok d"
proof -
  have "mset (map fst (sort_shortfalls d)) = mset (map fst d)"
    by (simp only: sort_shortfalls_def mset_map mset_sort)
  then show "dict_ok (sort_shortfalls d) = dict_ok d"
    unfolding dict_ok_def by (metis mset_eq_imp_distinct_iff)
qed (simp_all add: sort_shortfalls_def)

lemma sort_shortfalls_sorted:
  "sorted (map (\<lambda>(a, d). (dneg d, a)) (sort_shortfalls d))"
  unfolding sort_shortfalls_def by (rule sorted_sort_key)

definition positive_part :: "dec dict \<Rightarrow> dec dict" where
  "positive_part d = filter (\<lambda>(a, x). 0 < x) d"

lemma positive_part_pos: "(a, x) \<in> set (positive_part d) \<longleftrightarrow> (a, x) \<in> set d \<and> 0 < x"
  by (auto simp: positive_part_def)

text \<open>The two phases of \<open>allocate_reduce_drift\<close>, once and for every proof about it.\<close>

lemma allocate_reduce_drift_cases:
  assumes "dict_ok ds" "0 < amount"
  obtains al r ys zs where
    "greedy (sort_shortfalls (positive_part ds)) ys zs al r"
    "spend_shortfalls (sort_shortfalls (positive_part ds)) amount [] = (al, r)"
    "allocate_reduce_drift amount ds t = (if 0 < r then add_extras (allocate_prorata r t) al else al)"
proof -
  let ?xs = "sort_shortfalls (positive_part ds)"
  obtain al r where run: "spend_shortfalls ?xs amount [] = (al, r)"
    by (cases "spend_shortfalls ?xs amount []")
  have ok: "dict_ok ?xs" using assms(1) by (simp add: positive_part_def dict_ok_filter)
  have "\<exists>ys zs. greedy ?xs ys zs al r"
    using assms(2) by (intro spend_shortfalls_shape [OF ok _ _ run]) (auto simp: positive_part_pos)
  moreover have "allocate_reduce_drift amount ds t =
      (if 0 < r then add_extras (allocate_prorata r t) al else al)"
    using run assms(2) by (simp add: allocate_reduce_drift_def positive_part_def [symmetric])
  ultimately show ?thesis using run that by blast
qed

lemma greedy_part:
  assumes "greedy (sort_shortfalls (positive_part ds)) ys zs al r" "(a, x) \<in> set al"
  shows "0 < x" "\<exists>d. (a, d) \<in> set ds \<and> x \<le> d"
proof -
  have all: "0 < y \<and> (b, y) \<in> set ds" if "(b, y) \<in> set ys \<or> (b, y) \<in> set zs" for b y
  proof -
    from assms(1) that have "(b, y) \<in> set (sort_shortfalls (positive_part ds))" by (auto simp: greedy_def)
    then show ?thesis using positive_part_pos [of b y ds] by simp
  qed
  from assms consider "(a, x) \<in> set ys" | s where "(a, s) \<in> set zs" "0 < x" "x < s"
    by (fastforce simp: greedy_def)
  then have "0 < x \<and> (\<exists>d. (a, d) \<in> set ds \<and> x \<le> d)"
  proof cases
    case 1
    then show ?thesis using all [of a x] by auto
  next
    case (2 s)
    then show ?thesis using all [of a s] by (meson less_imp_le)
  qed
  then show "0 < x" "\<exists>d. (a, d) \<in> set ds \<and> x \<le> d" by auto
qed

lemma greedy_ok:
  assumes "greedy (sort_shortfalls (positive_part ds)) ys zs al r" "dict_ok ds"
  shows "dict_ok al"
proof -
  have "dict_ok (ys @ zs)"
    using assms by (metis dict_ok_filter greedy_def positive_part_def sort_shortfalls_simps(3))
  then show ?thesis using assms(1) by (auto simp: dict_ok_def greedy_def)
qed

lemma allocate_reduce_drift_pos:
  assumes "dict_ok ds" "(a, x) \<in> set (allocate_reduce_drift amount ds t)"
  shows "0 < x"
proof (cases "0 < amount")
  case True
  obtain al r ys zs where g: "greedy (sort_shortfalls (positive_part ds)) ys zs al r"
    and eq: "allocate_reduce_drift amount ds t = (if 0 < r then add_extras (allocate_prorata r t) al else al)"
    using allocate_reduce_drift_cases [OF assms(1) True, of t] by metis
  note pos = greedy_part(1) [OF g]
  show ?thesis
  proof (cases "0 < r")
    case True
    then have "(a, x) \<in> set (add_extras (allocate_prorata r t) al)" using assms(2) eq by simp
    then show ?thesis
      by (rule add_extras_pos [rotated 2]) (auto dest: allocate_prorata_pos pos)
  next
    case False
    with assms(2) eq show ?thesis by (auto intro: pos)
  qed
next
  case False
  with assms(2) show ?thesis by (simp add: allocate_reduce_drift_def)
qed

lemma allocate_reduce_drift_keys:
  assumes "dict_ok ds" "fst ` set ds \<subseteq> fst ` set t"
  shows "fst ` set (allocate_reduce_drift amount ds t) \<subseteq> fst ` set t"
    and "dict_ok (allocate_reduce_drift amount ds t)"
proof -
  have "fst ` set (allocate_reduce_drift amount ds t) \<subseteq> fst ` set t \<and>
      dict_ok (allocate_reduce_drift amount ds t)"
  proof (cases "0 < amount")
    case True
    obtain al r ys zs where g: "greedy (sort_shortfalls (positive_part ds)) ys zs al r"
      and eq: "allocate_reduce_drift amount ds t = (if 0 < r then add_extras (allocate_prorata r t) al else al)"
      using allocate_reduce_drift_cases [OF assms(1) True, of t] by metis
    have "fst ` set al \<subseteq> fst ` set ds"
      by (auto dest!: greedy_part(2) [OF g] intro: rev_image_eqI)
    with assms(2) have "fst ` set al \<subseteq> fst ` set t" by (rule order_trans [rotated])
    then show ?thesis
      using greedy_ok [OF g assms(1)] allocate_prorata_keys [of r t]
      by (simp add: eq add_extras_keys add_extras_ok)
  qed (simp add: allocate_reduce_drift_def)
  then show "fst ` set (allocate_reduce_drift amount ds t) \<subseteq> fst ` set t"
    and "dict_ok (allocate_reduce_drift amount ds t)" by auto
qed

lemma allocate_reduce_drift_total:
  assumes "dict_ok ds" "weights_ok t" "length ds = length t" "0 \<le> amount"
  shows "total (allocate_reduce_drift amount ds t) \<le> amount * (1 + dec_ulp) ^ (2 * length t + 2)"
proof (cases "0 < amount")
  case True
  let ?n = "length t" and ?q = "1 + dec_ulp"
  have q: "1 \<le> ?q" using dec.unit by simp
  obtain al r ys zs where g: "greedy (sort_shortfalls (positive_part ds)) ys zs al r"
    and run: "spend_shortfalls (sort_shortfalls (positive_part ds)) amount [] = (al, r)"
    and eq: "allocate_reduce_drift amount ds t = (if 0 < r then add_extras (allocate_prorata r t) al else al)"
    using allocate_reduce_drift_cases [OF assms(1) True, of t] by metis
  have r: "0 \<le> r" using g by (simp add: greedy_def)
  have al_nn: "0 \<le> total al" using greedy_part(1) [OF g] by (intro total_nonneg less_imp_le)
  have len: "length (sort_shortfalls (positive_part ds)) \<le> ?n"
    using assms(3) by (simp add: positive_part_def) (metis length_filter_le)
  have "total al + r \<le> amount * ?q ^ length (sort_shortfalls (positive_part ds))"
    using assms(1) True run
    by (intro spend_shortfalls_total) (auto simp: positive_part_pos, simp add: positive_part_def dict_ok_filter)
  also have "\<dots> \<le> amount * ?q ^ ?n"
    using True q len by (intro mult_left_mono power_increasing) auto
  finally have spent: "total al + r \<le> amount * ?q ^ ?n" .
  show ?thesis
  proof (cases "0 < r")
    case False
    have "amount * ?q ^ ?n \<le> amount * ?q ^ (2 * ?n + 2)"
      using q assms(4) by (intro mult_left_mono power_increasing) auto
    with eq False r spent show ?thesis by simp
  next
    case True
    let ?es = "allocate_prorata r t"
    have "total (add_extras ?es al) \<le> (total al + total ?es) * ?q ^ length ?es"
      by (rule add_extras_total) (auto dest: allocate_prorata_pos greedy_part(1) [OF g])
    also have "\<dots> \<le> (total al + r) * ?q ^ 2 * ?q ^ length ?es"
    proof (intro mult_right_mono)
      have "total ?es \<le> r * ?q ^ 2" using assms(2) r by (rule allocate_prorata_total)
      moreover have "total al * 1 \<le> total al * ?q ^ 2"
        using al_nn q by (intro mult_left_mono one_le_power)
      ultimately show "total al + total ?es \<le> (total al + r) * ?q ^ 2" by (simp add: distrib_right)
    qed (use q in simp)
    also have "\<dots> \<le> amount * ?q ^ ?n * ?q ^ 2 * ?q ^ ?n"
      using spent q al_nn r \<open>0 < amount\<close> allocate_prorata_length [of r t]
      by (intro mult_mono power_increasing) auto
    also have "\<dots> = amount * ?q ^ (2 * ?n + 2)"
      by (simp add: power_add mult_2 power2_eq_square)
    finally show ?thesis using eq True by simp
  qed
qed (use assms in \<open>simp add: allocate_reduce_drift_def\<close>)

end
