(* ===== verification/Reconcile.thy ===== *)
theory Reconcile
  imports Allocation
begin

text \<open>
  The entry point of the engine (\<open>engine/reconcile.py\<close>): a portfolio and its targets go
  in, the orders that close the gap come out. The lemmas give the plan of both policies
  in closed form and bound what an investment spends.
\<close>

section \<open>The operation\<close>

text \<open>The comprehension that keeps the assets whose drift reaches the threshold.\<close>

definition drifting :: "policy \<Rightarrow> dec dict \<Rightarrow> dec dict \<Rightarrow> dec dict result" where
  "drifting policy asset_deltas asset_drifts =
     rbind (rmap (\<lambda>(asset, delta).
              rbind (get_item (map_of asset_drifts) asset) (\<lambda>drift.
              Inr (min_drift_pct policy \<le> dabs drift, (asset, delta)))) asset_deltas)
       (\<lambda>judged. Inr (map snd (filter fst judged)))"

definition make_leg :: "policy \<Rightarrow> string \<times> dec \<Rightarrow> leg option" where
  "make_leg policy entry =
     (case entry of (asset, amount) \<Rightarrow>
        let side = (if 0 < amount then BUY else SELL);
            value = dabs amount
        in if value < min_order_fiat policy \<or> value = 0 then None
           else Some \<lparr>leg_asset = asset, leg_side = side, leg_amount_fiat = value\<rparr>)"

definition leg_order :: "leg \<Rightarrow> bool \<times> string" where
  "leg_order l = (leg_side l = BUY, leg_asset l)"

definition make_plan :: "policy \<Rightarrow> dec dict \<Rightarrow> plan" where
  "make_plan policy amounts =
     \<lparr>legs = sort_key leg_order (List.map_filter (make_leg policy) amounts)\<rparr>"

definition reconcile ::
  "(string \<rightharpoonup> dec) \<Rightarrow> (string \<rightharpoonup> dec) \<Rightarrow> dec dict \<Rightarrow> dec \<Rightarrow> policy \<Rightarrow> plan result" where
  "reconcile holdings prices targets cash policy =
     rbind (value_portfolio holdings prices targets cash) (\<lambda>valuation.
     rbind (deltas valuation targets) (\<lambda>asset_deltas.
     rbind (if allow_sells policy
            then rbind (drifts valuation targets) (drifting policy asset_deltas)
            else let spendable = investable_cash valuation targets
                 in Inr (if cash_policy policy = PRORATA then allocate_prorata spendable targets
                         else allocate_reduce_drift spendable asset_deltas targets))
       (\<lambda>amounts. Inr (make_plan policy amounts))))"

section \<open>Closed forms\<close>

definition asset_deltas_of :: "valuation \<Rightarrow> dec dict \<Rightarrow> dec dict" where
  "asset_deltas_of v t = map (\<lambda>(a, _). (a, delta_of v t a)) t"

definition drifting_of :: "policy \<Rightarrow> valuation \<Rightarrow> dec dict \<Rightarrow> dec dict" where
  "drifting_of p v t =
     map (\<lambda>(a, _). (a, delta_of v t a)) (filter (\<lambda>(a, pct). min_drift_pct p \<le> dabs (drift_of v a pct)) t)"

lemma asset_deltas_of_simps [simp]:
  "map fst (asset_deltas_of v t) = map fst t"
  "fst ` set (asset_deltas_of v t) = fst ` set t"
  "dict_ok (asset_deltas_of v t) = dict_ok t"
  "length (asset_deltas_of v t) = length t"
  by (simp_all add: asset_deltas_of_def dict_ok_def comp_def case_prod_unfold image_image)

lemma drifting_Inr:
  assumes "value_portfolio h prices t c = Inr v" "dict_ok t"
  shows "rbind (drifts v t) (drifting p (asset_deltas_of v t)) = Inr (drifting_of p v t)"
proof -
  have "rmap (\<lambda>(asset, delta).
          rbind (get_item (map_of (map (\<lambda>(a, pct). (a, drift_of v a pct)) t)) asset) (\<lambda>drift.
          Inr (min_drift_pct p \<le> dabs drift, (asset, delta)))) (asset_deltas_of v t)
      = Inr (map (\<lambda>(a, d). (min_drift_pct p \<le> dabs (drift_of v a (the (map_of t a))), (a, d))) (asset_deltas_of v t))"
  proof (rule rmap_Inr_map)
    fix x assume "x \<in> set (asset_deltas_of v t)"
    then obtain a pct where x: "x = (a, delta_of v t a)" "(a, pct) \<in> set t"
      by (auto simp: asset_deltas_of_def)
    have m: "map_of t a = Some pct"
      using x(2) assms(2) by (simp add: dict_ok_def)
    have "map_of (map (\<lambda>(a, pct). (a, drift_of v a pct)) t) a = Some (drift_of v a pct)"
      by (simp add: map_of_map_val m)
    then show "(case x of (asset, delta) \<Rightarrow>
          rbind (get_item (map_of (map (\<lambda>(a, pct). (a, drift_of v a pct)) t)) asset) (\<lambda>drift.
          Inr (min_drift_pct p \<le> dabs drift, (asset, delta)))) =
        Inr (case x of (a, d) \<Rightarrow> (min_drift_pct p \<le> dabs (drift_of v a (the (map_of t a))), (a, d)))"
      by (simp add: x(1) m)
  qed
  moreover have "map snd (filter fst (map (\<lambda>(a, d). (min_drift_pct p \<le> dabs (drift_of v a (the (map_of t a))), (a, d)))
      (asset_deltas_of v t))) = drifting_of p v t"
  proof -
    have "filter (\<lambda>x. min_drift_pct p \<le> dabs (drift_of v (fst x) (the (map_of t (fst x))))) t =
        filter (\<lambda>x. min_drift_pct p \<le> dabs (drift_of v (fst x) (snd x))) t"
      using assms(2) by (intro filter_cong) (auto simp: dict_ok_def)
    then show ?thesis
      by (simp add: asset_deltas_of_def drifting_of_def filter_map comp_def case_prod_unfold)
  qed
  ultimately show ?thesis
    using drifts_Inr [OF assms(1)] by (simp add: drifting_def)
qed

definition invest_amounts :: "policy \<Rightarrow> valuation \<Rightarrow> dec dict \<Rightarrow> dec dict" where
  "invest_amounts p v t =
     (if cash_policy p = PRORATA then allocate_prorata (investable_cash v t) t
      else allocate_reduce_drift (investable_cash v t) (asset_deltas_of v t) t)"

lemma reconcile_eq:
  assumes "dict_ok t"
  shows "reconcile h prices t c p =
     rbind (value_portfolio h prices t c)
       (\<lambda>v. Inr (make_plan p (if allow_sells p then drifting_of p v t else invest_amounts p v t)))"
proof (cases "value_portfolio h prices t c")
  case (Inr v)
  then show ?thesis
    using deltas_Inr [OF Inr] drifting_Inr [OF Inr assms, of p]
    by (simp add: reconcile_def invest_amounts_def Let_def flip: asset_deltas_of_def)
qed (simp add: reconcile_def)

lemma reconcile_InrE:
  assumes "reconcile h prices t c p = Inr plan" "dict_ok t"
  obtains v where "value_portfolio h prices t c = Inr v"
    and "plan = make_plan p (if allow_sells p then drifting_of p v t else invest_amounts p v t)"
  using assms by (auto simp: reconcile_eq result_simps)

section \<open>The plan of a dictionary of amounts\<close>

lemma make_plan_set: "l \<in> set (legs (make_plan p d)) \<longleftrightarrow> (\<exists>x \<in> set d. make_leg p x = Some l)"
  by (simp add: make_plan_def in_map_filter_iff)

lemma make_leg_Some:
  "make_leg p (a, x) = Some l \<longleftrightarrow>
     \<not> dabs x < min_order_fiat p \<and> x \<noteq> 0 \<and>
     l = \<lparr>leg_asset = a, leg_side = (if 0 < x then BUY else SELL), leg_amount_fiat = dabs x\<rparr>"
  by (auto simp: make_leg_def Let_def dabs_def)

lemma make_plan_sorted: "sorted (map leg_order (legs (make_plan p d)))"
  by (simp add: make_plan_def)

lemma map_filter_assets: "set (map leg_asset (List.map_filter (make_leg p) d)) \<subseteq> fst ` set d"
  by (induction d) (auto simp: map_filter_simps make_leg_Some split: option.splits)

lemma make_plan_distinct:
  assumes "dict_ok d"
  shows "distinct (map leg_asset (legs (make_plan p d)))"
proof -
  have "distinct (map leg_asset (List.map_filter (make_leg p) d))"
    using assms
  proof (induction d)
    case (Cons x d)
    obtain a y where x: "x = (a, y)" by (cases x)
    show ?case
    proof (cases "make_leg p x")
      case (Some l)
      then have "leg_asset l = a" by (simp add: x make_leg_Some)
      with Cons x Some map_filter_assets [of p d] show ?thesis
        by (auto simp: map_filter_simps)
    qed (use Cons x in \<open>simp add: map_filter_simps\<close>)
  qed (simp add: map_filter_simps)
  moreover have "mset (map leg_asset (legs (make_plan p d))) = mset (map leg_asset (List.map_filter (make_leg p) d))"
    by (simp only: make_plan_def plan.simps mset_map mset_sort)
  ultimately show ?thesis by (metis mset_eq_imp_distinct_iff)
qed

text \<open>The money of a plan: what its legs ask for together.\<close>

definition plan_cost :: "plan \<Rightarrow> rat" where
  "plan_cost p = (\<Sum>l\<leftarrow>legs p. leg_amount_fiat l)"

lemma make_plan_cost:
  assumes "\<And>a x. (a, x) \<in> set d \<Longrightarrow> 0 < x"
  shows "plan_cost (make_plan p d) \<le> total d * (1 + dec_ulp)"
proof -
  have "plan_cost (make_plan p d) = sum_mset (image_mset leg_amount_fiat (mset (List.map_filter (make_leg p) d)))"
    unfolding plan_cost_def make_plan_def plan.simps
    by (metis mset_map mset_sort sum_mset_sum_list)
  also have "\<dots> = (\<Sum>l\<leftarrow>List.map_filter (make_leg p) d. leg_amount_fiat l)"
    by (metis mset_map sum_mset_sum_list)
  also have "\<dots> \<le> total d * (1 + dec_ulp)"
    using assms
  proof (induction d)
    case (Cons y d)
    obtain a x where y: "y = (a, x)" by (cases y)
    have x: "0 < x" using Cons.prems y by auto
    have IH: "(\<Sum>l\<leftarrow>List.map_filter (make_leg p) d. leg_amount_fiat l) \<le> total d * (1 + dec_ulp)"
      using Cons by auto
    have "dabs x \<le> x * (1 + dec_ulp)" using x unfolding dabs_def by (simp add: dec.above)
    moreover have "0 \<le> x * (1 + dec_ulp)" using x dec.unit by simp
    moreover have "leg_amount_fiat l = dabs x" if "make_leg p (a, x) = Some l" for l
      using that by (simp add: make_leg_Some)
    ultimately show ?case
      using IH by (cases "make_leg p (a, x)") (auto simp: y map_filter_simps distrib_right)
  qed (simp add: map_filter_simps)
  finally show ?thesis .
qed

lemma invest_amounts_pos: "dict_ok t \<Longrightarrow> (a, x) \<in> set (invest_amounts p v t) \<Longrightarrow> 0 < x"
  using allocate_reduce_drift_pos [of "asset_deltas_of v t"]
  by (auto simp: invest_amounts_def allocate_prorata_pos split: if_splits)

lemma invest_amounts_keys:
  "dict_ok t \<Longrightarrow> fst ` set (invest_amounts p v t) \<subseteq> fst ` set t \<and> dict_ok (invest_amounts p v t)"
  using allocate_prorata_keys allocate_prorata_ok allocate_reduce_drift_keys [of "asset_deltas_of v t" t]
  by (simp add: invest_amounts_def)

lemma drifting_of_ok: "dict_ok t \<Longrightarrow> dict_ok (drifting_of p v t)"
  by (simp add: drifting_of_def dict_ok_filter)

lemma drifting_of_keys: "fst ` set (drifting_of p v t) \<subseteq> fst ` set t"
  by (auto simp: drifting_of_def intro: rev_image_eqI)

lemma reconcile_amounts_ok:
  "dict_ok t \<Longrightarrow> dict_ok (if allow_sells p then drifting_of p v t else invest_amounts p v t)"
  using invest_amounts_keys drifting_of_ok by simp

section \<open>Sample inputs\<close>

text \<open>An account in euros, with and without coins, on which the properties are exercised.\<close>

definition sample_prices :: "string \<rightharpoonup> dec" where
  "sample_prices = [''ETH'' \<mapsto> 2500, ''XBT'' \<mapsto> 50000]"

definition sample_targets :: "dec dict" where
  "sample_targets = [(''ETH'', 40), (''XBT'', 50)]"

definition sample_policy :: "bool \<Rightarrow> cash_policy \<Rightarrow> policy" where
  "sample_policy sells cash =
     \<lparr>allow_sells = sells, cash_policy = cash, min_drift_pct = 5, min_order_fiat = 0\<rparr>"

definition sample_holdings :: "string \<rightharpoonup> dec" where
  "sample_holdings = [''ETH'' \<mapsto> 1 / 10, ''XBT'' \<mapsto> 15 / 1000]"

abbreviation sample_plan :: "(string \<times> side \<times> dec) list \<Rightarrow> plan" where
  "sample_plan xs \<equiv>
     \<lparr>legs = map (\<lambda>(a, s, x). \<lparr>leg_asset = a, leg_side = s, leg_amount_fiat = x\<rparr>) xs\<rparr>"

lemma sample_targets_ok: "dict_ok sample_targets" "weights_ok sample_targets"
  by code_simp+

text \<open>The valuations of the two accounts.\<close>

definition sample_cash_valuation :: valuation where
  "sample_cash_valuation =
     \<lparr>asset_values = [(''ETH'', 0), (''XBT'', 0)], val_cash = 1000, managed_value = 1000,
      weights = [(''ETH'', 0), (''XBT'', 0)], cash_weight = 100\<rparr>"

definition sample_coin_valuation :: valuation where
  "sample_coin_valuation =
     \<lparr>asset_values = [(''ETH'', 250), (''XBT'', 750)], val_cash = 0, managed_value = 1000,
      weights = [(''ETH'', 25), (''XBT'', 75)], cash_weight = 0\<rparr>"

lemma sample_values:
  "value_portfolio Map.empty sample_prices sample_targets 1000 = Inr sample_cash_valuation"
  "value_portfolio sample_holdings sample_prices sample_targets 0 = Inr sample_coin_valuation"
  by (simp_all add: value_portfolio_def value_asset_def sample_targets_def sample_prices_def sample_holdings_def
      sample_cash_valuation_def sample_coin_valuation_def dsum_def dquot_def HUNDRED_def dec_simps dec_eval)

lemma sample_policy_simps [simp]:
  "allow_sells (sample_policy b c) = b" "cash_policy (sample_policy b c) = c"
  "min_drift_pct (sample_policy b c) = 5" "min_order_fiat (sample_policy b c) = 0"
  by (simp_all add: sample_policy_def)

lemma sample_spendable: "investable_cash sample_cash_valuation sample_targets = 900"
  by (simp add: investable_cash_def cash_target_pct_def sample_targets_def sample_cash_valuation_def
      dsum_def dquot_def HUNDRED_def dec_simps dec_eval)

lemma sample_amounts:
  "allocate_prorata 900 sample_targets = [(''ETH'', 400), (''XBT'', 500)]"
  "drifting_of (sample_policy True PRORATA) sample_coin_valuation sample_targets
     = [(''ETH'', 150), (''XBT'', -250)]"
  by (simp_all add: allocate_prorata_def drifting_of_def drift_of_def delta_of_def sample_targets_def
      sample_coin_valuation_def dsum_def dquot_def HUNDRED_def dec_simps dec_eval)

lemma sample_plans:
  "make_plan (sample_policy False PRORATA) [(''ETH'', 400), (''XBT'', 500)]
     = sample_plan [(''ETH'', BUY, 400), (''XBT'', BUY, 500)]"
  "make_plan (sample_policy True PRORATA) [(''ETH'', 150), (''XBT'', -250)]
     = sample_plan [(''XBT'', SELL, 250), (''ETH'', BUY, 150)]"
  by (simp_all add: make_plan_def make_leg_def map_filter_simps dec_simps dec_eval leg_order_def)

lemma sample_invest:
  "reconcile Map.empty sample_prices sample_targets 1000 (sample_policy False PRORATA)
     = Inr (sample_plan [(''ETH'', BUY, 400), (''XBT'', BUY, 500)])"
  by (simp add: reconcile_eq sample_targets_ok sample_values invest_amounts_def sample_spendable sample_amounts sample_plans)

lemma sample_rebalance:
  "reconcile sample_holdings sample_prices sample_targets 0 (sample_policy True PRORATA)
     = Inr (sample_plan [(''XBT'', SELL, 250), (''ETH'', BUY, 150)])"
  by (simp add: reconcile_eq sample_targets_ok sample_values sample_amounts sample_plans)

section \<open>Properties\<close>



text \<open>
  A policy without sells never produces a sell. Every leg of an investment is a buy of a
  positive amount of a managed asset, whatever the holdings, prices and targets.
\<close>

theorem invest_only_buys:
  assumes "reconcile h prices t c p = Inr plan" "\<not> allow_sells p" "dict_ok t" "l \<in> set (legs plan)"
  shows "leg_side l = BUY \<and> 0 < leg_amount_fiat l \<and> leg_asset l \<in> fst ` set t"
proof -
  obtain v where "plan = make_plan p (invest_amounts p v t)"
    using assms(1-3) by (auto elim: reconcile_InrE)
  then obtain a x where ax: "(a, x) \<in> set (invest_amounts p v t)" "make_leg p (a, x) = Some l"
    using assms(4) by (auto simp: make_plan_set)
  have "0 < x" "a \<in> fst ` set t"
    using invest_amounts_pos [OF assms(3) ax(1)] invest_amounts_keys [OF assms(3), of p v] ax(1)
    by force+
  then show ?thesis using ax(2) by (simp add: make_leg_Some dabs_def)
qed

theorem invest_only_buys_witness:
  "\<exists>plan. reconcile Map.empty sample_prices sample_targets 1000 (sample_policy False PRORATA) = Inr plan \<and>
     \<lparr>leg_asset = ''XBT'', leg_side = BUY, leg_amount_fiat = 500\<rparr> \<in> set (legs plan) \<and>
     ''XBT'' \<in> fst ` set sample_targets"
  using invest_only_buys [OF sample_invest _ sample_targets_ok(1),
      of "\<lparr>leg_asset = ''XBT'', leg_side = BUY, leg_amount_fiat = 500\<rparr>"]
  by (simp add: sample_invest)

text \<open>
  C25: an investment never asks for more than the cash above the cash target, up to the last
  digits of the 28 the decimals keep: one rounding per step of the computation.
\<close>

theorem invest_within_cash:
  assumes "value_portfolio h prices t c = Inr v" "reconcile h prices t c p = Inr plan"
    and "\<not> allow_sells p" "weights_ok t"
  shows "plan_cost plan \<le> investable_cash v t * (1 + dec_ulp) ^ (2 * length t + 3)"
proof -
  let ?q = "1 + dec_ulp" and ?cash = "investable_cash v t"
  have ok: "dict_ok t" using assms(4) by (simp add: weights_ok_def)
  have q: "1 \<le> ?q" using dec.unit by simp
  have "total (invest_amounts p v t) \<le> ?cash * ?q ^ (2 * length t + 2)"
  proof (cases "cash_policy p = PRORATA")
    case True
    have "total (allocate_prorata ?cash t) \<le> ?cash * ?q ^ 2"
      by (intro allocate_prorata_total assms(4) investable_cash_nonneg)
    also have "\<dots> \<le> ?cash * ?q ^ (2 * length t + 2)"
      using q investable_cash_nonneg by (intro mult_left_mono power_increasing) auto
    finally show ?thesis using True by (simp add: invest_amounts_def)
  next
    case False
    then show ?thesis
      using ok assms(4) investable_cash_nonneg
      by (simp add: invest_amounts_def) (intro order_trans [OF allocate_reduce_drift_total], auto)
  qed
  then have bound: "total (invest_amounts p v t) * ?q \<le> ?cash * ?q ^ (2 * length t + 2) * ?q"
    using q by (intro mult_right_mono) auto
  have "plan_cost plan \<le> total (invest_amounts p v t) * ?q"
    using assms(1-3) ok invest_amounts_pos [OF ok] by (auto simp: reconcile_eq intro!: make_plan_cost)
  also note bound
  also have "?cash * ?q ^ (2 * length t + 2) * ?q = ?cash * ?q ^ (2 * length t + 3)"
    by (simp add: eval_nat_numeral)
  finally show ?thesis .
qed

theorem invest_within_cash_witness:
  "\<exists>plan. reconcile Map.empty sample_prices sample_targets 1000 (sample_policy False PRORATA) = Inr plan \<and>
     plan_cost plan = 900 \<and>
     plan_cost plan \<le> investable_cash sample_cash_valuation sample_targets * (1 + dec_ulp) ^ (2 * length sample_targets + 3)"
  using invest_within_cash [OF sample_values(1) sample_invest _ sample_targets_ok(2)]
  by (simp add: sample_invest plan_cost_def)

text \<open>
  The legs of every plan come sells first, then buys, each group in the order of the asset
  codes, with one leg per asset at most, and only for managed assets. The sells raise the
  money the buys spend.
\<close>

theorem reconcile_order:
  assumes "reconcile h prices t c p = Inr plan" "dict_ok t"
  shows "sorted (map leg_order (legs plan)) \<and> distinct (map leg_asset (legs plan)) \<and>
     leg_asset ` set (legs plan) \<subseteq> fst ` set t"
proof -
  obtain v where plan: "plan = make_plan p (if allow_sells p then drifting_of p v t else invest_amounts p v t)"
    using assms by (elim reconcile_InrE)
  let ?d = "if allow_sells p then drifting_of p v t else invest_amounts p v t"
  have "leg_asset ` set (legs (make_plan p ?d)) \<subseteq> fst ` set ?d"
    by (force simp: make_plan_set make_leg_Some)
  also have "\<dots> \<subseteq> fst ` set t"
    using drifting_of_keys [of p v t] invest_amounts_keys [OF assms(2), of p v] by simp
  finally show ?thesis
    using make_plan_sorted make_plan_distinct reconcile_amounts_ok [OF assms(2)] plan by simp
qed

theorem reconcile_order_witness:
  "\<exists>plan. reconcile sample_holdings sample_prices sample_targets 0 (sample_policy True PRORATA) = Inr plan \<and>
     map leg_side (legs plan) = [SELL, BUY] \<and> sorted (map leg_order (legs plan))"
  using reconcile_order [OF sample_rebalance sample_targets_ok(1)] by (simp add: sample_rebalance)

text \<open>
  C27: a rebalance holds a leg for an asset exactly when its drift reaches the threshold and its
  amount the minimum order, and the leg is the asset's whole distance from its target, a
  buy when it is short and a sell when it is over.
\<close>

theorem rebalance_legs:
  assumes "value_portfolio h prices t c = Inr v" "reconcile h prices t c p = Inr plan"
    and "allow_sells p" "dict_ok t"
  shows "l \<in> set (legs plan) \<longleftrightarrow>
     (\<exists>a pct. map_of t a = Some pct \<and> min_drift_pct p \<le> dabs (drift_of v a pct) \<and>
        min_order_fiat p \<le> dabs (delta_of v t a) \<and> delta_of v t a \<noteq> 0 \<and>
        l = \<lparr>leg_asset = a, leg_side = (if 0 < delta_of v t a then BUY else SELL),
             leg_amount_fiat = dabs (delta_of v t a)\<rparr>)"
proof -
  have "plan = make_plan p (drifting_of p v t)" using assms by (auto simp: reconcile_eq)
  then show ?thesis
    using assms(4) by (auto simp: make_plan_set drifting_of_def make_leg_Some not_less dict_ok_def)
qed

theorem rebalance_legs_witness:
  "\<exists>plan. reconcile sample_holdings sample_prices sample_targets 0 (sample_policy True PRORATA) = Inr plan \<and>
     (\<exists>a pct. map_of sample_targets a = Some pct \<and> dabs (delta_of sample_coin_valuation sample_targets a) = 250)"
  using rebalance_legs [OF sample_values(2) sample_rebalance _ sample_targets_ok(1),
      of "\<lparr>leg_asset = ''XBT'', leg_side = SELL, leg_amount_fiat = 250\<rparr>"]
  by (auto simp: sample_rebalance)

text \<open>Of a greedy pass that leaves a shortfall open nothing is left, and nothing went to a later one.\<close>

lemma greedy_cut:
  assumes g: "greedy (ys @ zs) ys zs al r" and ok: "dict_ok (ys @ zs)"
    and srt: "sorted (map (\<lambda>(a, d). (dneg d, a)) (ys @ zs))"
    and mem: "(a, d) \<in> set (ys @ zs)" "(b, e) \<in> set (ys @ zs)"
    and short: "(a, d) \<notin> set al" and later: "(dneg d, a) < (dneg e, b)"
  shows "r = 0 \<and> b \<notin> fst ` set al"
proof -
  have r: "r = 0" using g short mem(1) by (auto simp: greedy_def)
  have in_zs: "(a, d) \<in> set zs" using g short mem(1) by (auto simp: greedy_def)
  let ?key = "\<lambda>(a, d). (dneg d, a)"
  have le: "?key x \<le> ?key y" if "x \<in> set ys" "y \<in> set zs" for x y
    using srt that by (auto simp: sorted_append)
  have "(b, e) \<notin> set ys" using le [OF _ in_zs] later by force
  then have "(b, e') \<notin> set ys" for e' using dict_ok_unique [OF ok mem(2), of e'] by auto
  then have b_ys: "b \<notin> fst ` set ys" by auto
  have b_cut: "b \<noteq> c" if "zs = (c, s) # zs'" for c s zs'
  proof
    assume "b = c"
    then have "e = s" using dict_ok_unique [OF ok mem(2), of s] that by simp
    moreover have "?key (c, s) \<le> ?key (a, d)"
      using srt in_zs that by (auto simp: sorted_append)
    ultimately show False using later \<open>b = c\<close> by (auto dest: leD)
  qed
  show ?thesis using r g b_ys b_cut by (auto simp: greedy_def)
qed

text \<open>
  C26: the cash that reduces drift goes to the biggest shortfalls first. When an asset gets less
  than its shortfall, every asset that comes after it in the order of the shortfalls
  (smaller, or equal with a later code) gets nothing at all.
\<close>

theorem reduce_drift_priority:
  assumes "dict_ok ds" "list_all (\<lambda>(a, d). dec_fits d) ds"
    and a: "map_of ds a = Some d" "0 < d" "(case map_of (allocate_reduce_drift amount ds t) a of None \<Rightarrow> 0 | Some x \<Rightarrow> x) < d"
    and b: "map_of ds b = Some e" "0 < e" "(dneg d, a) < (dneg e, b)"
  shows "map_of (allocate_reduce_drift amount ds t) b = None"
proof (cases "0 < amount")
  case True
  obtain al r ys zs where g: "greedy (sort_shortfalls (positive_part ds)) ys zs al r"
    and eq: "allocate_reduce_drift amount ds t = (if 0 < r then add_extras (allocate_prorata r t) al else al)"
    using allocate_reduce_drift_cases [OF assms(1) True, of t] by metis
  have xs: "sort_shortfalls (positive_part ds) = ys @ zs" using g by (simp add: greedy_def)
  have ok: "dict_ok (ys @ zs)"
    using assms(1) by (metis dict_ok_filter positive_part_def sort_shortfalls_simps(3) xs)
  have srt: "sorted (map (\<lambda>(a, d). (dneg d, a)) (ys @ zs))"
    by (metis sort_shortfalls_sorted xs)
  have mem: "(a, d) \<in> set (ys @ zs)" "(b, e) \<in> set (ys @ zs)"
    using a b positive_part_pos by (simp_all add: map_of_SomeD flip: xs)
  have "dec_fits d" using a(1) assms(2) by (auto simp: list_all_iff dest: map_of_SomeD)
  have short: "(a, d) \<notin> set al"
  proof
    assume "(a, d) \<in> set al"
    then have al: "map_of al a = Some d" using greedy_ok [OF g assms(1)] by (simp add: dict_ok_def)
    then have "\<exists>x. map_of (add_extras (allocate_prorata r t) al) a = Some x \<and> d \<le> x"
      using \<open>dec_fits d\<close> by (intro add_extras_ge [of _ _ _ d]) (auto dest: allocate_prorata_pos)
    with al eq a(3) show False by (auto split: if_splits)
  qed
  from greedy_cut [OF _ ok srt mem short b(3), of r] g have "r = 0" "b \<notin> fst ` set al" by (simp_all add: xs)
  then show ?thesis using eq by (simp add: map_of_eq_None_iff)
qed (simp add: allocate_reduce_drift_def)

theorem reduce_drift_priority_witness:
  "map_of (allocate_reduce_drift 40 [(''ADA'', 10), (''ETH'', 30), (''XBT'', 50)] sample_targets) ''XBT'' = Some 40 \<and>
   map_of (allocate_reduce_drift 40 [(''ADA'', 10), (''ETH'', 30), (''XBT'', 50)] sample_targets) ''ETH'' = None"
proof -
  have 1: "dict_ok [(''ADA'', 10 :: dec), (''ETH'', 30), (''XBT'', 50)]" by code_simp
  have 2: "list_all (\<lambda>(a, d). dec_fits d) [(''ADA'', 10), (''ETH'', 30), (''XBT'', 50)]" by code_simp
  have 3: "map_of (allocate_reduce_drift 40 [(''ADA'', 10), (''ETH'', 30), (''XBT'', 50)] sample_targets) ''XBT'' = Some 40"
    by code_simp
  have 4: "(dneg 50, ''XBT'') < (dneg 30, ''ETH'')" by code_simp
  show ?thesis
    using reduce_drift_priority [OF 1 2, of "''XBT''" 50 40 sample_targets "''ETH''" 30] 3 4 by simp
qed

end
