(* ===== verification/Calendar.thy ===== *)
theory Calendar
  imports Prelude "HOL-Library.Word"
begin

text \<open>
  What the platform uses of Python's \<open>datetime\<close>, \<open>calendar\<close>, \<open>uuid\<close> and \<open>zlib\<close>. An aware
  datetime is the number of microseconds since the epoch, in UTC; a timedelta a number of
  microseconds. The calendar is the proleptic Gregorian one, with Python's ordinals: the 1st of
  January of the year 1 is day 1. An identifier is its 128 bits.
\<close>

type_synonym timedelta = int
type_synonym uuid = "128 word"

definition SECOND :: int where "SECOND = 1000000"
definition DAY :: int where "DAY = 86400000000"

text \<open>\<open>int(delta.total_seconds())\<close>: truncation towards zero.\<close>

definition whole_seconds :: "timedelta \<Rightarrow> int" where
  "whole_seconds d = (if 0 \<le> d then d div SECOND else - ((- d) div SECOND))"

section \<open>Identifiers\<close>

definition bytes_of :: "uuid \<Rightarrow> 8 word list" where
  "bytes_of u = map (\<lambda>i. ucast (drop_bit (8 * (15 - i)) u)) [0..<16]"

definition crc32_bit :: "32 word \<Rightarrow> 32 word" where
  "crc32_bit c = (if bit c 0 then xor (drop_bit 1 c) 0xEDB88320 else drop_bit 1 c)"

definition crc32 :: "8 word list \<Rightarrow> 32 word" where
  "crc32 bs = xor (foldl (\<lambda>c b. (crc32_bit ^^ 8) (xor c (ucast b))) 0xFFFFFFFF bs) 0xFFFFFFFF"

definition hex_digit :: "nat \<Rightarrow> char" where
  "hex_digit n = char_of (if n < 10 then 48 + n else 87 + n)"

text \<open>\<open>uuid.hex\<close>: 32 digits.\<close>

definition hex :: "uuid \<Rightarrow> string" where
  "hex u = map (\<lambda>i. hex_digit (unat (take_bit 4 (drop_bit (4 * (31 - i)) u)))) [0..<32]"

section \<open>The calendar\<close>

definition is_leap :: "int \<Rightarrow> bool" where
  "is_leap y \<longleftrightarrow> y mod 4 = 0 \<and> (y mod 100 \<noteq> 0 \<or> y mod 400 = 0)"

definition days_before_year :: "int \<Rightarrow> int" where
  "days_before_year y = (let z = y - 1 in 365 * z + z div 4 - z div 100 + z div 400)"

text \<open>Days before a month of a year that is not leap, and the days a leap year adds.\<close>

definition days_before_month :: "int \<Rightarrow> int \<Rightarrow> int" where
  "days_before_month y m =
     [0, 0, 31, 59, 90, 120, 151, 181, 212, 243, 273, 304, 334, 365] ! nat m +
     (if 2 < m \<and> is_leap y then 1 else 0)"

definition days_in_month :: "int \<Rightarrow> int \<Rightarrow> int" where
  "days_in_month y m = days_before_month y (m + 1) - days_before_month y m"

definition ordinal :: "int \<times> int \<times> int \<Rightarrow> int" where
  "ordinal = (\<lambda>(y, m, d). days_before_year y + days_before_month y m + d)"

definition EPOCH_ORDINAL :: int where
  "EPOCH_ORDINAL = 719163"

text \<open>
  The date of an ordinal. The year is within one of the mean length's estimate; the month is
  the last one that begins before the day.
\<close>

definition year_of :: "int \<Rightarrow> int" where
  "year_of n =
     (let y = 400 * (n - 1) div 146097 + 1
      in if days_before_year (y + 1) < n then y + 1 else if days_before_year y < n then y else y - 1)"

fun last_month :: "int \<Rightarrow> int \<Rightarrow> nat \<Rightarrow> nat" where
  "last_month y r 0 = 0"
| "last_month y r (Suc k) = (if k = 0 \<or> days_before_month y (int (Suc k)) < r then Suc k else last_month y r k)"

definition month_of :: "int \<Rightarrow> int \<Rightarrow> int" where
  "month_of y r = int (last_month y r 12)"

definition civil :: "int \<Rightarrow> int \<times> int \<times> int" where
  "civil n =
     (let y = year_of n; r = n - days_before_year y; m = month_of y r
      in (y, m, r - days_before_month y m))"

lemma div_step:
  assumes "(0 :: int) < k"
  shows "(z + 1) div k = z div k + (if (z + 1) mod k = 0 then 1 else 0)"
proof -
  define q r where "q = z div k" and "r = z mod k"
  have z: "z = k * q + r" "0 \<le> r" "r < k" using assms by (auto simp: q_def r_def)
  show ?thesis
  proof (cases "r + 1 = k")
    case True
    then have "z + 1 = k * (q + 1)" by (simp add: z(1) algebra_simps)
    then have "(z + 1) div k = q + 1" "(z + 1) mod k = 0"
      using assms by (metis nonzero_mult_div_cancel_left less_irrefl, metis mod_mult_self1_is_0)
    then show ?thesis by (simp add: q_def)
  next
    case False
    then have r: "0 < r + 1" "r + 1 < k" using z by auto
    have "z + 1 = k * q + (r + 1)" by (simp add: z(1))
    then have "(z + 1) div k = q + (r + 1) div k" "(z + 1) mod k = (r + 1) mod k"
      using assms by (metis div_mult_self4 less_irrefl, metis mod_mult_self4)
    then show ?thesis using r by (simp add: q_def)
  qed
qed

lemma div_step': "(0 :: int) < k \<Longrightarrow> z div k = (z - 1) div k + (if z mod k = 0 then 1 else 0)"
  using div_step [of k "z - 1"] by simp

lemma div_same: "(0 :: int) < k \<Longrightarrow> (z + 1) mod k \<noteq> 0 \<Longrightarrow> (z + 1) div k = z div k"
  using div_step [of k z] by simp

lemma div_next: "(0 :: int) < k \<Longrightarrow> (z + 1) mod k = 0 \<Longrightarrow> (z + 1) div k = z div k + 1"
  using div_step [of k z] by simp

lemma div_bounds: "(0 :: int) < k \<Longrightarrow> z - k + 1 \<le> k * (z div k) \<and> k * (z div k) \<le> z"
  using pos_mod_bound [of k z] pos_mod_sign [of k z] mult_div_mod_eq [of k z] by linarith

lemma year_length: "days_before_year (y + 1) = days_before_year y + (if is_leap y then 366 else 365)"
proof -
  define p q r where "p \<longleftrightarrow> y mod 4 = 0" and "q \<longleftrightarrow> y mod 100 = 0" and "r \<longleftrightarrow> y mod 400 = 0"
  have imp: "r \<longrightarrow> q" "q \<longrightarrow> p" unfolding p_def q_def r_def by presburger+
  define a b c where "a = (y - 1) div 4" and "b = (y - 1) div 100" and "c = (y - 1) div 400"
  have "y div 4 = a + (if p then 1 else 0)" "y div 100 = b + (if q then 1 else 0)"
    "y div 400 = c + (if r then 1 else 0)"
    unfolding a_def b_def c_def p_def q_def r_def by (rule div_step', simp)+
  moreover have "days_before_year (y + 1) = 365 * y + y div 4 - y div 100 + y div 400"
    by (simp add: days_before_year_def)
  moreover have "days_before_year y = 365 * (y - 1) + a - b + c"
    by (simp add: days_before_year_def a_def b_def c_def Let_def)
  moreover have "is_leap y \<longleftrightarrow> p \<and> (\<not> q \<or> r)"
    by (simp add: is_leap_def p_def q_def r_def)
  ultimately show ?thesis using imp by (cases p; cases q; cases r) simp_all
qed

lemma days_before_year_bounds:
  "146097 * (y - 1) - 699 \<le> 400 * days_before_year y"
  "400 * days_before_year y \<le> 146097 * (y - 1) + 396"
proof -
  define a b c where "a = (y - 1) div 4" and "b = (y - 1) div 100" and "c = (y - 1) div 400"
  have "y - 4 \<le> 4 * a" "4 * a \<le> y - 1" "y - 100 \<le> 100 * b" "100 * b \<le> y - 1" "y - 400 \<le> 400 * c" "400 * c \<le> y - 1"
    using div_bounds [of 4 "y - 1"] div_bounds [of 100 "y - 1"] div_bounds [of 400 "y - 1"]
    by (simp_all add: a_def b_def c_def)
  moreover have "days_before_year y = 365 * (y - 1) + a - b + c"
    by (simp add: days_before_year_def a_def b_def c_def Let_def)
  ultimately show "146097 * (y - 1) - 699 \<le> 400 * days_before_year y"
    "400 * days_before_year y \<le> 146097 * (y - 1) + 396" by (simp_all add: algebra_simps)
qed

lemma year_of_bounds: "days_before_year (year_of n) < n \<and> n \<le> days_before_year (year_of n + 1)"
proof -
  define y where "y = 400 * (n - 1) div 146097 + 1"
  have y: "146097 * (y - 1) \<le> 400 * (n - 1)" "400 * (n - 1) < 146097 * y"
    using div_bounds [of 146097 "400 * (n - 1)"] by (auto simp: y_def)
  have "146097 * (y + 1) - 699 \<le> 400 * days_before_year (y + 1 + 1)"
    using days_before_year_bounds(1) [of "y + 1 + 1"] by simp
  then have "n \<le> days_before_year (y + 1 + 1)" using y by simp
  moreover have "400 * days_before_year (y - 1) \<le> 146097 * (y - 2) + 396"
    using days_before_year_bounds(2) [of "y - 1"] by simp
  then have "days_before_year (y - 1) < n" using y by simp
  moreover have "year_of n =
      (if days_before_year (y + 1) < n then y + 1 else if days_before_year y < n then y else y - 1)"
    unfolding year_of_def y_def Let_def ..
  ultimately show ?thesis by auto
qed

lemma month_cases:
  assumes "1 \<le> m" "m \<le> (12 :: int)"
  obtains "m = 1" | "m = 2" | "m = 3" | "m = 4" | "m = 5" | "m = 6" | "m = 7" | "m = 8" | "m = 9"
    | "m = 10" | "m = 11" | "m = 12"
  using assms by atomize_elim presburger

lemma days_in_month_pos: "1 \<le> m \<Longrightarrow> m \<le> 12 \<Longrightarrow> 28 \<le> days_in_month y m \<and> days_in_month y m \<le> 31"
  by (erule (1) month_cases) (simp_all add: days_in_month_def days_before_month_def)

lemma days_before_month_1 [simp]: "days_before_month y 1 = 0"
  by (simp add: days_before_month_def)

lemma days_before_month_13: "days_before_month y 13 = (if is_leap y then 366 else 365)"
  by (simp add: days_before_month_def)

lemma last_month_bounds:
  assumes "0 < r" "r \<le> days_before_month y (int k + 1)" "0 < k"
  shows "1 \<le> last_month y r k \<and> last_month y r k \<le> k \<and>
     days_before_month y (int (last_month y r k)) < r \<and> r \<le> days_before_month y (int (last_month y r k) + 1)"
  using assms
proof (induction k)
  case (Suc k)
  show ?case
  proof (cases "k = 0 \<or> days_before_month y (int (Suc k)) < r")
    case True
    then show ?thesis using Suc.prems by auto
  next
    case False
    then have "r \<le> days_before_month y (int k + 1)" by (simp add: add.commute)
    then show ?thesis using Suc False by auto
  qed
qed simp

lemma month_of_bounds:
  assumes "0 < r" "r \<le> days_before_month y 13"
  shows "1 \<le> month_of y r \<and> month_of y r \<le> 12 \<and>
     days_before_month y (month_of y r) < r \<and> r \<le> days_before_month y (month_of y r + 1)"
  using last_month_bounds [of r y 12] assms by (simp add: month_of_def)

text \<open>Every ordinal is the ordinal of its date, and the date is one of the calendar.\<close>

lemma civil_correct:
  assumes "civil n = (y, m, d)"
  shows "ordinal (y, m, d) = n" "1 \<le> m" "m \<le> 12" "1 \<le> d" "d \<le> days_in_month y m"
proof -
  let ?r = "n - days_before_year (year_of n)"
  have r: "0 < ?r" "?r \<le> days_before_month (year_of n) 13"
    using year_of_bounds [of n] year_length [of "year_of n"] by (auto simp: days_before_month_13)
  have *: "y = year_of n" "m = month_of y ?r" "d = ?r - days_before_month y m"
    using assms by (auto simp: civil_def Let_def)
  show "ordinal (y, m, d) = n" "1 \<le> m" "m \<le> 12" "1 \<le> d" "d \<le> days_in_month y m"
    using month_of_bounds [OF r] * by (auto simp: ordinal_def days_in_month_def)
qed

section \<open>Months in a row\<close>

text \<open>The first day of the month with this index, counted from the year 0.\<close>

definition month_start :: "int \<Rightarrow> int" where
  "month_start i = ordinal (i div 12, i mod 12 + 1, 1)"

lemma month_length: "28 \<le> days_in_month y (i mod 12 + 1)"
proof -
  have "i mod 12 < 12" "0 \<le> i mod 12" by auto
  then show ?thesis using days_in_month_pos [of "i mod 12 + 1" y] by simp
qed

lemma month_start_Suc: "month_start (i + 1) = month_start i + days_in_month (i div 12) (i mod 12 + 1)"
proof (cases "i mod 12 = 11")
  case True
  have m: "(i + 1) mod 12 = 0" using True mod_add_left_eq [of i 12 1] by simp
  have "(i + 1) div 12 = i div 12 + 1" using m by (intro div_next) auto
  with m have a: "month_start (i + 1) = days_before_year (i div 12 + 1) + 1"
    by (simp add: month_start_def ordinal_def)
  have b: "month_start i = days_before_year (i div 12) + days_before_month (i div 12) 12 + 1"
    using True by (simp add: month_start_def ordinal_def)
  have c: "days_in_month (i div 12) (i mod 12 + 1) = days_before_month (i div 12) 13 - days_before_month (i div 12) 12"
    using True by (simp add: days_in_month_def)
  show ?thesis unfolding a b c year_length days_before_month_13 by simp
next
  case False
  have r: "0 \<le> i mod 12" "i mod 12 < 12" by simp_all
  then have "i mod 12 + 1 < 12" using False by linarith
  then have m: "(i + 1) mod 12 = i mod 12 + 1"
    using r by (metis mod_add_left_eq mod_pos_pos_trivial add_increasing2 zero_le_one)
  have "0 \<le> i mod 12" by simp
  then have "(i + 1) mod 12 \<noteq> 0" unfolding m by linarith
  then have d: "(i + 1) div 12 = i div 12" by (rule div_same [rotated]) simp
  show ?thesis unfolding month_start_def ordinal_def days_in_month_def m d by simp
qed

lemma month_start_less: "i < j \<Longrightarrow> month_start i + 28 \<le> month_start j"
proof (induction j rule: int_gr_induct [where k = i])
  case base
  then show ?case
    using month_start_Suc [of i] month_length [of "i div 12" i] by linarith
next
  case (step j)
  then show ?case
    using month_start_Suc [of j] month_length [of "j div 12" j] by linarith
qed

lemma month_start_day:
  assumes "i < j" "1 \<le> d" "d \<le> days_in_month (i div 12) (i mod 12 + 1)" "1 \<le> d'"
  shows "month_start i + d - 1 < month_start j + d' - 1"
proof -
  have "month_start (i + 1) \<le> month_start j"
    using assms(1) month_start_less [of "i + 1" j] by (cases "i + 1 = j") auto
  then show ?thesis using month_start_Suc [of i] assms by linarith
qed

end
