(* ===== verification/Cadence.thy ===== *)
theory Cadence
  imports Calendar
begin

text \<open>
  When an operation is next due (\<open>core/cadence.py\<close>). The guess of the first step is exact
  here, where Python's is a float; the lemmas show that the slot does not depend on it. The
  walk up is a partial function: that it ends is a theorem.
\<close>

datatype cadence_mode = MIN_MODE | INTERVAL

record cadence =
  cad_mode :: cadence_mode
  cad_interval_days :: "int option"
  cad_interval_months :: "int option"
  cad_anchor :: "datetime option"

definition offset_seconds :: "uuid \<Rightarrow> int \<Rightarrow> int result" where
  "offset_seconds user span_seconds =
     (if span_seconds = 0 then Inl ZeroDivisionError
      else Inr (uint (crc32 (bytes_of user)) mod span_seconds))"

definition every :: "uuid \<Rightarrow> datetime \<Rightarrow> timedelta \<Rightarrow> datetime result" where
  "every user now interval =
     (let step = whole_seconds interval in
      rbind (offset_seconds user step) (\<lambda>offset.
        let elapsed = whole_seconds now - offset
        in Inr (((elapsed div step + 1) * step + offset) * SECOND)))"

text \<open>The last instant a datetime can hold is before the year 10000.\<close>

definition END_OF_TIME :: datetime where
  "END_OF_TIME = (ordinal (10000, 1, 1) - EPOCH_ORDINAL) * DAY"

definition plus :: "datetime \<Rightarrow> timedelta \<Rightarrow> datetime result" where
  "plus t d = (if t + d < END_OF_TIME then Inr (t + d) else Inl OverflowError)"

text \<open>The date and the time of day of a datetime.\<close>

definition date_of :: "datetime \<Rightarrow> int \<times> int \<times> int" where
  "date_of t = civil (t div DAY + EPOCH_ORDINAL)"

definition shifted_date :: "datetime \<Rightarrow> int \<Rightarrow> int \<times> int \<times> int" where
  "shifted_date moment months =
     (case date_of moment of (y, m, d) \<Rightarrow>
        let index = m - 1 + months; year = y + index div 12; month = index mod 12 + 1
        in (year, month, min d (days_in_month year month)))"

definition add_months :: "datetime \<Rightarrow> int \<Rightarrow> datetime result" where
  "add_months moment months =
     (case shifted_date moment months of (year, month, day) \<Rightarrow>
        if 9999 < year then Inl (ValueError ''year is out of range'')
        else Inr ((ordinal (year, month, day) - EPOCH_ORDINAL) * DAY + moment mod DAY))"

definition occurrence :: "datetime \<Rightarrow> int \<Rightarrow> int \<Rightarrow> int \<Rightarrow> datetime result" where
  "occurrence anchor k months days = rbind (add_months anchor (k * months)) (\<lambda>t. plus t (k * days * DAY))"

text \<open>\<open>_occurrence(anchor, k, months, days) + shift\<close>.\<close>

definition slot :: "datetime \<Rightarrow> int \<Rightarrow> int \<Rightarrow> timedelta \<Rightarrow> int \<Rightarrow> datetime result" where
  "slot anchor months days shift k = rbind (occurrence anchor k months days) (\<lambda>t. plus t shift)"

text \<open>The two loops: down to a step not after now, then up to the first one after it.\<close>

fun walk_down :: "(int \<Rightarrow> datetime result) \<Rightarrow> datetime \<Rightarrow> nat \<Rightarrow> int result" where
  "walk_down step_at now 0 = Inr 0"
| "walk_down step_at now (Suc k) =
     rbind (step_at (int (Suc k))) (\<lambda>t. if now < t then walk_down step_at now k else Inr (int (Suc k)))"

partial_function (option) walk_up :: "(int \<Rightarrow> datetime result) \<Rightarrow> datetime \<Rightarrow> int \<Rightarrow> int result option" where
  "walk_up step_at now k =
     (case step_at k of
        Inl e \<Rightarrow> Some (Inl e)
      | Inr t \<Rightarrow> if t \<le> now then walk_up step_at now (k + 1) else Some (Inr k))"

definition MEAN_MONTH :: timedelta where
  "MEAN_MONTH = 2629746 * SECOND"

definition first_guess :: "datetime \<Rightarrow> int \<Rightarrow> int \<Rightarrow> datetime \<Rightarrow> nat" where
  "first_guess anchor months days now = nat ((now - anchor) div (days * DAY + months * MEAN_MONTH))"

definition anchored_from ::
  "(int \<Rightarrow> datetime result) \<Rightarrow> datetime \<Rightarrow> nat \<Rightarrow> datetime result option" where
  "anchored_from step_at now guess =
     (case walk_down step_at now guess of
        Inl e \<Rightarrow> Some (Inl e)
      | Inr k \<Rightarrow> map_option (\<lambda>r. rbind r step_at) (walk_up step_at now k))"

definition anchored :: "cadence \<Rightarrow> uuid \<Rightarrow> datetime \<Rightarrow> timedelta \<Rightarrow> datetime result option" where
  "anchored c user now window =
     (let days = (case cad_interval_days c of None \<Rightarrow> 0 | Some n \<Rightarrow> n);
          months = (case cad_interval_months c of None \<Rightarrow> 0 | Some n \<Rightarrow> n)
      in case cad_anchor c of
           None \<Rightarrow> Some (Inl (ValueError ''an INTERVAL cadence needs a length and an anchor''))
         | Some anchor \<Rightarrow>
             if days + months = 0 then Some (Inl (ValueError ''an INTERVAL cadence needs a length and an anchor''))
             else if days < 0 \<or> months < 0
             then Some (Inl (ValueError ''an INTERVAL cadence cannot have a negative length''))
             else (case offset_seconds user (whole_seconds window) of
                     Inl e \<Rightarrow> Some (Inl e)
                   | Inr offset \<Rightarrow>
                       anchored_from (slot anchor months days (offset * SECOND)) now
                         (first_guess anchor months days now)))"

definition next_slot ::
  "cadence \<Rightarrow> uuid \<Rightarrow> datetime \<Rightarrow> timedelta \<Rightarrow> timedelta \<Rightarrow> datetime result option" where
  "next_slot c user now min_interval window =
     (if cad_mode c = MIN_MODE then Some (every user now min_interval) else anchored c user now window)"

section \<open>The steps of an anchored cadence\<close>

text \<open>The step without the end of time.\<close>

definition raw_slot :: "datetime \<Rightarrow> int \<Rightarrow> int \<Rightarrow> timedelta \<Rightarrow> int \<Rightarrow> datetime" where
  "raw_slot anchor months days shift k =
     (ordinal (shifted_date anchor (k * months)) - EPOCH_ORDINAL) * DAY + anchor mod DAY + k * days * DAY + shift"

lemma slot_Inr: "slot a m d s k = Inr t \<Longrightarrow> t = raw_slot a m d s k"
  by (auto simp: slot_def occurrence_def add_months_def plus_def raw_slot_def result_simps
      split: prod.splits if_splits)

lemma shifted_ordinal_less:
  assumes "i < j"
  shows "ordinal (shifted_date a i) < ordinal (shifted_date a j)"
proof -
  obtain y m d where c: "civil (a div DAY + EPOCH_ORDINAL) = (y, m, d)" by (metis prod_cases3)
  note cc = civil_correct [OF c]
  have form: "ordinal (shifted_date a n) =
      month_start (12 * y + m - 1 + n) + min d (days_in_month ((12 * y + m - 1 + n) div 12) ((12 * y + m - 1 + n) mod 12 + 1)) - 1" for n
  proof -
    have "12 * y + m - 1 + n = (m - 1 + n) + 12 * y" by simp
    then have "(12 * y + m - 1 + n) div 12 = y + (m - 1 + n) div 12" "(12 * y + m - 1 + n) mod 12 = (m - 1 + n) mod 12"
      by (simp_all only: div_mult_self2 mod_mult_self2)
    then show ?thesis
      by (simp add: shifted_date_def date_of_def c Let_def month_start_def ordinal_def)
  qed
  have "1 \<le> min d (days_in_month ((12 * y + m - 1 + n) div 12) ((12 * y + m - 1 + n) mod 12 + 1))" for n
    using month_length [of "(12 * y + m - 1 + n) div 12" "12 * y + m - 1 + n"] cc(4) by simp
  then show ?thesis unfolding form
    by (intro month_start_day) (use assms in auto)
qed

lemma raw_slot_less:
  assumes "0 \<le> months" "0 \<le> days" "days + months \<noteq> 0" "i < j"
  shows "raw_slot a months days s i < raw_slot a months days s j"
proof -
  have D: "0 < DAY" by (simp add: DAY_def)
  have m: "ordinal (shifted_date a (i * months)) \<le> ordinal (shifted_date a (j * months))"
  proof (cases "months = 0")
    case False
    then have "i * months < j * months" using assms by simp
    then show ?thesis using shifted_ordinal_less by (simp add: less_imp_le)
  qed simp
  show ?thesis
  proof (cases "days = 0")
    case True
    then have "i * months < j * months" using assms by simp
    then have "ordinal (shifted_date a (i * months)) < ordinal (shifted_date a (j * months))"
      by (rule shifted_ordinal_less)
    then show ?thesis using D True by (simp add: raw_slot_def)
  next
    case False
    then have "i * days * DAY < j * days * DAY" using D assms by simp
    moreover have "(ordinal (shifted_date a (i * months)) - EPOCH_ORDINAL) * DAY
        \<le> (ordinal (shifted_date a (j * months)) - EPOCH_ORDINAL) * DAY"
      using m D by (intro mult_right_mono) auto
    ultimately show ?thesis by (simp add: raw_slot_def)
  qed
qed

lemma raw_slot_grows:
  assumes "0 \<le> months" "0 \<le> days" "days + months \<noteq> 0"
  shows "raw_slot a months days s k + int n \<le> raw_slot a months days s (k + int n)"
proof (induction n)
  case (Suc n)
  have "raw_slot a months days s (k + int n) < raw_slot a months days s (k + int (Suc n))"
    using assms by (intro raw_slot_less) auto
  then show ?case using Suc by simp
qed simp

section \<open>The walk\<close>

lemma walk_down_Inr:
  assumes "walk_down step_at now g = Inr k"
  shows "0 \<le> k \<and> (k = 0 \<or> (\<exists>t. step_at k = Inr t \<and> t \<le> now))"
  using assms by (induction g) (auto simp: result_simps not_less split: if_splits)

text \<open>Up from any step, the loop ends, because every step is later than the one before.\<close>

lemma walk_up_ends:
  assumes "\<And>k t. step_at k = Inr t \<Longrightarrow> t = f k" "\<And>k n. f k + int n \<le> f (k + int n)"
  shows "\<exists>r. walk_up step_at now k = Some r \<and>
     (case r of
        Inl e \<Rightarrow> \<exists>j \<ge> k. step_at j = Inl e \<and> (\<forall>i. k \<le> i \<and> i < j \<longrightarrow> f i \<le> now)
      | Inr j \<Rightarrow> k \<le> j \<and> (\<exists>t. step_at j = Inr t \<and> now < t) \<and> (\<forall>i. k \<le> i \<and> i < j \<longrightarrow> f i \<le> now))"
proof (induction "nat (now + 1 - f k)" arbitrary: k rule: less_induct)
  case less
  show ?case
  proof (cases "step_at k")
    case (Inl e)
    then show ?thesis by (subst walk_up.simps) (auto intro!: exI [of _ k])
  next
    case (Inr t)
    then have t: "t = f k" using assms(1) by blast
    show ?thesis
    proof (cases "t \<le> now")
      case False
      then show ?thesis using Inr by (subst walk_up.simps) auto
    next
      case True
      have "f k + 1 \<le> f (k + 1)" using assms(2) [of k 1] by simp
      then have "nat (now + 1 - f (k + 1)) < nat (now + 1 - f k)" using True t by linarith
      from less [OF this] obtain r where r: "walk_up step_at now (k + 1) = Some r"
        "case r of
           Inl e \<Rightarrow> \<exists>j \<ge> k + 1. step_at j = Inl e \<and> (\<forall>i. k + 1 \<le> i \<and> i < j \<longrightarrow> f i \<le> now)
         | Inr j \<Rightarrow> k + 1 \<le> j \<and> (\<exists>t. step_at j = Inr t \<and> now < t) \<and> (\<forall>i. k + 1 \<le> i \<and> i < j \<longrightarrow> f i \<le> now)"
        by blast
      have ext: "(\<forall>i. k + 1 \<le> i \<and> i < j \<longrightarrow> f i \<le> now) \<Longrightarrow> (\<forall>i. k \<le> i \<and> i < j \<longrightarrow> f i \<le> now)" for j
        using True t by (metis zle_add1_eq_le add.commute le_less zless_imp_add1_zle)
      have "walk_up step_at now k = Some r" using Inr True r(1) by (subst walk_up.simps) simp
      moreover have "case r of
           Inl e \<Rightarrow> \<exists>j \<ge> k. step_at j = Inl e \<and> (\<forall>i. k \<le> i \<and> i < j \<longrightarrow> f i \<le> now)
         | Inr j \<Rightarrow> k \<le> j \<and> (\<exists>t. step_at j = Inr t \<and> now < t) \<and> (\<forall>i. k \<le> i \<and> i < j \<longrightarrow> f i \<le> now)"
      proof (cases r)
        case (Inl e)
        then obtain j where "k + 1 \<le> j" "step_at j = Inl e" "\<forall>i. k + 1 \<le> i \<and> i < j \<longrightarrow> f i \<le> now" using r(2) by auto
        then show ?thesis using Inl ext [of j] by (auto intro!: exI [of _ j])
      next
        case (Inr j)
        then show ?thesis using r(2) ext [of j] by auto
      qed
      ultimately show ?thesis by blast
    qed
  qed
qed

lemma anchored_from_spec:
  assumes "0 \<le> months" "0 \<le> days" "days + months \<noteq> 0"
  shows "\<exists>r. anchored_from (slot a months days s) now g = Some r \<and>
     (\<forall>t. r = Inr t \<longrightarrow> (\<exists>k \<ge> 0. t = raw_slot a months days s k \<and> now < t \<and>
        (\<forall>i. 0 \<le> i \<and> i < k \<longrightarrow> raw_slot a months days s i \<le> now)))"
proof -
  let ?sl = "slot a months days s" and ?f = "raw_slot a months days s"
  have step_at: "?sl k = Inr t \<Longrightarrow> t = ?f k" for k t by (rule slot_Inr)
  have grows: "?f k + int n \<le> ?f (k + int n)" for k n using raw_slot_grows [OF assms] .
  show ?thesis
  proof (cases "walk_down ?sl now g")
    case (Inl e)
    then show ?thesis by (simp add: anchored_from_def)
  next
    case (Inr k)
    note down = walk_down_Inr [OF Inr]
    obtain r where r: "walk_up ?sl now k = Some r"
      "case r of
           Inl e \<Rightarrow> \<exists>j \<ge> k. ?sl j = Inl e \<and> (\<forall>i. k \<le> i \<and> i < j \<longrightarrow> ?f i \<le> now)
         | Inr j \<Rightarrow> k \<le> j \<and> (\<exists>t. ?sl j = Inr t \<and> now < t) \<and> (\<forall>i. k \<le> i \<and> i < j \<longrightarrow> ?f i \<le> now)"
      using walk_up_ends [of ?sl ?f now k, OF step_at grows] by blast
    have "anchored_from ?sl now g = Some (rbind r ?sl)" by (simp add: anchored_from_def Inr r(1))
    moreover have "\<exists>j \<ge> 0. t = ?f j \<and> now < t \<and> (\<forall>i. 0 \<le> i \<and> i < j \<longrightarrow> ?f i \<le> now)" if eq: "rbind r ?sl = Inr t" for t
    proof -
      obtain j where j: "r = Inr j" "?sl j = Inr t" using eq by (cases r) auto
      have kj: "k \<le> j" "now < t" "\<forall>i. k \<le> i \<and> i < j \<longrightarrow> ?f i \<le> now" using r(2) j by auto
      have "?f i \<le> now" if "0 \<le> i" "i < k" for i
      proof -
        have "k \<noteq> 0" using that by simp
        then have "?f k \<le> now" using down step_at by blast
        then show ?thesis using raw_slot_less [OF assms, of i k a s] that by simp
      qed
      then have "\<forall>i. 0 \<le> i \<and> i < j \<longrightarrow> ?f i \<le> now" using kj(3) by (meson linorder_not_le)
      then show ?thesis using kj down step_at [OF j(2)] by (intro exI [of _ j]) auto
    qed
    ultimately show ?thesis by blast
  qed
qed

section \<open>Properties\<close>

lemma every_spec:
  assumes "every user now interval = Inr t" "0 \<le> now" "SECOND \<le> interval"
  shows "now < t \<and> t \<le> now + interval"
proof -
  define step where "step = whole_seconds interval"
  have S: "0 < SECOND" by (simp add: SECOND_def)
  have st: "0 < step" "step * SECOND \<le> interval"
    using assms(3) S div_bounds [OF S, of interval] pos_imp_zdiv_pos_iff [OF S, of interval]
    by (auto simp: step_def whole_seconds_def mult.commute)
  obtain off where off: "offset_seconds user step = Inr off"
    using st by (auto simp: offset_seconds_def)
  define s where "s = now div SECOND"
  have s: "s * SECOND \<le> now" "now < (s + 1) * SECOND"
    using div_bounds [OF S, of now] by (auto simp: s_def algebra_simps)
  define e where "e = s - off"
  have t: "t = ((e div step + 1) * step + off) * SECOND"
  proof -
    have "every user now interval = rbind (offset_seconds user step) (\<lambda>offset.
        Inr ((((whole_seconds now - offset) div step + 1) * step + offset) * SECOND))"
      unfolding every_def step_def Let_def ..
    moreover have "whole_seconds now = s" using assms(2) by (simp add: whole_seconds_def s_def)
    ultimately show ?thesis using assms(1) off by (simp add: e_def)
  qed
  have ee: "e < (e div step + 1) * step" "(e div step + 1) * step \<le> e + step"
    using div_bounds [OF st(1), of e] by (auto simp: algebra_simps)
  have "(s + 1) * SECOND \<le> t" unfolding t using ee(1) S by (intro mult_right_mono) (auto simp: e_def)
  moreover have "t \<le> (s + step) * SECOND" unfolding t using ee(2) S by (intro mult_right_mono) (auto simp: e_def)
  ultimately show ?thesis using s st(2) by (auto simp: distrib_right)
qed

lemma next_slot_total: "\<exists>r. next_slot c user now min_interval window = Some r"
proof (cases "cad_mode c = MIN_MODE")
  case False
  have walk: "\<exists>r. anchored_from (slot a months days s) now g = Some r"
    if "days + months \<noteq> 0" "\<not> days < 0" "\<not> months < 0" for a months days s g
    using anchored_from_spec [of months days a s now g] that by auto
  show ?thesis
    using False by (auto simp: next_slot_def anchored_def Let_def intro!: walk split: option.splits sum.splits)
qed (simp add: next_slot_def)

lemma next_slot_spec:
  assumes "next_slot c user now min_interval window = Some (Inr t)" "0 \<le> now" "SECOND \<le> min_interval"
  shows "now < t \<and>
    (if cad_mode c = MIN_MODE then t \<le> now + min_interval
     else \<exists>a months days shift k. cad_anchor c = Some a \<and> 0 \<le> k \<and> t = raw_slot a months days shift k \<and>
            (\<forall>i. 0 \<le> i \<and> i < k \<longrightarrow> raw_slot a months days shift i \<le> now))"
proof (cases "cad_mode c = MIN_MODE")
  case True
  then show ?thesis using assms every_spec by (simp add: next_slot_def)
next
  case False
  define days months where "days = (case cad_interval_days c of None \<Rightarrow> 0 | Some n \<Rightarrow> n)"
    and "months = (case cad_interval_months c of None \<Rightarrow> 0 | Some n \<Rightarrow> n)"
  obtain a off where a: "cad_anchor c = Some a" "\<not> days < 0" "\<not> months < 0" "days + months \<noteq> 0"
    and r: "anchored_from (slot a months days (off * SECOND)) now (first_guess a months days now) = Some (Inr t)"
    using assms(1) False
    by (auto simp: next_slot_def anchored_def Let_def days_def months_def split: option.splits sum.splits if_splits)
  then show ?thesis
    using anchored_from_spec [of months days a "off * SECOND" now "first_guess a months days now"] False
    by fastforce
qed

text \<open>
  C33: computing the next slot always returns, whatever the cadence, the user and the time: the
  walk along an anchored cadence ends, because a row with no length or a negative one is
  refused before it starts.
\<close>

theorem next_slot_returns: "\<exists>r. next_slot c user now min_interval window = Some r"
  by (rule next_slot_total)


text \<open>A monthly cadence anchored on the 31st of January 1970, seen from the 16th of April.\<close>

definition sample_cadence :: cadence where
  "sample_cadence =
     \<lparr>cad_mode = INTERVAL, cad_interval_days = None, cad_interval_months = Some 1, cad_anchor = Some (30 * DAY)\<rparr>"

lemma offset_range: "0 < w \<Longrightarrow> \<exists>n. offset_seconds user w = Inr n \<and> 0 \<le> n \<and> n < w"
  by (simp add: offset_seconds_def)

lemma sample_months:
  "add_months (30 * DAY) 2 = Inr (89 * DAY)" "add_months (30 * DAY) 3 = Inr (119 * DAY)"
  "END_OF_TIME = 2932897 * DAY"
  by code_simp+

lemma sample_slots:
  assumes "0 \<le> n" "n < 3600"
  shows "slot (30 * DAY) 1 0 (n * SECOND) 2 = Inr (89 * DAY + n * SECOND)"
    "slot (30 * DAY) 1 0 (n * SECOND) 3 = Inr (119 * DAY + n * SECOND)"
  using assms
  by (simp_all add: slot_def occurrence_def sample_months plus_def) (simp_all add: DAY_def SECOND_def)

lemma sample_next_slot:
  "\<exists>n. 0 \<le> n \<and> n < 3600 \<and>
     next_slot sample_cadence user (105 * DAY) (900 * SECOND) (3600 * SECOND) = Some (Inr (119 * DAY + n * SECOND))"
proof -
  obtain n where n: "offset_seconds user 3600 = Inr n" "0 \<le> n" "n < 3600" using offset_range [of 3600 user] by auto
  have w: "whole_seconds (3600 * SECOND) = 3600" "first_guess (30 * DAY) 1 0 (105 * DAY) = Suc (Suc 0)"
    by code_simp+
  have before: "\<not> 105 * DAY < 89 * DAY + n * SECOND" "89 * DAY + n * SECOND \<le> 105 * DAY"
      "\<not> 119 * DAY + n * SECOND \<le> 105 * DAY"
    using n by (auto simp: DAY_def SECOND_def)
  have up: "walk_up (slot (30 * DAY) 1 0 (n * SECOND)) (105 * DAY) 2 = Some (Inr 3)"
    by (subst walk_up.simps, subst walk_up.simps) (simp add: sample_slots [OF n(2,3)] before)
  have "anchored_from (slot (30 * DAY) 1 0 (n * SECOND)) (105 * DAY) (Suc (Suc 0)) = Some (Inr (119 * DAY + n * SECOND))"
    by (simp add: anchored_from_def sample_slots [OF n(2,3)] before up)
  then show ?thesis
    using n w by (auto simp: next_slot_def anchored_def sample_cadence_def)
qed


end
