(* ===== verification/Exchange_Types.thy ===== *)
theory Exchange_Types
  imports Py_Decimal
begin

text \<open>
  The vocabulary of the exchange boundary (\<open>exchange/types.py\<close>), and the rounding of a
  number to the precision of its pair (\<open>exchange/precision.py\<close>). The text of a decimal is
  in the theory of the portfolio; here a decimal is its value.
\<close>

section \<open>exchange/types.py\<close>

record credentials =
  api_key :: string
  api_secret :: string

record pair_meta =
  pm_pair :: string
  altname :: string
  base :: string
  quote :: string
  price_decimals :: int
  volume_decimals :: int
  order_min :: dec
  cost_min :: dec
  pm_status :: string
  cost_decimals :: int

definition tradable :: "pair_meta \<Rightarrow> bool" where
  "tradable m \<longleftrightarrow> pm_status m = ''online''"

datatype exchange_order_status = CANCELED | CLOSED | NOT_FOUND | OPEN | PENDING_AT_KRAKEN | UNKNOWN_STATUS

record order_lookup =
  lk_txid :: "string option"
  lk_status :: "exchange_order_status option"
  lk_volume :: dec
  lk_volume_executed :: dec
  lk_price :: dec
  lk_fee :: dec
  lk_cost :: dec

datatype key_rejection = FORBIDDEN_PERMISSIONS | INVALID_KEY | LOCKED_OUT | MISSING_PERMISSIONS | UNREACHABLE

record key_validation =
  kv_accepted :: bool
  kv_rejection :: "key_rejection option"
  kv_permissions :: "string list"
  kv_missing :: "string list"
  kv_forbidden :: "string list"
  kv_ip_allowlist :: "string list"
  kv_unnecessary :: "string list"

datatype placement_outcome = SENT | VALIDATED | REFUSED | UNKNOWN

record placement =
  pl_outcome :: placement_outcome
  pl_txid :: "string option"
  pl_error :: "string option"

section \<open>exchange/precision.py\<close>

text \<open>\<open>_quantum(places)\<close> is \<open>ten (- places)\<close>; \<open>quantize\<close> takes the places themselves.\<close>

definition round_price :: "pair_meta \<Rightarrow> dec \<Rightarrow> dec result" where
  "round_price meta price = quantize ROUND_HALF_UP (price_decimals meta) price"

definition round_volume :: "pair_meta \<Rightarrow> dec \<Rightarrow> dec result" where
  "round_volume meta volume = quantize ROUND_DOWN (volume_decimals meta) volume"

definition volume_from_fiat :: "pair_meta \<Rightarrow> dec \<Rightarrow> dec \<Rightarrow> dec result" where
  "volume_from_fiat meta amount_fiat price =
     (if price \<le> 0 then Inl (ValueError ''cannot size an order at this price'')
      else rbind (ddiv amount_fiat price) (round_volume meta))"

definition is_orderable :: "pair_meta \<Rightarrow> dec \<Rightarrow> dec \<Rightarrow> bool" where
  "is_orderable meta volume cost \<longleftrightarrow> order_min meta \<le> volume \<and> cost_min meta \<le> cost"

definition round_cost :: "pair_meta \<Rightarrow> dec \<Rightarrow> dec result" where
  "round_cost meta amount = quantize ROUND_DOWN (cost_decimals meta) amount"

definition minimum_fiat :: "pair_meta \<Rightarrow> dec \<Rightarrow> dec" where
  "minimum_fiat meta price = max (cost_min meta) (dmul (order_min meta) price)"

definition credited :: "dec \<Rightarrow> dec \<Rightarrow> int \<Rightarrow> dec result" where
  "credited cost fee places =
     rbind (quantize ROUND_DOWN places cost) (\<lambda>c.
     rbind (quantize ROUND_UP places fee) (\<lambda>f. Inr (dsub c f)))"

section \<open>Bounds\<close>

lemma round_volume_bounds:
  assumes "round_volume m x = Inr y" "0 \<le> x"
  shows "0 \<le> y" "y \<le> x" "x < y + ten (- volume_decimals m)"
  using quantize_down_bounds assms by (auto simp: round_volume_def)

lemma round_cost_bounds:
  assumes "round_cost m x = Inr y" "0 \<le> x"
  shows "0 \<le> y" "y \<le> x" "x < y + ten (- cost_decimals m)"
  using quantize_down_bounds assms by (auto simp: round_cost_def)

text \<open>Sample pair: Bitcoin against the euro, as Kraken lists it.\<close>

definition sample_meta :: pair_meta where
  "sample_meta =
     \<lparr>pm_pair = ''XXBTZEUR'', altname = ''XBTEUR'', base = ''XXBT'', quote = ''ZEUR'',
      price_decimals = 1, volume_decimals = 8, order_min = 5 / 100000, cost_min = 1 / 2,
      pm_status = ''online'', cost_decimals = 5\<rparr>"

text \<open>
  The volume sized from an amount of fiat never costs more than the amount at the price it
  was sized from, up to the last digit of the division, and is short of it by less than one
  unit of the pair's volume: nothing more is asked for than was allocated.
\<close>

theorem volume_from_fiat_bounds:
  assumes "volume_from_fiat m amount price = Inr v" "0 \<le> amount"
  shows "0 \<le> v \<and> v * price \<le> amount * (1 + dec_ulp) \<and>
     amount * (1 - dec_ulp) < (v + ten (- volume_decimals m)) * price"
proof -
  have p: "0 < price" and r: "round_volume m (dec_round (amount / price)) = Inr v"
    using assms(1) by (auto simp: volume_from_fiat_def split: if_splits)
  have nn: "0 \<le> amount / price" using p assms(2) by simp
  note b = round_volume_bounds [OF r dec.nonneg [OF nn]]
  have "v \<le> amount / price * (1 + dec_ulp)" using b(2) dec.above [OF nn] by linarith
  then have hi: "v * price \<le> amount / price * (1 + dec_ulp) * price" using p by (intro mult_right_mono) auto
  have "amount / price * (1 - dec_ulp) < v + ten (- volume_decimals m)"
    using b(3) dec.below [OF nn] by linarith
  then have "amount / price * (1 - dec_ulp) * price < (v + ten (- volume_decimals m)) * price"
    using p by (intro mult_strict_right_mono) auto
  then show ?thesis using b(1) hi p by simp
qed

lemma sample_volume: "volume_from_fiat sample_meta 100 30000 = Inr (333333 / 100000000)"
  by code_simp

theorem volume_from_fiat_bounds_witness:
  "volume_from_fiat sample_meta 100 30000 = Inr (333333 / 100000000) \<and>
   333333 / 100000000 * 30000 \<le> 100 * (1 + dec_ulp)"
  using volume_from_fiat_bounds [OF sample_volume] sample_volume by simp

text \<open>
  What a sell is counted as adding to the balance is never more than the cost less the fee
  it reported, and is below it by less than two units of the ledger's last place, so a
  budget of credited sells is never more than the balance.
\<close>

theorem credited_bounds:
  assumes "credited cost fee places = Inr x" "0 \<le> cost" "0 \<le> fee"
  shows "x \<le> cost - fee \<and> cost - fee < x + 2 * ten (- places)"
proof -
  obtain c f where c: "quantize ROUND_DOWN places cost = Inr c" and f: "quantize ROUND_UP places fee = Inr f"
    and x: "x = dsub c f"
    using assms(1) by (auto simp: credited_def result_simps)
  note cb = quantize_down_bounds [OF c assms(2)] and fb = quantize_up_bounds [OF f assms(3)]
  have range: "\<bar>c\<bar> * ten places \<le> 10 ^ 28" "\<bar>f\<bar> * ten places \<le> 10 ^ 28"
    using quantize_range [OF c] quantize_range [OF f] by auto
  have "\<bar>c - f\<bar> \<le> max \<bar>c\<bar> \<bar>f\<bar>" using cb(1) fb(1) assms(3) by linarith
  then have "\<bar>c - f\<bar> * ten places \<le> max \<bar>c\<bar> \<bar>f\<bar> * ten places" by (intro mult_right_mono) auto
  also have "\<dots> \<le> 10 ^ 28" using range by (simp add: max_def)
  finally have "dsub c f = c - f"
    unfolding dsub_def using quantize_on_grid [OF c] quantize_on_grid [OF f]
    by (intro on_grid_fits [where k = places] on_grid_diff) auto
  then show ?thesis using cb fb x by linarith
qed

lemma sample_credit: "credited (1493414 / 100000) (11947 / 100000) 4 = Inr (148146 / 10000)"
  by code_simp

theorem credited_bounds_witness:
  "credited (1493414 / 100000) (11947 / 100000) 4 = Inr (148146 / 10000) \<and>
   148146 / 10000 \<le> 1493414 / 100000 - (11947 / 100000 :: dec)"
  using credited_bounds [OF sample_credit] sample_credit by simp

end
