(* ===== verification/Decimal_Text.thy ===== *)
theory Decimal_Text
  imports Py_Decimal
begin

text \<open>
  The text of a decimal where the platform fixes it: \<open>plain_amount\<close> of
  \<open>core/portfolio.py\<close>, with no padding and no exponent, and the constructor
  \<open>Decimal(text)\<close> that reads it back. A proposal's amounts are kept as these texts, and a
  material change is judged on what they read back as.
\<close>

section \<open>Natural numbers in decimal\<close>

definition digit_char :: "nat \<Rightarrow> char" where
  "digit_char n = char_of (48 + n)"

definition is_digit :: "char \<Rightarrow> bool" where
  "is_digit c \<longleftrightarrow> 48 \<le> (of_char c :: nat) \<and> (of_char c :: nat) < 58"

function string_of_nat :: "nat \<Rightarrow> string" where
  "string_of_nat n =
     (if n < 10 then [digit_char n] else string_of_nat (n div 10) @ [digit_char (n mod 10)])"
  by pat_completeness auto
termination
  by (relation "measure id") auto

declare string_of_nat.simps [simp del]

definition nat_of_digits :: "string \<Rightarrow> nat" where
  "nat_of_digits s = foldl (\<lambda>n c. 10 * n + (of_char c - 48)) 0 s"

lemma of_char_digit: "n < 10 \<Longrightarrow> (of_char (digit_char n) :: nat) = 48 + n"
  by (simp add: digit_char_def)

lemma is_digit_char [simp]: "n < 10 \<Longrightarrow> is_digit (digit_char n)"
  by (simp add: is_digit_def of_char_digit)

lemma string_of_nat_digits: "list_all is_digit (string_of_nat n)"
proof (induction n rule: string_of_nat.induct)
  case (1 n)
  then show ?case by (subst string_of_nat.simps) simp
qed

lemma string_of_nat_nonempty: "string_of_nat n \<noteq> []"
  by (subst string_of_nat.simps) simp

lemma nat_of_digits_append: "nat_of_digits (s @ [c]) = 10 * nat_of_digits s + (of_char c - 48)"
  by (simp add: nat_of_digits_def)

lemma nat_of_digits_string_of_nat [simp]: "nat_of_digits (string_of_nat n) = n"
proof (induction n rule: string_of_nat.induct)
  case (1 n)
  then show ?case
    by (subst string_of_nat.simps)
      (simp add: nat_of_digits_append of_char_digit, simp add: nat_of_digits_def of_char_digit)
qed

lemma nat_of_digits_zeros: "nat_of_digits (replicate k CHR ''0'' @ s) = nat_of_digits s"
  by (induction k) (simp_all add: nat_of_digits_def)

lemma not_digit [simp]: "\<not> is_digit CHR ''.''" "\<not> is_digit CHR ''-''"
  by (simp_all add: is_digit_def)

lemma is_digit_0 [simp]: "is_digit CHR ''0''"
  by (simp add: is_digit_def)

section \<open>The places of a decimal\<close>

text \<open>The fewest places that write a fraction of this denominator.\<close>

function den_places :: "int \<Rightarrow> nat" where
  "den_places d = (if d \<le> 1 \<or> gcd d 10 = 1 then 0 else Suc (den_places (d div gcd d 10)))"
  by pat_completeness auto
termination
proof (relation "measure nat")
  fix d :: int assume a: "\<not> (d \<le> 1 \<or> gcd d 10 = 1)"
  moreover have "0 < gcd d 10" by simp
  ultimately have "1 < gcd d 10" "0 < d" by linarith+
  then have "d div gcd d 10 < d" by (intro int_div_less_self)
  with \<open>0 < d\<close> show "(d div gcd d 10, d) \<in> measure nat" by simp
qed simp

declare den_places.simps [simp del]

definition places_of :: "dec \<Rightarrow> nat" where
  "places_of x = den_places (snd (quotient_of x))"

lemma den_places_dvd:
  assumes "0 < d" "d dvd 10 ^ n"
  shows "d dvd 10 ^ den_places d"
  using assms
proof (induction d rule: den_places.induct)
  case (1 d)
  consider "d \<le> 1" | "1 < d" "gcd d 10 = 1" | "1 < d" "gcd d 10 \<noteq> 1" by linarith
  then show ?case
  proof cases
    case 1
    with "1.prems" have "d = 1" by linarith
    then show ?thesis by simp
  next
    case 2
    have "coprime d 10" using 2(2) by (simp add: coprime_iff_gcd_eq_1)
    then have "coprime d (10 ^ n)" by simp
    then have "is_unit d" using "1.prems"(2) by (metis coprime_absorb_left)
    with 2 show ?thesis by simp
  next
    case 3
    let ?g = "gcd d 10"
    have g: "?g dvd d" "0 < ?g" "?g dvd 10" by simp_all
    have "0 < d div ?g" using g "1.prems"(1) by (simp add: pos_imp_zdiv_pos_iff zdvd_imp_le)
    moreover have "d div ?g dvd 10 ^ n"
      using "1.prems"(2) g(1) by (metis dvd_div_mult_self dvd_mult_left)
    ultimately have "d div ?g dvd 10 ^ den_places (d div ?g)" using "1.IH" 3 by auto
    then have "?g * (d div ?g) dvd 10 * 10 ^ den_places (d div ?g)" using g(3) by (intro mult_dvd_mono)
    then have "d dvd 10 ^ Suc (den_places (d div ?g))" using g(1) by simp
    then show ?thesis using 3 by (subst den_places.simps) auto
  qed
qed

lemma places_of_int:
  assumes "dec_round x = x"
  shows "\<exists>c. x * 10 ^ places_of x = of_int c"
proof -
  obtain a d where q: "quotient_of x = (a, d)" by fastforce
  have x: "x = of_int a / of_int d" "0 < d" "coprime a d"
    using q quotient_of_div quotient_of_denom_pos quotient_of_coprime by blast+
  obtain c e where ce: "x = of_int c * ten e" using dec_round_form [of x] assms by metis
  define n where "n = nat (- e)"
  have "0 \<le> e + int n" by (simp add: n_def)
  then obtain m where m: "ten (e + int n) = of_int m" using ten_int by blast
  have "x * 10 ^ n = of_int (c * m)" by (simp add: ce m [symmetric] power_int_add)
  then have "of_int (a * 10 ^ n) = (of_int (c * m * d) :: rat)"
    using x(1,2) by (simp add: field_simps)
  then have "a * 10 ^ n = c * m * d" by (simp only: of_int_eq_iff)
  then have "d dvd a * 10 ^ n" by simp
  then have "d dvd 10 ^ n" using x(3) by (metis coprime_commute coprime_dvd_mult_right_iff)
  then obtain k where "10 ^ places_of x = d * k"
    using den_places_dvd [OF x(2)] by (auto simp: places_of_def q elim: dvdE)
  then have "(10 :: rat) ^ places_of x = of_int d * of_int k"
    by (metis of_int_mult of_int_numeral of_int_power)
  then have "x * 10 ^ places_of x = of_int (a * k)" using x(1,2) by simp
  then show ?thesis by blast
qed

section \<open>Writing and reading\<close>

definition pad_left :: "nat \<Rightarrow> string \<Rightarrow> string" where
  "pad_left k s = replicate (k - length s) CHR ''0'' @ s"

text \<open>\<open>format(value, "f")\<close> of a value with exactly \<open>k\<close> places.\<close>

definition format_places :: "nat \<Rightarrow> dec \<Rightarrow> string" where
  "format_places k y =
     (let digits = pad_left (Suc k) (string_of_nat (nat \<lfloor>\<bar>y\<bar> * 10 ^ k\<rfloor>));
          n = length digits - k
      in (if y < 0 then ''-'' else []) @
         (if k = 0 then digits else take n digits @ ''.'' @ drop n digits))"

text \<open>\<open>format_decimal(value.normalize())\<close>: \<open>normalize\<close> rounds to the context first.\<close>

definition plain_amount :: "dec \<Rightarrow> string" where
  "plain_amount value = (let y = dec_round value in format_places (places_of y) y)"

text \<open>
  \<open>Decimal(text)\<close> on plain numbers: a sign, digits, and one point at most. Exponents,
  spaces, underscores, infinities and NaN are read as invalid here.
\<close>

definition read_unsigned :: "string \<Rightarrow> dec option" where
  "read_unsigned s =
     (let whole = takeWhile (\<lambda>c. c \<noteq> CHR ''.'') s;
          fraction = drop (Suc (length whole)) s;
          digits = whole @ fraction
      in if digits \<noteq> [] \<and> list_all is_digit digits
         then Some (of_nat (nat_of_digits digits) / 10 ^ length fraction) else None)"

definition read_decimal :: "string \<Rightarrow> dec result" where
  "read_decimal s =
     (case (if take 1 s = ''-'' then map_option uminus (read_unsigned (drop 1 s)) else read_unsigned s) of
        None \<Rightarrow> Inl InvalidOperation
      | Some x \<Rightarrow> Inr x)"

lemma digits_no_point: "list_all is_digit s \<Longrightarrow> takeWhile (\<lambda>c. c \<noteq> CHR ''.'') (s @ t) = s @ takeWhile (\<lambda>c. c \<noteq> CHR ''.'') t"
  by (induction s) auto

lemma read_unsigned_digits:
  assumes "list_all is_digit d" "k < length d"
  shows "read_unsigned (if k = 0 then d else take (length d - k) d @ ''.'' @ drop (length d - k) d)
     = Some (of_nat (nat_of_digits d) / 10 ^ k)"
proof (cases "k = 0")
  case True
  have w: "takeWhile (\<lambda>c. c \<noteq> CHR ''.'') d = d" using digits_no_point [OF assms(1), of "[]"] by simp
  show ?thesis using True assms by (auto simp add: read_unsigned_def w Let_def)
next
  case False
  have t: "list_all is_digit (take (length d - k) d)"
    using assms(1) by (metis append_take_drop_id list_all_append)
  have "takeWhile (\<lambda>c. c \<noteq> CHR ''.'') (take (length d - k) d @ ''.'' @ drop (length d - k) d) = take (length d - k) d"
    by (subst digits_no_point [OF t]) simp
  moreover have "drop (Suc (length d - k)) (take (length d - k) d @ ''.'' @ drop (length d - k) d) = drop (length d - k) d"
    using assms(2) by simp
  moreover have "list_all is_digit (drop (length d - k) d)"
    using assms(1) by (metis append_take_drop_id list_all_append)
  ultimately show ?thesis using False assms t by (simp add: read_unsigned_def min_def Let_def)
qed

lemma format_places_digits:
  fixes y :: rat
  assumes "\<bar>y\<bar> * 10 ^ k = of_int c" and d: "d = pad_left (Suc k) (string_of_nat (nat \<lfloor>\<bar>y\<bar> * 10 ^ k\<rfloor>))"
  shows "list_all is_digit d" "k < length d" "of_nat (nat_of_digits d) / 10 ^ k = \<bar>y\<bar>"
proof -
  have c: "0 \<le> c"
    using assms(1) by (metis abs_ge_zero mult_nonneg_nonneg of_int_0_le_iff zero_le_numeral zero_le_power)
  show "list_all is_digit d"
    using string_of_nat_digits [of "nat \<lfloor>\<bar>y\<bar> * 10 ^ k\<rfloor>"] by (auto simp: d pad_left_def list_all_iff)
  show "k < length d" by (simp add: d pad_left_def)
  have "nat_of_digits d = nat c"
    by (simp add: d pad_left_def nat_of_digits_zeros assms(1))
  then have "(of_nat (nat_of_digits d) :: rat) = \<bar>y\<bar> * 10 ^ k" using c assms(1) by simp
  then show "of_nat (nat_of_digits d) / 10 ^ k = \<bar>y\<bar>" by simp
qed

lemma read_format_places:
  assumes "y * 10 ^ k = of_int c"
  shows "read_decimal (format_places k y) = Inr y"
proof -
  let ?d = "pad_left (Suc k) (string_of_nat (nat \<lfloor>\<bar>y\<bar> * 10 ^ k\<rfloor>))"
  let ?s = "if k = 0 then ?d else take (length ?d - k) ?d @ ''.'' @ drop (length ?d - k) ?d"
  have "\<bar>y\<bar> * 10 ^ k = of_int \<bar>c\<bar>" using arg_cong [OF assms, of abs] by (simp add: abs_mult)
  note d = format_places_digits [OF this refl]
  have r: "read_unsigned ?s = Some \<bar>y\<bar>" using read_unsigned_digits [OF d(1,2)] d(3) by simp
  have f: "format_places k y = (if y < 0 then ''-'' else []) @ ?s"
    unfolding format_places_def Let_def by simp
  show ?thesis
  proof (cases "y < 0")
    case True
    then show ?thesis using r by (simp add: f read_decimal_def)
  next
    case False
    have "hd ?s \<noteq> CHR ''-''"
      using d(1,2) by (cases ?d) (auto simp: take_Cons' split: if_splits)
    then have "take 1 ?s \<noteq> ''-''" by (cases ?s) auto
    then show ?thesis using r False by (simp add: f read_decimal_def)
  qed
qed

text \<open>
  An amount survives being written to a proposal and read back: the text of a decimal of at
  most 28 digits reads as the same decimal, whatever its sign and its places.
\<close>

theorem plain_amount_roundtrip:
  assumes "dec_fits x"
  shows "read_decimal (plain_amount x) = Inr x"
proof -
  have x: "dec_round x = x" using assms by (simp add: dec_fits_def)
  then obtain c where "x * 10 ^ places_of x = of_int c" using places_of_int by blast
  then show ?thesis using read_format_places x by (simp add: plain_amount_def)
qed

lemma plain_amount_round: "read_decimal (plain_amount x) = Inr (dec_round x)"
proof -
  obtain c where "dec_round x * 10 ^ places_of (dec_round x) = of_int c"
    using places_of_int [OF dec_round_idem] by blast
  then show ?thesis using read_format_places by (simp add: plain_amount_def Let_def)
qed

theorem plain_amount_roundtrip_witness:
  "plain_amount (- 1 / 80) = ''-0.0125'' \<and> read_decimal ''-0.0125'' = Inr (- 1 / 80)"
proof -
  have "dec_fits (- 1 / 80)" by code_simp
  moreover have "plain_amount (- 1 / 80) = ''-0.0125''" by code_simp
  ultimately show ?thesis using plain_amount_roundtrip [of "- 1 / 80"] by simp
qed

end
