(* ===== verification/Proposal_Plan.thy ===== *)
theory Proposal_Plan
  imports Engine Exchange_Types Decimal_Text
begin

text \<open>
  A rebalance plan as the proposal stores it (\<open>core/proposal_plan.py\<close>). The document is JSON
  without decimals, so amounts are texts, and judging a change reads them back. The planned
  leg is the executor's (\<open>core/execution.py\<close>).
\<close>

record planned_leg =
  pg_asset :: string
  pg_pair :: string
  pg_side :: side
  pg_amount :: dec
  pg_minimum :: "dec option"
  pg_note :: "string option"
  pg_volume :: "dec option"
  pg_meta :: "pair_meta option"

fun side_value :: "side \<Rightarrow> string" where
  "side_value BUY = ''buy''"
| "side_value SELL = ''sell''"

definition plan_document :: "string \<Rightarrow> planned_leg list \<Rightarrow> document" where
  "plan_document fiat ls =
     \<lparr>doc_fiat = fiat,
      doc_legs = map (\<lambda>leg.
        \<lparr>dl_asset = pg_asset leg, dl_pair = pg_pair leg, dl_side = side_value (pg_side leg),
         dl_amount_fiat = plain_amount (pg_amount leg),
         dl_minimum_fiat = map_option plain_amount (pg_minimum leg), dl_note = pg_note leg\<rparr>) ls\<rparr>"

text \<open>A dictionary by asset and side: of two legs with one key the last stays, in place of the first.\<close>

definition sendable :: "document \<Rightarrow> ((string \<times> string) \<times> doc_leg) list" where
  "sendable d =
     foldl (\<lambda>m leg. AList.update (dl_asset leg, dl_side leg) leg m) []
       (filter (\<lambda>leg. dl_note leg = None) (doc_legs d))"

definition has_orders :: "document \<Rightarrow> bool" where
  "has_orders d \<longleftrightarrow> sendable d \<noteq> []"

text \<open>\<open>Decimal(value)\<close> of a text or of None.\<close>

definition decimal_or_none :: "string option \<Rightarrow> dec result" where
  "decimal_or_none v = (case v of None \<Rightarrow> Inl TypeError | Some s \<Rightarrow> read_decimal s)"

fun any_moved :: "((string \<times> string) \<rightharpoonup> doc_leg) \<Rightarrow> ((string \<times> string) \<times> doc_leg) list \<Rightarrow> bool result" where
  "any_moved before [] = Inr False"
| "any_moved before ((key, leg) # rest) =
     rbind (read_decimal (dl_amount_fiat leg)) (\<lambda>now.
     rbind (case before key of None \<Rightarrow> Inl (KeyError (fst key)) | Some old \<Rightarrow> read_decimal (dl_amount_fiat old)) (\<lambda>was.
     rbind (decimal_or_none (dl_minimum_fiat leg)) (\<lambda>minimum.
       if minimum < dabs (dsub now was) then Inr True else any_moved before rest)))"

definition is_material :: "document \<Rightarrow> document \<Rightarrow> bool result" where
  "is_material old new =
     (let before = sendable old; after = sendable new
      in if fst ` set before \<noteq> fst ` set after then Inr True
         else any_moved (map_of before) after)"

section \<open>The sendable legs\<close>

definition keys_distinct :: "planned_leg list \<Rightarrow> bool" where
  "keys_distinct ls \<longleftrightarrow> distinct (map pg_asset ls)"

definition orders_of_plan :: "planned_leg list \<Rightarrow> planned_leg list" where
  "orders_of_plan ls = filter (\<lambda>leg. pg_note leg = None) ls"

lemma side_value_inj [simp]: "side_value s = side_value t \<longleftrightarrow> s = t"
  by (cases s; cases t) auto

definition doc_entry :: "planned_leg \<Rightarrow> (string \<times> string) \<times> doc_leg" where
  "doc_entry leg =
     ((pg_asset leg, side_value (pg_side leg)),
      \<lparr>dl_asset = pg_asset leg, dl_pair = pg_pair leg, dl_side = side_value (pg_side leg),
       dl_amount_fiat = plain_amount (pg_amount leg),
       dl_minimum_fiat = map_option plain_amount (pg_minimum leg), dl_note = pg_note leg\<rparr>)"

lemma fold_new_keys:
  "distinct (map f xs) \<Longrightarrow> f ` set xs \<inter> fst ` set m = {} \<Longrightarrow>
     foldl (\<lambda>m x. AList.update (f x) x m) m xs = m @ map (\<lambda>x. (f x, x)) xs"
proof (induction xs arbitrary: m)
  case (Cons x xs)
  have "AList.update (f x) x m = m @ [(f x, x)]"
    using Cons.prems by (induction m) auto
  then show ?case using Cons.prems by (subst foldl_Cons, subst Cons.IH) auto
qed simp

lemma sendable_plan:
  assumes "keys_distinct ls"
  shows "sendable (plan_document fiat ls) = map doc_entry (orders_of_plan ls)"
proof -
  let ?legs = "filter (\<lambda>leg. dl_note leg = None) (doc_legs (plan_document fiat ls))"
  have legs: "?legs = map (snd \<circ> doc_entry) (orders_of_plan ls)"
    by (induction ls) (simp_all add: plan_document_def orders_of_plan_def doc_entry_def)
  have "distinct (map pg_asset (orders_of_plan ls))"
    using assms by (simp add: keys_distinct_def orders_of_plan_def distinct_map_filter)
  then have "distinct (map (\<lambda>leg. (dl_asset leg, dl_side leg)) ?legs)"
    unfolding legs by (simp add: comp_def doc_entry_def distinct_map inj_on_def)
  then have "sendable (plan_document fiat ls) = map (\<lambda>leg. ((dl_asset leg, dl_side leg), leg)) ?legs"
    unfolding sendable_def by (subst fold_new_keys) auto
  also have "\<dots> = map doc_entry (orders_of_plan ls)"
    unfolding legs by (simp add: comp_def doc_entry_def)
  finally show ?thesis .
qed

text \<open>The amount a plan sends for an asset and a side.\<close>

definition sends :: "planned_leg list \<Rightarrow> string \<Rightarrow> side \<Rightarrow> dec \<Rightarrow> bool" where
  "sends ls asset s x \<longleftrightarrow>
     (\<exists>leg \<in> set ls. pg_asset leg = asset \<and> pg_side leg = s \<and> pg_amount leg = x \<and> pg_note leg = None)"

definition amounts_fit :: "planned_leg list \<Rightarrow> bool" where
  "amounts_fit ls \<longleftrightarrow> list_all (\<lambda>leg. dec_fits (pg_amount leg) \<and>
     (pg_note leg = None \<longrightarrow> (case pg_minimum leg of None \<Rightarrow> False | Some m \<Rightarrow> dec_fits m))) ls"

lemma map_of_doc_entry:
  "map_of (map doc_entry xs) (asset, side_value s) =
     map_option (snd \<circ> doc_entry) (find (\<lambda>leg. pg_asset leg = asset \<and> pg_side leg = s) xs)"
  by (induction xs) (auto simp: doc_entry_def)

lemma any_moved_plan:
  assumes "\<And>leg. leg \<in> set xs \<Longrightarrow> \<exists>old. before (fst (doc_entry leg)) = Some (snd (doc_entry old)) \<and>
       pg_amount old = g leg \<and> dec_fits (g leg) \<and> dec_fits (pg_amount leg) \<and>
       (\<exists>m. pg_minimum leg = Some m \<and> dec_fits m)"
  shows "any_moved before (map doc_entry xs) =
     Inr (\<exists>leg \<in> set xs. the (pg_minimum leg) < dabs (dsub (pg_amount leg) (g leg)))"
  using assms
proof (induction xs)
  case (Cons leg xs)
  obtain old m where old: "before (fst (doc_entry leg)) = Some (snd (doc_entry old))" "pg_amount old = g leg"
    "dec_fits (g leg)" "dec_fits (pg_amount leg)" "pg_minimum leg = Some m" "dec_fits m"
    using Cons.prems [of leg] by auto
  have "read_decimal (plain_amount x) = Inr x" if "dec_fits x" for x
    using that plain_amount_round [of x] by (simp add: dec_fits_def)
  then show ?case
    using old Cons by (auto simp: doc_entry_def decimal_or_none_def)
qed simp

lemma orders_of_plan_unique:
  assumes "keys_distinct ls" "leg \<in> set (orders_of_plan ls)" "leg' \<in> set (orders_of_plan ls)"
    "pg_asset leg = pg_asset leg'"
  shows "leg = leg'"
  using assms by (auto simp: keys_distinct_def orders_of_plan_def distinct_map inj_on_def)

lemma find_order:
  assumes "keys_distinct ls"
  shows "find (\<lambda>l. pg_asset l = a \<and> pg_side l = s) (orders_of_plan ls) = Some l \<longleftrightarrow>
     l \<in> set (orders_of_plan ls) \<and> pg_asset l = a \<and> pg_side l = s"
proof
  assume r: "l \<in> set (orders_of_plan ls) \<and> pg_asset l = a \<and> pg_side l = s"
  then obtain l' where l': "find (\<lambda>l. pg_asset l = a \<and> pg_side l = s) (orders_of_plan ls) = Some l'"
    by (metis (mono_tags, lifting) find_None_iff not_None_eq)
  then have "l' \<in> set (orders_of_plan ls)" "pg_asset l' = a" by (auto simp: find_Some_iff)
  then have "l' = l" using orders_of_plan_unique [OF assms, of l' l] r by simp
  then show "find (\<lambda>l. pg_asset l = a \<and> pg_side l = s) (orders_of_plan ls) = Some l" using l' by simp
qed (auto simp: find_Some_iff)

lemma sends_iff: "sends ls a s x \<longleftrightarrow>
    (\<exists>leg \<in> set (orders_of_plan ls). pg_asset leg = a \<and> pg_side leg = s \<and> pg_amount leg = x)"
  by (auto simp: sends_def orders_of_plan_def)

text \<open>Between two plans with the same orders, the amounts that moved.\<close>

lemma any_moved_iff:
  assumes old: "keys_distinct old" "amounts_fit old" and new: "amounts_fit new"
    and True: "\<forall>a s. (\<exists>x. sends old a s x) = (\<exists>x. sends new a s x)"
  shows "any_moved (map_of (map doc_entry (orders_of_plan old))) (map doc_entry (orders_of_plan new)) =
    Inr (\<exists>leg \<in> set new. pg_note leg = None \<and>
      (\<exists>x. sends old (pg_asset leg) (pg_side leg) x \<and> the (pg_minimum leg) < dabs (dsub (pg_amount leg) x)))"
proof -
  let ?o = "orders_of_plan old" and ?n = "orders_of_plan new"
  let ?find = "\<lambda>leg :: planned_leg. find (\<lambda>l. pg_asset l = pg_asset leg \<and> pg_side l = pg_side leg) ?o"
  define g where "g = (\<lambda>leg :: planned_leg. pg_amount (the (?find leg)))"
  have found: "\<exists>was. ?find leg = Some was \<and> was \<in> set ?o" if "leg \<in> set ?n" for leg
  proof -
    have "\<exists>x. sends new (pg_asset leg) (pg_side leg) x" using that by (auto simp: sends_iff)
    then have "\<exists>x. sends old (pg_asset leg) (pg_side leg) x" using True by simp
    then show ?thesis using find_order [OF old(1)] by (auto simp: sends_iff)
  qed
  have g: "sends old (pg_asset leg) (pg_side leg) x \<longleftrightarrow> x = g leg" if l: "leg \<in> set ?n" for leg x
  proof -
    obtain was where was: "?find leg = Some was" using found [OF l] by blast
    then have w: "was \<in> set ?o" "pg_asset was = pg_asset leg" "pg_side was = pg_side leg"
      using find_order [OF old(1)] by auto
    have "pg_amount l' = pg_amount was" if "l' \<in> set ?o" "pg_asset l' = pg_asset leg" for l'
      using orders_of_plan_unique [OF old(1) that(1) w(1)] that(2) w(2) by simp
    moreover have "g leg = pg_amount was" using was by (simp add: g_def)
    ultimately show ?thesis using w unfolding sends_iff by metis
  qed
  have "any_moved (map_of (map doc_entry ?o)) (map doc_entry ?n) =
      Inr (\<exists>leg \<in> set ?n. the (pg_minimum leg) < dabs (dsub (pg_amount leg) (g leg)))"
  proof (rule any_moved_plan)
    fix leg assume l: "leg \<in> set ?n"
    obtain was where was: "?find leg = Some was" "was \<in> set ?o" using found [OF l] by blast
    have "dec_fits (pg_amount was)" using was(2) old(2) by (auto simp: amounts_fit_def orders_of_plan_def list_all_iff)
    moreover have "dec_fits (pg_amount leg) \<and> (\<exists>m. pg_minimum leg = Some m \<and> dec_fits m)"
      using l new by (fastforce simp: amounts_fit_def orders_of_plan_def list_all_iff split: option.splits)
    moreover have "map_of (map doc_entry ?o) (fst (doc_entry leg)) = Some (snd (doc_entry was))"
      using was(1) map_of_doc_entry [of ?o "pg_asset leg" "pg_side leg"] by (simp add: doc_entry_def)
    ultimately show "\<exists>old. map_of (map doc_entry ?o) (fst (doc_entry leg)) = Some (snd (doc_entry old)) \<and>
       pg_amount old = g leg \<and> dec_fits (g leg) \<and> dec_fits (pg_amount leg) \<and>
       (\<exists>m. pg_minimum leg = Some m \<and> dec_fits m)"
      using was(1) by (auto simp: g_def)
  qed
  moreover have "(\<exists>leg \<in> set ?n. the (pg_minimum leg) < dabs (dsub (pg_amount leg) (g leg))) \<longleftrightarrow>
      (\<exists>leg \<in> set new. pg_note leg = None \<and>
      (\<exists>x. sends old (pg_asset leg) (pg_side leg) x \<and> the (pg_minimum leg) < dabs (dsub (pg_amount leg) x)))"
    using g by (auto simp: orders_of_plan_def)
  ultimately show ?thesis by simp
qed

text \<open>
  C34: what asks for a new approval. Judged on the stored texts, a plan is a material change of
  another exactly when an order appears or disappears, counting a change of side as both, or an
  order's amount moves by more than the effective minimum it has in the new plan.
\<close>

theorem is_material_iff:
  assumes "keys_distinct old" "keys_distinct new" "amounts_fit old" "amounts_fit new"
  shows "is_material (plan_document f old) (plan_document f' new) = Inr (
     (\<exists>a s. (\<exists>x. sends old a s x) \<noteq> (\<exists>x. sends new a s x)) \<or>
     (\<exists>leg \<in> set new. pg_note leg = None \<and>
        (\<exists>x. sends old (pg_asset leg) (pg_side leg) x \<and> the (pg_minimum leg) < dabs (dsub (pg_amount leg) x))))"
proof -
  let ?o = "orders_of_plan old" and ?n = "orders_of_plan new"
  have keys: "fst ` set (map doc_entry xs) = (\<lambda>l. (pg_asset l, side_value (pg_side l))) ` set xs" for xs
    by (simp add: image_image doc_entry_def)
  have eq_keys: "fst ` set (map doc_entry ?o) = fst ` set (map doc_entry ?n) \<longleftrightarrow>
      (\<forall>a s. (\<exists>x. sends old a s x) = (\<exists>x. sends new a s x))"
    unfolding keys sends_iff by (auto simp: set_eq_iff image_iff) (metis side_value_inj)+
  show ?thesis
  proof (cases "\<forall>a s. (\<exists>x. sends old a s x) = (\<exists>x. sends new a s x)")
    case False
    then have "is_material (plan_document f old) (plan_document f' new) = Inr True"
      using assms eq_keys by (simp add: is_material_def sendable_plan Let_def)
    moreover have "\<exists>a s. (\<exists>x. sends old a s x) \<noteq> (\<exists>x. sends new a s x)" using False by blast
    ultimately show ?thesis by simp
  next
    case True
    then show ?thesis
      using assms any_moved_iff [OF assms(1,3,4) True] eq_keys by (simp add: is_material_def sendable_plan Let_def)
  qed
qed

definition sample_leg :: "dec \<Rightarrow> planned_leg" where
  "sample_leg amount =
     \<lparr>pg_asset = ''XBT'', pg_pair = ''XXBTZEUR'', pg_side = BUY, pg_amount = amount, pg_minimum = Some 5,
      pg_note = None, pg_volume = None, pg_meta = None\<rparr>"

theorem is_material_iff_witness:
  "is_material (plan_document ''EUR'' [sample_leg 100]) (plan_document ''EUR'' [sample_leg 104]) = Inr False \<and>
   is_material (plan_document ''EUR'' [sample_leg 100]) (plan_document ''EUR'' [sample_leg 106]) = Inr True"
proof -
  have k: "keys_distinct [sample_leg x]" "dec_fits x \<Longrightarrow> amounts_fit [sample_leg x]" for x
    using dec_round_literal [of "num.Bit1 (num.Bit0 num.One)"]
    by (auto simp: keys_distinct_def amounts_fit_def sample_leg_def dec_fits_def)
  have fits: "dec_fits 100" "dec_fits 104" "dec_fits 106" by (simp_all add: dec_fits_def dec_eval)
  show ?thesis
    using is_material_iff [OF k(1) k(1) k(2) k(2), OF fits(1,2)] is_material_iff [OF k(1) k(1) k(2) k(2), OF fits(1,3)]
    by (auto simp: sends_def sample_leg_def dec_simps dec_eval)
qed

end
