(* ===== verification/Effects.thy ===== *)
theory Effects
  imports Prelude
begin

text \<open>
  Code with effects: an action takes a state and gives a result, which may be an exception,
  and the state it leaves. A state change made before an exception stays, as in Python. The
  same type serves a transaction, whose state is the database, and the process, whose state
  is the world. The library below carries the proofs: a triple is a precondition, an action
  and a postcondition on the result and the state left, and an invariant is a triple whose
  postcondition repeats its precondition whatever the result.
\<close>

type_synonym ('s, 'a) act = "'s \<Rightarrow> 'a result \<times> 's"

definition ret :: "'a \<Rightarrow> ('s, 'a) act" where
  "ret a s = (Inr a, s)"

definition throw :: "exn \<Rightarrow> ('s, 'a) act" where
  "throw e s = (Inl e, s)"

definition bind :: "('s, 'a) act \<Rightarrow> ('a \<Rightarrow> ('s, 'b) act) \<Rightarrow> ('s, 'b) act" where
  "bind m f s = (case m s of (Inl e, s') \<Rightarrow> (Inl e, s') | (Inr a, s') \<Rightarrow> f a s')"

text \<open>A sequence whose first value is dropped.\<close>

definition seq :: "('s, 'a) act \<Rightarrow> ('s, 'b) act \<Rightarrow> ('s, 'b) act" where
  "seq m n = bind m (\<lambda>_. n)"

text \<open>A pure computation that may raise.\<close>

definition lift_result :: "'a result \<Rightarrow> ('s, 'a) act" where
  "lift_result r s = (r, s)"

definition gets :: "('s \<Rightarrow> 'a) \<Rightarrow> ('s, 'a) act" where
  "gets f s = (Inr (f s), s)"

definition modify :: "('s \<Rightarrow> 's) \<Rightarrow> ('s, unit) act" where
  "modify f s = (Inr (), f s)"

text \<open>\<open>try: m except: h\<close>, where the handler gives None for an exception it does not catch.\<close>

definition try_except :: "('s, 'a) act \<Rightarrow> (exn \<Rightarrow> ('s, 'a) act option) \<Rightarrow> ('s, 'a) act" where
  "try_except m h s =
     (case m s of
        (Inr a, s') \<Rightarrow> (Inr a, s')
      | (Inl e, s') \<Rightarrow> (case h e of None \<Rightarrow> (Inl e, s') | Some n \<Rightarrow> n s'))"

text \<open>
  \<open>try: m finally: f\<close>. The final block runs whatever the result was, and may look at it, as
  Python's may at the variables the body assigned; an exception of its own replaces it.
\<close>

definition try_finally :: "('s, 'a) act \<Rightarrow> ('a result \<Rightarrow> ('s, unit) act) \<Rightarrow> ('s, 'a) act" where
  "try_finally m f s =
     (case m s of (r, s') \<Rightarrow> (case f r s' of (Inl e, s'') \<Rightarrow> (Inl e, s'') | (Inr _, s'') \<Rightarrow> (r, s'')))"

text \<open>A loop over a list.\<close>

fun for_each :: "'a list \<Rightarrow> ('a \<Rightarrow> ('s, unit) act) \<Rightarrow> ('s, unit) act" where
  "for_each [] f = ret ()"
| "for_each (x # xs) f = seq (f x) (for_each xs f)"

text \<open>A loop over a list that carries a value.\<close>

fun for_fold :: "'a list \<Rightarrow> 'b \<Rightarrow> ('a \<Rightarrow> 'b \<Rightarrow> ('s, 'b) act) \<Rightarrow> ('s, 'b) act" where
  "for_fold [] b f = ret b"
| "for_fold (x # xs) b f = bind (f x b) (\<lambda>b'. for_fold xs b' f)"

lemmas act_defs = ret_def throw_def bind_def seq_def lift_result_def gets_def modify_def
  try_except_def try_finally_def

lemma bind_lift [simp]:
  "bind (lift_result (Inr a)) f = f a" "bind (lift_result (Inl e)) f = throw e"
  by (simp_all add: fun_eq_iff act_defs)

lemma bind_Inr_iff: "bind m f s = (Inr b, s') \<longleftrightarrow> (\<exists>a s1. m s = (Inr a, s1) \<and> f a s1 = (Inr b, s'))"
  by (auto simp: bind_def split: prod.splits sum.splits)

lemma seq_Inr_iff: "seq m n s = (Inr b, s') \<longleftrightarrow> (\<exists>a s1. m s = (Inr a, s1) \<and> n s1 = (Inr b, s'))"
  by (simp add: seq_def bind_Inr_iff)

lemma bind_cong [fundef_cong]:
  "m s = m' s' \<Longrightarrow> (\<And>a s''. m' s' = (Inr a, s'') \<Longrightarrow> f a s'' = f' a s'') \<Longrightarrow> bind m f s = bind m' f' s'"
  by (auto simp: bind_def split: sum.splits prod.splits)

section \<open>Triples\<close>

definition triple :: "('s \<Rightarrow> bool) \<Rightarrow> ('s, 'a) act \<Rightarrow> ('a result \<Rightarrow> 's \<Rightarrow> bool) \<Rightarrow> bool" where
  "triple P m Q \<longleftrightarrow> (\<forall>s. P s \<longrightarrow> Q (fst (m s)) (snd (m s)))"

named_theorems triple_rules \<open>rules that build triples from the parts of an action\<close>

lemma tripleI: "(\<And>s r s'. P s \<Longrightarrow> m s = (r, s') \<Longrightarrow> Q r s') \<Longrightarrow> triple P m Q"
  unfolding triple_def by (metis prod.collapse)

lemma tripleD: "triple P m Q \<Longrightarrow> P s \<Longrightarrow> m s = (r, s') \<Longrightarrow> Q r s'"
  unfolding triple_def by fastforce

lemma triple_weaken:
  "triple P m Q \<Longrightarrow> (\<And>s. P' s \<Longrightarrow> P s) \<Longrightarrow> (\<And>r s. Q r s \<Longrightarrow> Q' r s) \<Longrightarrow> triple P' m Q'"
  unfolding triple_def by blast

lemma triple_conj: "triple P m Q \<Longrightarrow> triple P' m Q' \<Longrightarrow> triple (\<lambda>s. P s \<and> P' s) m (\<lambda>r s. Q r s \<and> Q' r s)"
  unfolding triple_def by blast

lemma triple_pre: "triple P m Q \<Longrightarrow> (\<And>s. P' s \<Longrightarrow> P s) \<Longrightarrow> triple P' m Q"
  unfolding triple_def by blast

lemma triple_bind:
  assumes "triple P m R"
    and "\<And>a. triple (R (Inr a)) (f a) Q"
    and "\<And>e s. R (Inl e) s \<Longrightarrow> Q (Inl e) s"
  shows "triple P (bind m f) Q"
proof (rule tripleI)
  fix s r s' assume P: "P s" and b: "bind m f s = (r, s')"
  obtain r1 s1 where m: "m s = (r1, s1)" by fastforce
  have R: "R r1 s1" using tripleD [OF assms(1) P m] .
  show "Q r s'"
  proof (cases r1)
    case (Inl e)
    then show ?thesis using assms(3) R b m by (auto simp: bind_def)
  next
    case (Inr a)
    then show ?thesis using tripleD [OF assms(2)] R b m by (fastforce simp: bind_def)
  qed
qed

lemma triple_ret: "(\<And>s. P s \<Longrightarrow> Q (Inr a) s) \<Longrightarrow> triple P (ret a) Q"
  by (simp add: triple_def ret_def)

lemma triple_finally:
  assumes "triple P m (\<lambda>r. R)" "\<And>r. triple R (f r) (\<lambda>r. Q)"
  shows "triple P (try_finally m f) (\<lambda>r. Q)"
proof (rule tripleI)
  fix s r s' assume P: "P s" and t: "try_finally m f s = (r, s')"
  obtain r1 s1 where m: "m s = (r1, s1)" by fastforce
  obtain r2 s2 where f: "f r1 s1 = (r2, s2)" by fastforce
  have "Q s2" using tripleD [OF assms(2) tripleD [OF assms(1) P m] f] .
  moreover have "s' = s2" using t m f by (auto simp: try_finally_def split: sum.splits)
  ultimately show "Q s'" by simp
qed

section \<open>Invariants\<close>

text \<open>What an action keeps, whether it returns or raises.\<close>

definition keeps :: "('s \<Rightarrow> bool) \<Rightarrow> ('s, 'a) act \<Rightarrow> bool" where
  "keeps I m \<longleftrightarrow> (\<forall>s. I s \<longrightarrow> I (snd (m s)))"

named_theorems keeps_intros \<open>an action keeps an invariant when its parts do\<close>

lemma keepsI: "(\<And>s r s'. I s \<Longrightarrow> m s = (r, s') \<Longrightarrow> I s') \<Longrightarrow> keeps I m"
  unfolding keeps_def by (metis prod.collapse)

lemma keepsD: "keeps I m \<Longrightarrow> I s \<Longrightarrow> m s = (r, s') \<Longrightarrow> I s'"
  unfolding keeps_def by fastforce

lemma keeps_snd: "keeps I m \<Longrightarrow> I s \<Longrightarrow> I (snd (m s))"
  unfolding keeps_def by blast

lemma keeps_triple: "keeps I m \<longleftrightarrow> triple I m (\<lambda>_. I)"
  by (simp add: keeps_def triple_def)

lemma keeps_conj: "keeps I m \<Longrightarrow> keeps J m \<Longrightarrow> keeps (\<lambda>s. I s \<and> J s) m"
  unfolding keeps_def by blast

lemma keeps_unit [keeps_intros]:
  "keeps I (ret a)" "keeps I (throw e)" "keeps I (lift_result r)" "keeps I (gets f)"
  by (simp_all add: keeps_def act_defs)

lemma keeps_bind [keeps_intros]:
  "keeps I m \<Longrightarrow> (\<And>a. keeps I (f a)) \<Longrightarrow> keeps I (bind m f)"
  unfolding keeps_triple by (rule triple_bind) (auto simp: triple_def)

lemma keeps_seq [keeps_intros]: "keeps I m \<Longrightarrow> keeps I n \<Longrightarrow> keeps I (seq m n)"
  unfolding seq_def by (intro keeps_intros)

lemma keeps_modify: "(\<And>s. I s \<Longrightarrow> I (f s)) \<Longrightarrow> keeps I (modify f)"
  by (simp add: keeps_def modify_def)

lemma keeps_if [keeps_intros]: "keeps I m \<Longrightarrow> keeps I n \<Longrightarrow> keeps I (if b then m else n)"
  by simp

lemma keeps_try_finally [keeps_intros]: "keeps I m \<Longrightarrow> (\<And>r. keeps I (f r)) \<Longrightarrow> keeps I (try_finally m f)"
  unfolding keeps_triple by (rule triple_finally)

lemma keeps_try_except [keeps_intros]:
  assumes "keeps I m" "\<And>e n. h e = Some n \<Longrightarrow> keeps I n"
  shows "keeps I (try_except m h)"
proof (rule keepsI)
  fix s r s' assume I: "I s" and t: "try_except m h s = (r, s')"
  obtain r1 s1 where m: "m s = (r1, s1)" by fastforce
  have "I s1" using keepsD [OF assms(1) I m] .
  then show "I s'"
    using t m keepsD [OF assms(2)] by (auto simp: try_except_def split: sum.splits option.splits)
qed

lemma keeps_option [keeps_intros]:
  "(x = None \<Longrightarrow> keeps I m) \<Longrightarrow> (\<And>a. x = Some a \<Longrightarrow> keeps I (f a)) \<Longrightarrow>
     keeps I (case x of None \<Rightarrow> m | Some a \<Rightarrow> f a)"
  by (cases x) auto

lemma keeps_for_each [keeps_intros]: "(\<And>x. x \<in> set xs \<Longrightarrow> keeps I (f x)) \<Longrightarrow> keeps I (for_each xs f)"
  by (induction xs) (auto intro: keeps_intros)

lemma keeps_for_fold [keeps_intros]:
  "(\<And>x b. x \<in> set xs \<Longrightarrow> keeps I (f x b)) \<Longrightarrow> keeps I (for_fold xs b f)"
  by (induction xs arbitrary: b) (auto intro: keeps_intros)

text \<open>Steps that keep the precondition, before one that establishes the postcondition.\<close>

lemma triple_prefix:
  "keeps P m \<Longrightarrow> (\<And>a. triple P (f a) Q) \<Longrightarrow> (\<And>e s. P s \<Longrightarrow> Q (Inl e) s) \<Longrightarrow> triple P (bind m f) Q"
  unfolding keeps_triple by (rule triple_bind [where R = "\<lambda>_. P"]) auto

lemma triple_keeps_bind:
  "keeps P m \<Longrightarrow> (\<And>a. triple P (f a) (\<lambda>_. R)) \<Longrightarrow> (\<And>s. P s \<Longrightarrow> R s) \<Longrightarrow> triple P (bind m f) (\<lambda>_. R)"
  by (rule triple_prefix)

lemma triple_keeps_seq:
  "keeps P m \<Longrightarrow> triple P n (\<lambda>_. R) \<Longrightarrow> (\<And>s. P s \<Longrightarrow> R s) \<Longrightarrow> triple P (seq m n) (\<lambda>_. R)"
  unfolding seq_def by (rule triple_keeps_bind)

lemma triple_keeps: "keeps P m \<Longrightarrow> (\<And>s. P s \<Longrightarrow> R s) \<Longrightarrow> triple P m (\<lambda>_. R)"
  unfolding keeps_triple by (rule triple_weaken)

lemma triple_if: "triple P m Q \<Longrightarrow> triple P n Q \<Longrightarrow> triple P (if b then m else n) Q"
  by simp

lemma triple_try_except:
  assumes "triple P m (\<lambda>_. R)" "\<And>e n. h e = Some n \<Longrightarrow> keeps R n"
  shows "triple P (try_except m h) (\<lambda>_. R)"
proof (rule tripleI)
  fix s r s' assume P: "P s" and t: "try_except m h s = (r, s')"
  obtain r1 s1 where m: "m s = (r1, s1)" by fastforce
  have "R s1" using tripleD [OF assms(1) P m] .
  then show "R s'"
    using t m keepsD [OF assms(2)] by (auto simp: try_except_def split: sum.splits option.splits)
qed

text \<open>A loop whose carried value the precondition speaks of; \<open>E\<close> is what an exception leaves.\<close>

lemma triple_for_fold:
  assumes "\<And>x b. x \<in> set xs \<Longrightarrow> triple (I b) (f x b) (\<lambda>r s. case r of Inl _ \<Rightarrow> E s | Inr b' \<Rightarrow> I b' s)"
  shows "triple (I b) (for_fold xs b f) (\<lambda>r s. case r of Inl _ \<Rightarrow> E s | Inr b' \<Rightarrow> I b' s)"
  using assms
proof (induction xs arbitrary: b)
  case Nil
  then show ?case by (simp add: triple_ret)
next
  case (Cons x xs)
  have "triple (I b) (f x b) (\<lambda>r s. case r of Inl _ \<Rightarrow> E s | Inr b' \<Rightarrow> I b' s)" using Cons.prems by simp
  then show ?case using Cons by (auto intro!: triple_bind)
qed

end
