(* ===== verification/Kraken_Client.thy ===== *)
theory Kraken_Client
  imports Exchange_Types Decimal_Text Effects "HOL-Library.Sublist"
begin

text \<open>
  The client that speaks to Kraken (\<open>exchange/client.py\<close>), the order vocabulary and the
  lookups (\<open>exchange/orders.py\<close>), and the validation of a key (\<open>exchange/keys.py\<close>). The
  transport is a parameter: an action that sends one request and gives the answer. An
  answer is the JSON body of a good response, no answer at all (a timeout, an HTTP error, a
  body that is not JSON), or a secret that does not decode, so that nothing was signed and
  nothing was sent. Log lines are not modelled here.
\<close>

section \<open>JSON\<close>

text \<open>
  A body as \<open>response.json()\<close> gives it. An integer and a float are told apart as Python
  tells them apart; a float is kept as the text \<open>str\<close> writes for it.
\<close>

datatype json =
    JNull
  | JBool bool
  | JInt int
  | JFloat string
  | JStr string
  | JList "json list"
  | JObj "(string \<times> json) list"

definition string_of_int :: "int \<Rightarrow> string" where
  "string_of_int n = (if n < 0 then ''-'' else []) @ string_of_nat (nat \<bar>n\<bar>)"

text \<open>
  \<open>str(value)\<close>. Of a list or an object the code only ever asks whether the text starts with
  a code or reads as a number, and neither holds; it is given by its opening bracket.
\<close>

fun str_json :: "json \<Rightarrow> string" where
  "str_json JNull = ''None''"
| "str_json (JBool b) = (if b then ''True'' else ''False'')"
| "str_json (JInt n) = string_of_int n"
| "str_json (JFloat t) = t"
| "str_json (JStr s) = s"
| "str_json (JList xs) = ''[''"
| "str_json (JObj kvs) = ''{''"

text \<open>\<open>value.items()\<close>, \<open>value.get(key, default)\<close> and \<open>value[key]\<close>.\<close>

fun items :: "json \<Rightarrow> (string \<times> json) list result" where
  "items (JObj kvs) = Inr kvs"
| "items _ = Inl AttributeError"

fun get :: "json \<Rightarrow> string \<Rightarrow> json \<Rightarrow> json result" where
  "get (JObj kvs) k d = Inr (case map_of kvs k of None \<Rightarrow> d | Some v \<Rightarrow> v)"
| "get _ k d = Inl AttributeError"

fun item :: "json \<Rightarrow> string \<Rightarrow> json result" where
  "item (JObj kvs) k = get_item (map_of kvs) k"
| "item _ k = Inl TypeError"

text \<open>\<open>for entry in value\<close>: a list, the characters of a text, or the keys of an object.\<close>

fun iterate :: "json \<Rightarrow> json list result" where
  "iterate (JList xs) = Inr xs"
| "iterate (JStr s) = Inr (map (\<lambda>c. JStr [c]) s)"
| "iterate (JObj kvs) = Inr (map (\<lambda>(k, v). JStr k) kvs)"
| "iterate _ = Inl TypeError"

fun truthy :: "json \<Rightarrow> bool" where
  "truthy JNull = False"
| "truthy (JBool b) = b"
| "truthy (JInt n) = (n \<noteq> 0)"
| "truthy (JFloat t) = (read_decimal t \<noteq> Inr 0)"
| "truthy (JStr s) = (s \<noteq> [])"
| "truthy (JList xs) = (xs \<noteq> [])"
| "truthy (JObj kvs) = (kvs \<noteq> [])"

definition read_int :: "string \<Rightarrow> int result" where
  "read_int s =
     (let neg = take 1 s = ''-''; d = (if neg then drop 1 s else s)
      in if d \<noteq> [] \<and> list_all is_digit d
         then Inr ((if neg then -1 else 1) * int (nat_of_digits d))
         else Inl (ValueError ''invalid literal for int()''))"

fun int_json :: "json \<Rightarrow> int result" where
  "int_json (JInt n) = Inr n"
| "int_json (JBool b) = Inr (if b then 1 else 0)"
| "int_json (JFloat t) = rbind (read_decimal t) (\<lambda>x. Inr (round_down x))"
| "int_json (JStr s) = read_int s"
| "int_json _ = Inl TypeError"

section \<open>exchange/orders.py: statuses and refusals\<close>

definition KRAKEN_STATUS :: "string \<rightharpoonup> exchange_order_status" where
  "KRAKEN_STATUS =
     [''pending'' \<mapsto> PENDING_AT_KRAKEN, ''open'' \<mapsto> OPEN, ''closed'' \<mapsto> CLOSED,
      ''canceled'' \<mapsto> CANCELED, ''expired'' \<mapsto> CANCELED]"

definition map_order_status :: "json \<Rightarrow> exchange_order_status" where
  "map_order_status raw =
     (case KRAKEN_STATUS (str_json raw) of None \<Rightarrow> UNKNOWN_STATUS | Some s \<Rightarrow> s)"

definition as_decimal :: "json \<Rightarrow> dec" where
  "as_decimal raw = (case read_decimal (str_json raw) of Inl _ \<Rightarrow> 0 | Inr x \<Rightarrow> x)"

definition lookup_order :: "string \<Rightarrow> json \<Rightarrow> order_lookup result" where
  "lookup_order txid order =
     rbind (get order ''status'' JNull) (\<lambda>status.
     rbind (get order ''vol'' JNull) (\<lambda>vol.
     rbind (get order ''vol_exec'' JNull) (\<lambda>vol_exec.
     rbind (get order ''price'' JNull) (\<lambda>price.
     rbind (get order ''fee'' JNull) (\<lambda>fee.
     rbind (get order ''cost'' JNull) (\<lambda>cost.
     Inr \<lparr>lk_txid = Some txid, lk_status = Some (map_order_status status),
          lk_volume = as_decimal vol, lk_volume_executed = as_decimal vol_exec,
          lk_price = as_decimal price, lk_fee = as_decimal fee, lk_cost = as_decimal cost\<rparr>))))))"

fun match_order :: "(string \<times> json) list \<Rightarrow> string \<Rightarrow> order_lookup option result" where
  "match_order [] cl_ord_id = Inr None"
| "match_order ((txid, order) # rest) cl_ord_id =
     rbind (get order ''cl_ord_id'' JNull) (\<lambda>echoed.
       if echoed = JStr cl_ord_id then rbind (lookup_order txid order) (\<lambda>l. Inr (Some l))
       else match_order rest cl_ord_id)"

definition ABSENT :: order_lookup where
  "ABSENT =
     \<lparr>lk_txid = None, lk_status = None, lk_volume = 0, lk_volume_executed = 0, lk_price = 0,
      lk_fee = 0, lk_cost = 0\<rparr>"

definition DEFINITIVE_REFUSALS :: "string list" where
  "DEFINITIVE_REFUSALS =
     [''EOrder:'', ''EGeneral:Invalid arguments'', ''EGeneral:Permission denied'', ''EAPI:'',
      ''EService:Market in cancel_only mode'', ''EService:Market in post_only mode'',
      ''EService:Market in limit_only mode'']"

definition starts_with_any :: "string list \<Rightarrow> string \<Rightarrow> bool" where
  "starts_with_any codes s \<longleftrightarrow> list_ex (\<lambda>c. prefix c s) codes"

definition is_definitive_refusal :: "string list \<Rightarrow> bool" where
  "is_definitive_refusal errors \<longleftrightarrow> errors \<noteq> [] \<and> list_all (starts_with_any DEFINITIVE_REFUSALS) errors"

section \<open>exchange/client.py: requests and answers\<close>

record add_order_request =
  ao_pair :: string
  ao_type :: string
  ao_ordertype :: string
  ao_volume :: dec
  ao_cl_ord_id :: string
  ao_oflags :: "string option"
  ao_validate :: bool

datatype request =
    Assets
  | AssetPairs "string list"
  | Ticker "string list"
  | GetApiKeyInfo
  | Balance
  | AddOrder add_order_request
  | OpenOrders "string option"
  | ClosedOrders "string option"
  | QueryOrders string

datatype answer = Body json | NoAnswer | SecretUnreadable

text \<open>
  A client: whose key it signs with, if any, and the transport. A public call is sent
  under no key.
\<close>

record 's client =
  cl_credentials :: "credentials option"
  cl_send :: "credentials option \<Rightarrow> request \<Rightarrow> ('s, answer) act"

datatype failure = Secret_Unreadable | Kraken_Error "string list" | Other_Failure

definition is_error :: "json \<Rightarrow> bool" where
  "is_error entry \<longleftrightarrow> prefix ''E'' (str_json entry)"

definition unwrap :: "json \<Rightarrow> failure + json" where
  "unwrap payload =
     (case rbind (get payload ''error'' (JList [])) iterate of
        Inl _ \<Rightarrow> Inl Other_Failure
      | Inr entries \<Rightarrow>
          (let errors = filter is_error entries
           in if errors \<noteq> [] then Inl (Kraken_Error (map str_json errors))
              else (case get payload ''result'' (JObj []) of
                      Inl _ \<Rightarrow> Inl Other_Failure | Inr r \<Rightarrow> Inr r)))"

fun called :: "answer \<Rightarrow> failure + json" where
  "called (Body payload) = unwrap payload"
| "called NoAnswer = Inl Other_Failure"
| "called SecretUnreadable = Inl Secret_Unreadable"

definition REFUSED_KEY_ERRORS :: "string list" where
  "REFUSED_KEY_ERRORS = [''EAPI:Invalid key'', ''EAPI:Invalid signature'']"

definition is_refusal :: "string list \<Rightarrow> bool" where
  "is_refusal errors \<longleftrightarrow> list_ex (starts_with_any REFUSED_KEY_ERRORS) errors"

definition is_lockout :: "string list \<Rightarrow> bool" where
  "is_lockout errors \<longleftrightarrow> list_ex (prefix ''EGeneral:Temporary lockout'') errors"

text \<open>\<open>_safely\<close>. Python's None and a JSON null are one value, here None.\<close>

definition safely :: "bool \<Rightarrow> failure + json \<Rightarrow> json option result" where
  "safely refusals outcome =
     (case outcome of
        Inr JNull \<Rightarrow> Inr None
      | Inr r \<Rightarrow> Inr (Some r)
      | Inl Secret_Unreadable \<Rightarrow> if refusals then Inl KeyRefused else Inr None
      | Inl (Kraken_Error errors) \<Rightarrow>
          if refusals \<and> is_refusal errors then Inl KeyRefused
          else if refusals \<and> is_lockout errors then Inl KeyLockedOut
          else Inr None
      | Inl Other_Failure \<Rightarrow> Inr None)"

definition call_private :: "'s client \<Rightarrow> request \<Rightarrow> ('s, failure + json) act" where
  "call_private c r =
     (case cl_credentials c of
        None \<Rightarrow> throw MissingCredentials
      | Some k \<Rightarrow> bind (cl_send c (Some k) r) (\<lambda>a. ret (called a)))"

definition public_call :: "'s client \<Rightarrow> request \<Rightarrow> ('s, json option) act" where
  "public_call c r = bind (cl_send c None r) (\<lambda>a. lift_result (safely False (called a)))"

definition private_call :: "'s client \<Rightarrow> request \<Rightarrow> bool \<Rightarrow> ('s, json option) act" where
  "private_call c r refusals = bind (call_private c r) (\<lambda>outcome. lift_result (safely refusals outcome))"

section \<open>exchange/client.py: public data\<close>

definition read_pair_meta :: "string \<Rightarrow> json \<Rightarrow> pair_meta result" where
  "read_pair_meta name entry =
     rbind (item entry ''altname'') (\<lambda>alt.
     rbind (item entry ''base'') (\<lambda>b.
     rbind (item entry ''quote'') (\<lambda>q.
     rbind (rbind (item entry ''pair_decimals'') int_json) (\<lambda>pd.
     rbind (rbind (item entry ''lot_decimals'') int_json) (\<lambda>ld.
     rbind (rbind (item entry ''ordermin'') (\<lambda>x. read_decimal (str_json x))) (\<lambda>om.
     rbind (rbind (item entry ''costmin'') (\<lambda>x. read_decimal (str_json x))) (\<lambda>cm.
     rbind (item entry ''status'') (\<lambda>st.
     rbind (rbind (item entry ''cost_decimals'') int_json) (\<lambda>cd.
     Inr \<lparr>pm_pair = name, altname = str_json alt, base = str_json b, quote = str_json q,
          price_decimals = pd, volume_decimals = ld, order_min = om, cost_min = cm,
          pm_status = str_json st, cost_decimals = cd\<rparr>)))))))))"

definition parse_pairs :: "json \<Rightarrow> pair_meta dict result" where
  "parse_pairs raw =
     rbind (items raw) (\<lambda>kvs.
       Inr (List.map_filter (\<lambda>(name, entry).
              case read_pair_meta name entry of Inl _ \<Rightarrow> None | Inr m \<Rightarrow> Some (name, m)) kvs))"

definition on_answer :: "json option \<Rightarrow> (json \<Rightarrow> 'a result) \<Rightarrow> 'a option result" where
  "on_answer raw parse =
     (case raw of None \<Rightarrow> Inr None | Some r \<Rightarrow> rbind (parse r) (\<lambda>x. Inr (Some x)))"

definition asset_pairs :: "'s client \<Rightarrow> string list \<Rightarrow> ('s, pair_meta dict option) act" where
  "asset_pairs c pairs =
     bind (public_call c (AssetPairs pairs)) (\<lambda>raw. lift_result (on_answer raw parse_pairs))"

definition decimal_of :: "json \<Rightarrow> dec option" where
  "decimal_of raw = (case read_decimal (str_json raw) of Inl _ \<Rightarrow> None | Inr x \<Rightarrow> Some x)"

text \<open>\<open>(entry.get("c") or [None])[0]\<close>.\<close>

definition last_trade :: "json \<Rightarrow> json result" where
  "last_trade entry =
     rbind (get entry ''c'' JNull) (\<lambda>c.
       if \<not> truthy c then Inr JNull
       else (case c of
               JList (x # _) \<Rightarrow> Inr x
             | JStr (x # _) \<Rightarrow> Inr (JStr [x])
             | JObj kvs \<Rightarrow> Inl (KeyError ''0'')
             | _ \<Rightarrow> Inl TypeError))"

definition parse_prices :: "json \<Rightarrow> dec dict result" where
  "parse_prices raw =
     rbind (items raw) (\<lambda>kvs.
     rbind (rmap (\<lambda>(name, entry). rbind (last_trade entry) (\<lambda>x. Inr (name, decimal_of x))) kvs) (\<lambda>read.
       Inr (List.map_filter (\<lambda>(name, p). map_option (Pair name) p) read)))"

definition ticker :: "'s client \<Rightarrow> string list \<Rightarrow> ('s, dec dict option) act" where
  "ticker c pairs =
     bind (public_call c (Ticker pairs)) (\<lambda>raw. lift_result (on_answer raw parse_prices))"

text \<open>\<open>isinstance(entry, dict) and entry.get(key)\<close>, as the value found or null.\<close>

fun field :: "json \<Rightarrow> string \<Rightarrow> json" where
  "field (JObj kvs) k = (case map_of kvs k of None \<Rightarrow> JNull | Some v \<Rightarrow> v)"
| "field _ k = JNull"

definition parse_names :: "json \<Rightarrow> string dict result" where
  "parse_names raw =
     rbind (items raw) (\<lambda>kvs.
       Inr (List.map_filter (\<lambda>(name, entry).
              if truthy (field entry ''altname'') then Some (name, str_json (field entry ''altname'')) else None) kvs))"

definition assets :: "'s client \<Rightarrow> ('s, string dict option) act" where
  "assets c = bind (public_call c Assets) (\<lambda>raw. lift_result (on_answer raw parse_names))"

text \<open>A comprehension whose keys may repeat: the last value stays, in the first one's place.\<close>

definition parse_decimals :: "json \<Rightarrow> int dict result" where
  "parse_decimals raw =
     rbind (items raw) (\<lambda>kvs.
     rbind (rmap (\<lambda>(name, entry). rbind (int_json (field entry ''decimals'')) (\<lambda>n.
               Inr (str_json (field entry ''altname''), n)))
             (filter (\<lambda>(name, entry). truthy (field entry ''altname'') \<and> field entry ''decimals'' \<noteq> JNull) kvs)) (\<lambda>read.
       Inr (foldl (\<lambda>d (k, n). AList.update k n d) [] read)))"

definition asset_decimals :: "'s client \<Rightarrow> ('s, int dict option) act" where
  "asset_decimals c = bind (public_call c Assets) (\<lambda>raw. lift_result (on_answer raw parse_decimals))"

section \<open>exchange/client.py: private data\<close>

definition api_key_info :: "'s client \<Rightarrow> ('s, json option) act" where
  "api_key_info c = private_call c GetApiKeyInfo True"

definition parse_balances :: "json \<Rightarrow> dec dict result" where
  "parse_balances raw =
     rbind (items raw) (\<lambda>kvs.
       Inr (List.map_filter (\<lambda>(asset, amount). map_option (Pair asset) (decimal_of amount)) kvs))"

definition balance :: "'s client \<Rightarrow> ('s, dec dict option) act" where
  "balance c = bind (private_call c Balance False) (\<lambda>raw. lift_result (on_answer raw parse_balances))"

text \<open>What became of one \<open>AddOrder\<close>, from the outcome of its call.\<close>

definition placement_of :: "bool \<Rightarrow> failure + json \<Rightarrow> placement" where
  "placement_of validate outcome =
     (case outcome of
        Inl Secret_Unreadable \<Rightarrow>
          \<lparr>pl_outcome = REFUSED, pl_txid = None, pl_error = Some ''the secret does not decode''\<rparr>
      | Inl (Kraken_Error errors) \<Rightarrow>
          if is_definitive_refusal errors
          then \<lparr>pl_outcome = REFUSED, pl_txid = None, pl_error = Some (hd errors)\<rparr>
          else \<lparr>pl_outcome = UNKNOWN, pl_txid = None, pl_error = None\<rparr>
      | Inl Other_Failure \<Rightarrow> \<lparr>pl_outcome = UNKNOWN, pl_txid = None, pl_error = None\<rparr>
      | Inr result \<Rightarrow>
          if validate then \<lparr>pl_outcome = VALIDATED, pl_txid = None, pl_error = None\<rparr>
          else (case field result ''txid'' of
                  JList (txid # _) \<Rightarrow>
                    \<lparr>pl_outcome = SENT, pl_txid = Some (str_json txid), pl_error = None\<rparr>
                | _ \<Rightarrow> \<lparr>pl_outcome = UNKNOWN, pl_txid = None, pl_error = None\<rparr>))"

definition add_order ::
  "'s client \<Rightarrow> string \<Rightarrow> string \<Rightarrow> dec \<Rightarrow> string \<Rightarrow> bool \<Rightarrow> bool \<Rightarrow> ('s, placement) act" where
  "add_order c pair side volume cl_ord_id in_quote validate =
     (if in_quote \<and> side \<noteq> ''buy''
      then throw (ValueError ''kraken takes an amount in the quote currency for buys only'')
      else bind (call_private c (AddOrder
             \<lparr>ao_pair = pair, ao_type = side, ao_ordertype = ''market'', ao_volume = volume,
              ao_cl_ord_id = cl_ord_id,
              ao_oflags = (if in_quote then Some ''viqc,fcib''
                           else if side = ''sell'' then Some ''fciq'' else None),
              ao_validate = validate\<rparr>)) (\<lambda>outcome. ret (placement_of validate outcome)))"

text \<open>\<open>None if raw is None else raw.get("open", {})\<close>; a null there is Python's None.\<close>

definition orders_of :: "json option \<Rightarrow> string \<Rightarrow> json option result" where
  "orders_of raw key =
     (case raw of
        None \<Rightarrow> Inr None
      | Some r \<Rightarrow> rbind (get r key (JObj [])) (\<lambda>os. Inr (if os = JNull then None else Some os)))"

definition open_orders :: "'s client \<Rightarrow> string option \<Rightarrow> ('s, json option) act" where
  "open_orders c cl_ord_id =
     bind (private_call c (OpenOrders cl_ord_id) False)
       (\<lambda>raw. lift_result (orders_of raw ''open''))"

definition closed_orders :: "'s client \<Rightarrow> string option \<Rightarrow> ('s, json option) act" where
  "closed_orders c cl_ord_id =
     bind (private_call c (ClosedOrders cl_ord_id) False)
       (\<lambda>raw. lift_result (orders_of raw ''closed''))"

fun is_obj :: "json \<Rightarrow> bool" where
  "is_obj (JObj kvs) = True"
| "is_obj _ = False"

definition query_orders :: "'s client \<Rightarrow> string \<Rightarrow> ('s, json dict option) act" where
  "query_orders c txid =
     bind (private_call c (QueryOrders txid) False)
       (\<lambda>raw. lift_result (on_answer raw (\<lambda>r. rbind (items r) (\<lambda>kvs.
          Inr (filter (\<lambda>(name, entry). is_obj entry) kvs)))))"

section \<open>exchange/orders.py: lookups\<close>

text \<open>What one endpoint says of a client id: found, unresolved, or evidence of absence.\<close>

definition judge_orders :: "json option \<Rightarrow> string \<Rightarrow> order_lookup option \<times> bool \<Rightarrow> (order_lookup option \<times> bool) result" where
  "judge_orders orders cl_ord_id acc =
     (case orders of
        None \<Rightarrow> Inr (None, True)
      | Some os \<Rightarrow>
          if \<not> truthy os then Inr acc
          else rbind (items os) (\<lambda>kvs. rbind (match_order kvs cl_ord_id) (\<lambda>found.
                 case found of Some l \<Rightarrow> Inr (Some l, snd acc) | None \<Rightarrow> Inr (None, True))))"

definition ask_endpoint ::
  "('s, json option) act \<Rightarrow> string \<Rightarrow> bool \<Rightarrow> ('s, order_lookup option \<times> bool) act" where
  "ask_endpoint fetch cl_ord_id unresolved =
     bind fetch (\<lambda>orders. lift_result (judge_orders orders cl_ord_id (None, unresolved)))"

text \<open>The loop over the two endpoints; the second is asked only when the first found nothing.\<close>

definition find_order_by_cl_ord_id :: "'s client \<Rightarrow> string \<Rightarrow> ('s, order_lookup option) act" where
  "find_order_by_cl_ord_id c cl_ord_id =
     bind (ask_endpoint (open_orders c (Some cl_ord_id)) cl_ord_id False) (\<lambda>first.
       case first of
         (Some l, _) \<Rightarrow> ret (Some l)
       | (None, unresolved) \<Rightarrow>
           bind (ask_endpoint (closed_orders c (Some cl_ord_id)) cl_ord_id unresolved) (\<lambda>second.
             case second of
               (Some l, _) \<Rightarrow> ret (Some l)
             | (None, unresolved') \<Rightarrow> ret (if unresolved' then None else Some ABSENT)))"

definition find_order_by_txid :: "'s client \<Rightarrow> string \<Rightarrow> ('s, order_lookup option) act" where
  "find_order_by_txid c txid =
     bind (query_orders c txid) (\<lambda>orders.
       case orders of
         None \<Rightarrow> ret None
       | Some kvs \<Rightarrow>
           (case map_of kvs txid of
              None \<Rightarrow> ret None
            | Some order \<Rightarrow> bind (lift_result (lookup_order txid order)) (\<lambda>l. ret (Some l))))"

section \<open>exchange/keys.py\<close>

definition REQUIRED_PERMISSIONS :: "string list" where
  "REQUIRED_PERMISSIONS = [''query-funds'', ''modify-trades'', ''query-open-trades'', ''query-closed-trades'']"

definition FORBIDDEN :: "string list" where
  "FORBIDDEN = [''withdraw-funds'', ''add-withdraw-address'', ''update-withdraw-address'']"

definition sorted_set :: "string list \<Rightarrow> string list" where
  "sorted_set xs = sort (remdups xs)"

definition refused :: "key_rejection \<Rightarrow> key_validation" where
  "refused rejection =
     \<lparr>kv_accepted = False, kv_rejection = Some rejection, kv_permissions = [], kv_missing = [],
      kv_forbidden = [], kv_ip_allowlist = [], kv_unnecessary = []\<rparr>"

definition judge_key :: "json \<Rightarrow> key_validation result" where
  "judge_key info =
     rbind (rbind (get info ''permissions'' (JList [])) iterate) (\<lambda>permissions.
     rbind (rbind (get info ''ipAllowlist'' (JList [])) iterate) (\<lambda>ips.
       let granted = map str_json permissions;
           missing = sorted_set (filter (\<lambda>p. p \<notin> set granted) REQUIRED_PERMISSIONS);
           forbidden = sorted_set (filter (\<lambda>p. p \<in> set granted) FORBIDDEN);
           unnecessary = sorted_set (filter (\<lambda>p. p \<notin> set REQUIRED_PERMISSIONS \<and> p \<notin> set FORBIDDEN) granted);
           rejection = (if forbidden \<noteq> [] then Some FORBIDDEN_PERMISSIONS
                        else if missing \<noteq> [] then Some MISSING_PERMISSIONS else None)
       in Inr \<lparr>kv_accepted = (rejection = None), kv_rejection = rejection,
               kv_permissions = sorted_set granted, kv_missing = missing, kv_forbidden = forbidden,
               kv_ip_allowlist = map str_json ips, kv_unnecessary = unnecessary\<rparr>))"

definition validate_key :: "'s client \<Rightarrow> ('s, key_validation) act" where
  "validate_key c =
     bind (try_except (bind (api_key_info c) (\<lambda>info. ret (Inr info)))
        (\<lambda>e. case e of
               KeyRefused \<Rightarrow> Some (ret (Inl (refused INVALID_KEY)))
             | KeyLockedOut \<Rightarrow> Some (ret (Inl (refused LOCKED_OUT)))
             | _ \<Rightarrow> None)) (\<lambda>read.
       case read of
         Inl v \<Rightarrow> ret v
       | Inr None \<Rightarrow> ret (refused UNREACHABLE)
       | Inr (Some info) \<Rightarrow> lift_result (judge_key info))"

lemma sorted_set_Nil [simp]: "sorted_set xs = [] \<longleftrightarrow> xs = []"
proof -
  have "set (sorted_set xs) = set xs" by (simp add: sorted_set_def)
  then show ?thesis by (metis set_empty)
qed

section \<open>Actions that leave the outcome to the answer\<close>

lemma bind_InrE:
  assumes "bind m f s = (Inr b, s')"
  obtains a s1 where "m s = (Inr a, s1)" "f a s1 = (Inr b, s')"
  using assms by (auto simp: bind_def split: prod.splits sum.splits)

lemma lift_result_eq [simp]: "lift_result r s = (r', s') \<longleftrightarrow> r' = r \<and> s' = s"
  by (auto simp: lift_result_def)

lemma ret_eq [simp]: "ret a s = (r, s') \<longleftrightarrow> r = Inr a \<and> s' = s"
  by (auto simp: ret_def)

lemma lookup_order_txid: "lookup_order txid order = Inr l \<Longrightarrow> lk_txid l = Some txid"
  by (auto simp: lookup_order_def result_simps)

lemma match_order_Some:
  assumes "match_order kvs cid = Inr (Some l)"
  shows "\<exists>txid order. (txid, order) \<in> set kvs \<and> get order ''cl_ord_id'' JNull = Inr (JStr cid) \<and>
     lookup_order txid order = Inr l"
  using assms
proof (induction kvs)
  case (Cons kv kvs)
  obtain txid order where kv: "kv = (txid, order)" by (cases kv)
  with Cons show ?case by (auto simp: result_simps split: if_splits)
qed simp

text \<open>What one fetched endpoint shows: an entry that echoes the client id.\<close>

definition echoes :: "json \<Rightarrow> string \<Rightarrow> order_lookup \<Rightarrow> bool" where
  "echoes os cid l \<longleftrightarrow>
     (\<exists>kvs txid order. os = JObj kvs \<and> (txid, order) \<in> set kvs \<and>
        get order ''cl_ord_id'' JNull = Inr (JStr cid) \<and> lookup_order txid order = Inr l)"

lemma items_Inr: "items j = Inr kvs \<longleftrightarrow> j = JObj kvs"
  by (cases j) auto

lemma judge_orders_cases:
  assumes "judge_orders os cid (None, u) = Inr (f, u')"
  shows "(\<exists>l j. f = Some l \<and> os = Some j \<and> echoes j cid l) \<or>
         (f = None \<and> (if \<exists>j. os = Some j \<and> \<not> truthy j then u' = u else u'))"
proof (cases os)
  case (Some j)
  show ?thesis
  proof (cases "truthy j")
    case True
    with assms Some obtain kvs found where k: "j = JObj kvs" "match_order kvs cid = Inr found"
      "(f, u') = (case found of Some l \<Rightarrow> (Some l, u) | None \<Rightarrow> (None, True))"
      by (auto simp: judge_orders_def result_simps items_Inr split: option.splits)
    show ?thesis
    proof (cases found)
      case None
      then show ?thesis using k Some True by simp
    next
      case (Some l)
      then have "echoes j cid l" using k match_order_Some [of kvs cid l] by (auto simp: echoes_def)
      then show ?thesis using k Some \<open>os = Some j\<close> by simp
    qed
  qed (use assms Some in \<open>auto simp: judge_orders_def\<close>)
qed (use assms in \<open>auto simp: judge_orders_def\<close>)

lemma ask_endpointE:
  assumes "ask_endpoint fetch cid u s = (Inr fu, s')"
  obtains os where "fetch s = (Inr os, s')" "judge_orders os cid (None, u) = Inr fu"
proof -
  obtain os s1 where "fetch s = (Inr os, s1)" "lift_result (judge_orders os cid (None, u)) s1 = (Inr fu, s')"
    using assms unfolding ask_endpoint_def by (rule bind_InrE)
  then show thesis using that by simp
qed

lemma echoes_txid: "echoes j cid l \<Longrightarrow> lk_txid l \<noteq> None"
  by (auto simp: echoes_def dest: lookup_order_txid)

text \<open>The second endpoint, asked when the first named no order.\<close>

lemma second_endpoint:
  assumes "bind (ask_endpoint fetch cid u) (\<lambda>second.
      case second of (Some l, _) \<Rightarrow> ret (Some l)
      | (None, unresolved) \<Rightarrow> ret (if unresolved then None else Some ABSENT)) s = (Inr (Some l), s')"
  shows "\<exists>os. fetch s = (Inr os, s') \<and>
    (case lk_txid l of Some _ \<Rightarrow> (\<exists>j. os = Some j \<and> echoes j cid l)
     | None \<Rightarrow> l = ABSENT \<and> \<not> u \<and> (\<exists>j. os = Some j \<and> \<not> truthy j))"
proof -
  from assms obtain fu s2 where b: "ask_endpoint fetch cid u s = (Inr fu, s2)"
    and ends: "(case fu of (Some l, _) \<Rightarrow> ret (Some l)
           | (None, unresolved) \<Rightarrow> ret (if unresolved then None else Some ABSENT)) s2 = (Inr (Some l), s')"
    by (rule bind_InrE)
  obtain f u' where fu: "fu = (f, u')" by (cases fu)
  have s2: "s2 = s'" and l: "(case f of Some l' \<Rightarrow> l' = l | None \<Rightarrow> \<not> u' \<and> l = ABSENT)"
    using ends fu by (auto split: option.splits if_splits)
  obtain os where 2: "fetch s = (Inr os, s')" and j: "judge_orders os cid (None, u) = Inr (f, u')"
    using b unfolding fu s2 by (rule ask_endpointE)
  show ?thesis
  proof (cases f)
    case (Some l')
    then obtain j where j: "os = Some j" "echoes j cid l" using judge_orders_cases [OF j] l by auto
    then obtain t where "lk_txid l = Some t" using echoes_txid [of j cid l] by auto
    with 2 j show ?thesis by auto
  next
    case None
    then have "\<not> u'" "l = ABSENT" using l by (auto split: if_splits)
    moreover from this(1) have "\<exists>j. os = Some j \<and> \<not> truthy j" "\<not> u"
      using judge_orders_cases [OF j] None by (auto split: if_splits)
    ultimately show ?thesis using 2 by (auto simp: ABSENT_def)
  qed
qed

text \<open>
  C29: an order is reported absent only on evidence. Resolving a client id ends in an order
  only if one of the two endpoints listed it with that very id; it ends in ABSENT only if both
  endpoints answered and both listed nothing. A failed call, or rows that do not echo the id,
  leave the outcome unknown.
\<close>

theorem absence_is_evidence:
  assumes "find_order_by_cl_ord_id c cid s = (Inr (Some l), s')"
  shows "(\<exists>os s1. open_orders c (Some cid) s = (Inr os, s1) \<and>
            (\<exists>j. os = Some j \<and> echoes j cid l) \<and> lk_txid l \<noteq> None) \<or>
         (\<exists>os s1 os'. open_orders c (Some cid) s = (Inr os, s1) \<and> closed_orders c (Some cid) s1 = (Inr os', s') \<and>
            (case lk_txid l of
               Some _ \<Rightarrow> (\<exists>j. os' = Some j \<and> echoes j cid l)
             | None \<Rightarrow> l = ABSENT \<and> (\<exists>j j'. os = Some j \<and> \<not> truthy j \<and> os' = Some j' \<and> \<not> truthy j')))"
proof -
  obtain fu s1 where a: "ask_endpoint (open_orders c (Some cid)) cid False s = (Inr fu, s1)"
    and rest: "(case fu of (Some l, _) \<Rightarrow> ret (Some l) | (None, unresolved) \<Rightarrow>
           bind (ask_endpoint (closed_orders c (Some cid)) cid unresolved) (\<lambda>second.
             case second of (Some l, _) \<Rightarrow> ret (Some l)
             | (None, unresolved') \<Rightarrow> ret (if unresolved' then None else Some ABSENT))) s1 = (Inr (Some l), s')"
    using assms unfolding find_order_by_cl_ord_id_def by (rule bind_InrE)
  obtain f u where fu: "fu = (f, u)" by (cases fu)
  obtain os where 1: "open_orders c (Some cid) s = (Inr os, s1)"
    and j: "judge_orders os cid (None, False) = Inr (f, u)"
    using a unfolding fu by (rule ask_endpointE)
  show ?thesis
  proof (cases f)
    case (Some l')
    then have "l' = l" using rest fu by simp
    moreover obtain j where "os = Some j" "echoes j cid l'"
      using judge_orders_cases [OF j] Some by auto
    ultimately show ?thesis using 1 echoes_txid [of j cid l] by auto
  next
    case None
    from second_endpoint [of "closed_orders c (Some cid)" cid u s1 l s'] rest None fu
    obtain os' where 2: "closed_orders c (Some cid) s1 = (Inr os', s')"
      and l: "case lk_txid l of Some _ \<Rightarrow> (\<exists>j. os' = Some j \<and> echoes j cid l)
        | None \<Rightarrow> l = ABSENT \<and> \<not> u \<and> (\<exists>j. os' = Some j \<and> \<not> truthy j)" by auto
    have "\<not> u \<longrightarrow> (\<exists>j. os = Some j \<and> \<not> truthy j)"
      using judge_orders_cases [OF j] None by (auto split: if_splits)
    then show ?thesis using 1 2 l by (auto split: option.splits)
  qed
qed

text \<open>A client whose endpoints always answer with these two bodies.\<close>

definition sample_client :: "json \<Rightarrow> json \<Rightarrow> unit client" where
  "sample_client opn clsd =
     \<lparr>cl_credentials = Some \<lparr>api_key = ''key'', api_secret = ''c2VjcmV0''\<rparr>,
      cl_send = (\<lambda>who r. ret (case r of
          OpenOrders _ \<Rightarrow> Body (JObj [(''error'', JList []), (''result'', JObj [(''open'', opn)])])
        | ClosedOrders _ \<Rightarrow> Body (JObj [(''error'', JList []), (''result'', JObj [(''closed'', clsd)])])
        | _ \<Rightarrow> NoAnswer))\<rparr>"

lemma sample_absence:
  "find_order_by_cl_ord_id (sample_client (JObj []) (JObj [])) ''id'' () = (Inr (Some ABSENT), ())"
  by code_simp

theorem absence_is_evidence_witness:
  "find_order_by_cl_ord_id (sample_client (JObj []) (JObj [])) ''id'' () = (Inr (Some ABSENT), ()) \<and>
   find_order_by_cl_ord_id (sample_client (JObj [(''T'', JObj [(''cl_ord_id'', JStr ''other'')])]) (JObj [])) ''id'' ()
     = (Inr None, ()) \<and>
   (\<exists>os. open_orders (sample_client (JObj []) (JObj [])) (Some ''id'') () = (Inr os, ()))"
proof -
  have "find_order_by_cl_ord_id (sample_client (JObj [(''T'', JObj [(''cl_ord_id'', JStr ''other'')])]) (JObj [])) ''id'' ()
     = (Inr None, ())" by code_simp
  then show ?thesis using absence_is_evidence [OF sample_absence] sample_absence by auto
qed

text \<open>
  A key is accepted only if Kraken listed its permissions, all that the platform needs are
  granted, and none that could move money out, or prepare it, is. Any failure to read the key
  rejects it.
\<close>

theorem accepted_key_permissions:
  assumes "validate_key c s = (Inr v, s')" "kv_accepted v"
  shows "\<exists>info permissions. api_key_info c s = (Inr (Some info), s') \<and>
     rbind (get info ''permissions'' (JList [])) iterate = Inr permissions \<and>
     set REQUIRED_PERMISSIONS \<subseteq> set (map str_json permissions) \<and>
     set FORBIDDEN \<inter> set (map str_json permissions) = {}"
proof -
  obtain read s1 where r: "try_except (bind (api_key_info c) (\<lambda>info. ret (Inr info)))
        (\<lambda>e. case e of KeyRefused \<Rightarrow> Some (ret (Inl (refused INVALID_KEY)))
             | KeyLockedOut \<Rightarrow> Some (ret (Inl (refused LOCKED_OUT))) | _ \<Rightarrow> None) s = (Inr read, s1)"
    and v: "(case read of Inl v \<Rightarrow> ret v | Inr None \<Rightarrow> ret (refused UNREACHABLE)
         | Inr (Some info) \<Rightarrow> lift_result (judge_key info)) s1 = (Inr v, s')"
    using assms(1) unfolding validate_key_def by (rule bind_InrE)
  have rejected: "\<not> kv_accepted (refused x)" for x by (simp add: refused_def)
  consider (read) info where "read = Inr (Some info)" | (not) v' where "read = Inl v'" | (none) "read = Inr None"
    by (metis option.exhaust sum.exhaust)
  then show ?thesis
  proof cases
    case read
    have "api_key_info c s = (Inr (Some info), s1)"
      using r read by (auto simp: try_except_def bind_def ret_def split: prod.splits sum.splits exn.splits)
    moreover have "judge_key info = Inr v" "s' = s1" using v read by auto
    ultimately show ?thesis using assms(2)
      by (auto simp: judge_key_def result_simps Let_def filter_empty_conv split: if_splits)
  next
    case not
    then have "v' = v" using v by simp
    moreover have "\<exists>x. v' = refused x"
      using r not by (auto simp: try_except_def bind_def ret_def split: prod.splits sum.splits exn.splits)
    ultimately show ?thesis using assms(2) rejected by auto
  next
    case none
    then show ?thesis using v assms(2) rejected by auto
  qed
qed

definition sample_key_client :: "string list \<Rightarrow> unit client" where
  "sample_key_client permissions =
     \<lparr>cl_credentials = Some \<lparr>api_key = ''key'', api_secret = ''c2VjcmV0''\<rparr>,
      cl_send = (\<lambda>who r. ret (Body (JObj [(''result'', JObj [(''permissions'', JList (map JStr permissions))])])))\<rparr>"

lemma sample_key:
  "validate_key (sample_key_client (''earn'' # REQUIRED_PERMISSIONS)) () =
     (Inr \<lparr>kv_accepted = True, kv_rejection = None,
           kv_permissions = [''earn'', ''modify-trades'', ''query-closed-trades'', ''query-funds'', ''query-open-trades''],
           kv_missing = [], kv_forbidden = [], kv_ip_allowlist = [], kv_unnecessary = [''earn'']\<rparr>, ())"
  by code_simp

theorem accepted_key_permissions_witness:
  "(\<exists>info. api_key_info (sample_key_client (''earn'' # REQUIRED_PERMISSIONS)) () = (Inr (Some info), ())) \<and>
   kv_rejection (projr (fst (validate_key (sample_key_client (''withdraw-funds'' # REQUIRED_PERMISSIONS)) ())))
     = Some FORBIDDEN_PERMISSIONS"
proof -
  have "kv_rejection (projr (fst (validate_key (sample_key_client (''withdraw-funds'' # REQUIRED_PERMISSIONS)) ())))
     = Some FORBIDDEN_PERMISSIONS" by code_simp
  then show ?thesis using accepted_key_permissions [OF sample_key] by auto
qed

text \<open>
  A read of the balance never raises because the network or Kraken failed: it gives None.
  The one exception that escapes is for an answer without errors whose result is neither an
  object nor null, which Python cannot iterate.
\<close>

theorem balance_failures:
  assumes "cl_credentials c = Some k" "cl_send c (Some k) Balance s = (Inr a, s')"
  shows "\<exists>r. balance c s = (r, s') \<and>
     (r = Inl AttributeError \<longleftrightarrow> (\<exists>j. called a = Inr j \<and> j \<noteq> JNull \<and> \<not> is_obj j)) \<and>
     (\<forall>e. r = Inl e \<longrightarrow> e = AttributeError) \<and>
     (r = Inr None \<longleftrightarrow> called a = Inr JNull \<or> (\<exists>f. called a = Inl f))"
proof -
  have "balance c s = (rbind (safely False (called a)) (\<lambda>raw. on_answer raw parse_balances), s')"
    using assms by (auto simp: balance_def private_call_def call_private_def bind_def ret_def lift_result_def
        split: sum.splits)
  moreover have "called a = Inr j \<Longrightarrow> safely False (called a) = Inr (if j = JNull then None else Some j)" for j
    by (cases j) (auto simp: safely_def)
  moreover have "called a = Inl f \<Longrightarrow> safely False (called a) = Inr None" for f
    by (cases f) (auto simp: safely_def)
  moreover have "parse_balances j = Inl AttributeError" if "\<not> is_obj j" for j
    using that by (cases j) (auto simp: parse_balances_def)
  moreover have "\<exists>d. parse_balances j = Inr d" if "is_obj j" for j
    using that by (cases j) (auto simp: parse_balances_def)
  ultimately show ?thesis
    by (cases "called a"; cases "is_obj (projr (called a))") (fastforce simp: on_answer_def split: if_splits)+
qed

theorem balance_failures_witness:
  "balance (sample_client JNull JNull) () = (Inr None, ()) \<and>
   fst (balance (sample_client JNull JNull \<lparr>cl_send := (\<lambda>who r. ret (Body (JObj [(''result'', JList [])])))\<rparr>) ())
     = Inl AttributeError"
  using balance_failures [of "sample_client JNull JNull" "\<lparr>api_key = ''key'', api_secret = ''c2VjcmV0''\<rparr>" "()" NoAnswer "()"]
    balance_failures [of "sample_client JNull JNull \<lparr>cl_send := (\<lambda>who r. ret (Body (JObj [(''result'', JList [])])))\<rparr>"
      "\<lparr>api_key = ''key'', api_secret = ''c2VjcmV0''\<rparr>" "()" "Body (JObj [(''result'', JList [])])" "()"]
  by (auto simp: sample_client_def ret_def unwrap_def result_simps is_error_def)

end
