(* ===== verification/Portfolio.thy ===== *)
theory Portfolio
  imports Engine Kraken_Client
begin

text \<open>
  Asset names and pairs (\<open>core/markets.py\<close>), the view of an account
  (\<open>core/portfolio.py\<close>), and the reads that a view needs (\<open>core/reading.py\<close>). Upper case
  and trimming are those of ASCII, the alphabet of Kraken's names.
\<close>

section \<open>core/markets.py\<close>

definition TRADABLE_SUFFIXES :: "string list" where
  "TRADABLE_SUFFIXES = [[], ''F'']"

definition DARK_POOL_SUFFIX :: string where
  "DARK_POOL_SUFFIX = ''.d''"

definition SUPPORTED_FIATS :: "string list" where
  "SUPPORTED_FIATS = [''AUD'', ''CAD'', ''CHF'', ''EUR'', ''GBP'', ''JPY'', ''USD'']"

definition upper_char :: "char \<Rightarrow> char" where
  "upper_char c = (let n = of_char c :: nat in if 97 \<le> n \<and> n \<le> 122 then char_of (n - 32) else c)"

definition upper :: "string \<Rightarrow> string" where
  "upper s = map upper_char s"

definition is_space :: "char \<Rightarrow> bool" where
  "is_space c \<longleftrightarrow> (let n = of_char c :: nat in n = 32 \<or> (9 \<le> n \<and> n \<le> 13) \<or> (28 \<le> n \<and> n \<le> 31))"

definition strip :: "string \<Rightarrow> string" where
  "strip s = rev (dropWhile is_space (rev (dropWhile is_space s)))"

definition short_name :: "string \<Rightarrow> string dict \<Rightarrow> string option" where
  "short_name code asset_names =
     (let wanted = upper (strip code)
      in if wanted = [] then None
         else map_option (\<lambda>(internal, short). upper short)
                (find (\<lambda>(internal, short). wanted = upper internal \<or> wanted = upper short) asset_names))"

definition kraken_key :: "string \<Rightarrow> string dict \<Rightarrow> string option" where
  "kraken_key short asset_names =
     (let wanted = upper (strip short)
      in map_option fst (find (\<lambda>(internal, name). upper name = wanted) asset_names))"

definition split_balance_key :: "string \<Rightarrow> string dict \<Rightarrow> string \<times> string" where
  "split_balance_key key asset_names =
     (let b = takeWhile (\<lambda>c. c \<noteq> CHR ''.'') key; sfx = drop (Suc (length b)) key;
          name = (case short_name b asset_names of None \<Rightarrow> [] | Some n \<Rightarrow> n)
      in (if name = [] then upper b else name, sfx))"

definition resolve_pair ::
  "string \<Rightarrow> string \<Rightarrow> string dict \<Rightarrow> pair_meta dict \<Rightarrow> pair_meta option" where
  "resolve_pair asset fiat asset_names pairs =
     (case (kraken_key asset asset_names, kraken_key fiat asset_names) of
        (Some b, Some q) \<Rightarrow>
          if b = q then None
          else map_option snd (find (\<lambda>(name, meta). \<not> suffix DARK_POOL_SUFFIX name \<and>
                 base meta = b \<and> quote meta = q \<and> tradable meta) (sort_key fst pairs))
      | _ \<Rightarrow> None)"

section \<open>core/portfolio.py\<close>

record holding =
  hd_asset :: string
  hd_amount :: dec
  hd_price :: "dec option"
  hd_value :: "dec option"
  hd_managed :: bool
  hd_locked :: bool
  hd_target_pct :: "dec option"
  hd_weight_pct :: "dec option"

record portfolio_view =
  pv_fiat :: string
  pv_cash :: dec
  pv_cash_target_pct :: dec
  pv_cash_weight_pct :: dec
  pv_managed_value :: dec
  pv_holdings :: "holding list"

definition unpriced :: "portfolio_view \<Rightarrow> string list" where
  "unpriced v = map hd_asset (filter (\<lambda>h. hd_managed h \<and> hd_price h = None) (pv_holdings v))"

text \<open>The loop over the balances: the amounts that can be traded, and the locked ones, by label.\<close>

definition add_amount :: "string \<Rightarrow> dec \<Rightarrow> dec dict \<Rightarrow> dec dict" where
  "add_amount k amount d =
     AList.update k (dadd (case map_of d k of None \<Rightarrow> 0 | Some x \<Rightarrow> x) amount) d"

fun split_balances :: "string dict \<Rightarrow> dec dict \<Rightarrow> dec dict \<Rightarrow> dec dict \<Rightarrow> dec dict \<times> dec dict" where
  "split_balances asset_names [] can locked = (can, locked)"
| "split_balances asset_names ((key, amount) # rest) can locked =
     (case split_balance_key key asset_names of (name, sfx) \<Rightarrow>
        if sfx \<in> set TRADABLE_SUFFIXES
        then split_balances asset_names rest (add_amount name amount can) locked
        else split_balances asset_names rest can (add_amount (name @ ''.'' @ sfx) amount locked))"

text \<open>The three kinds of holding, in the order the view lists them.\<close>

definition managed_holding ::
  "dec dict \<Rightarrow> (string \<rightharpoonup> dec) \<Rightarrow> valuation \<Rightarrow> dec dict \<Rightarrow> string \<Rightarrow> holding" where
  "managed_holding can prices v targets asset =
     \<lparr>hd_asset = asset, hd_amount = (case map_of can asset of None \<Rightarrow> 0 | Some x \<Rightarrow> x),
      hd_price = prices asset, hd_value = map_of (asset_values v) asset,
      hd_managed = True, hd_locked = False, hd_target_pct = map_of targets asset,
      hd_weight_pct = map_of (weights v) asset\<rparr>"

definition unmanaged_holding :: "(string \<rightharpoonup> dec) \<Rightarrow> string \<times> dec \<Rightarrow> holding" where
  "unmanaged_holding prices entry =
     \<lparr>hd_asset = fst entry, hd_amount = snd entry, hd_price = prices (fst entry),
      hd_value = map_option (\<lambda>price. dmul (snd entry) price) (prices (fst entry)),
      hd_managed = False, hd_locked = False, hd_target_pct = None, hd_weight_pct = None\<rparr>"

definition locked_holding :: "string \<times> dec \<Rightarrow> holding" where
  "locked_holding entry =
     \<lparr>hd_asset = fst entry, hd_amount = snd entry, hd_price = None, hd_value = None,
      hd_managed = False, hd_locked = True, hd_target_pct = None, hd_weight_pct = None\<rparr>"

definition build_view ::
  "dec dict \<Rightarrow> string dict \<Rightarrow> string \<Rightarrow> dec dict \<Rightarrow> (string \<rightharpoonup> dec) \<Rightarrow> portfolio_view result" where
  "build_view balances asset_names fiat targets prices =
     (case split_balances asset_names balances [] [] of (all, locked) \<Rightarrow>
        let cash = (case map_of all fiat of None \<Rightarrow> 0 | Some x \<Rightarrow> x);
            can = AList.delete fiat all;
            priced = filter (\<lambda>(asset, pct). prices asset \<noteq> None) targets
        in rbind (value_portfolio (map_of can) prices priced cash) (\<lambda>v. Inr
          \<lparr>pv_fiat = fiat, pv_cash = cash, pv_cash_target_pct = dsub HUNDRED (dsum (map snd targets)),
           pv_cash_weight_pct = cash_weight v, pv_managed_value = managed_value v,
           pv_holdings =
             map (managed_holding can prices v targets) (sort (map fst targets)) @
             map (unmanaged_holding prices)
               (sort_key fst (filter (\<lambda>(asset, amount). asset \<notin> fst ` set targets \<and> amount \<noteq> 0) can)) @
             map locked_holding (sort_key fst (filter (\<lambda>(label, amount). amount \<noteq> 0) locked))\<rparr>))"

lemma managed_flags [simp]:
  "hd_managed (managed_holding can prices v targets a)" "hd_asset (managed_holding can prices v targets a) = a"
  "hd_price (managed_holding can prices v targets a) = prices a"
  "\<not> hd_managed (unmanaged_holding prices e)" "\<not> hd_managed (locked_holding e)"
  by (simp_all add: managed_holding_def unmanaged_holding_def locked_holding_def)

text \<open>\<open>_pct\<close>: \<open>quantize\<close> with the context's rounding, half to even, and then two places.\<close>

definition pct_text :: "dec \<Rightarrow> string result" where
  "pct_text value = rbind (quantize ROUND_HALF_EVEN 2 value) (\<lambda>y. Inr (format_places 2 y))"

definition pct_json :: "dec option \<Rightarrow> json result" where
  "pct_json value =
     (case value of None \<Rightarrow> Inr JNull | Some x \<Rightarrow> rbind (pct_text x) (\<lambda>t. Inr (JStr t)))"

definition amount_json :: "dec option \<Rightarrow> json" where
  "amount_json value = (case value of None \<Rightarrow> JNull | Some x \<Rightarrow> JStr (plain_amount x))"

definition holding_json :: "holding \<Rightarrow> json result" where
  "holding_json h =
     rbind (pct_json (hd_target_pct h)) (\<lambda>target.
     rbind (pct_json (hd_weight_pct h)) (\<lambda>weight.
     Inr (JObj
       [(''amount'', amount_json (Some (hd_amount h))), (''price'', amount_json (hd_price h)),
        (''value'', amount_json (hd_value h)), (''managed'', JBool (hd_managed h)),
        (''locked'', JBool (hd_locked h)), (''target_pct'', target), (''weight_pct'', weight)])))"

definition snapshot_json :: "portfolio_view \<Rightarrow> json result" where
  "snapshot_json v =
     rbind (pct_json (Some (pv_cash_target_pct v))) (\<lambda>target.
     rbind (pct_json (Some (pv_cash_weight_pct v))) (\<lambda>weight.
     rbind (rmap (\<lambda>h. rbind (holding_json h) (\<lambda>j. Inr (hd_asset h, j))) (pv_holdings v)) (\<lambda>assets.
     Inr (JObj [(''cash_target_pct'', target), (''cash_weight_pct'', weight),
                (''assets'', JObj (foldl (\<lambda>d (k, j). AList.update k j d) [] assets))]))))"

section \<open>core/reading.py\<close>

record configured_asset =
  ca_asset :: string
  ca_pair :: string
  ca_target_pct :: dec

text \<open>The public side of the exchange as a view reads it.\<close>

record 's public_reads =
  pr_assets :: "('s, string dict option) act"
  pr_asset_pairs :: "('s, pair_meta dict option) act"
  pr_ticker :: "string list \<Rightarrow> ('s, dec dict option) act"

definition require :: "string \<Rightarrow> ('s, 'a option) act \<Rightarrow> ('s, 'a) act" where
  "require what m =
     bind m (\<lambda>r. case r of None \<Rightarrow> throw (PortfolioUnavailable what) | Some x \<Rightarrow> ret x)"

definition unmanaged_assets :: "dec dict \<Rightarrow> string dict \<Rightarrow> configured_asset list \<Rightarrow> string \<Rightarrow> string list" where
  "unmanaged_assets balances names configured fiat =
     sort (remdups (filter (\<lambda>name. name \<notin> set (map ca_asset configured) \<and> name \<noteq> fiat)
       (List.map_filter (\<lambda>(key, amount). case split_balance_key key names of (name, sfx) \<Rightarrow>
          if amount \<noteq> 0 \<and> sfx \<in> set TRADABLE_SUFFIXES then Some name else None) balances)))"

definition dict_of :: "(string \<times> 'v) list \<Rightarrow> 'v dict" where
  "dict_of kvs = foldl (\<lambda>d (k, v). AList.update k v d) [] kvs"

definition read_portfolio ::
  "'s public_reads \<Rightarrow> 's client \<Rightarrow> string \<Rightarrow> configured_asset list \<Rightarrow> ('s, portfolio_view) act" where
  "read_portfolio public private fiat configured =
     bind (require ''asset names'' (pr_assets public)) (\<lambda>names.
     bind (require ''balance'' (balance private)) (\<lambda>balances.
       let targets = dict_of (map (\<lambda>row. (ca_asset row, ca_target_pct row)) configured);
           pair_of = dict_of (map (\<lambda>row. (ca_asset row, ca_pair row)) configured);
           unmanaged = unmanaged_assets balances names configured fiat
       in bind (if unmanaged = [] then ret pair_of
                else bind (require ''asset pairs'' (pr_asset_pairs public)) (\<lambda>pairs.
                       ret (foldl (\<lambda>d asset. case resolve_pair asset fiat names pairs of
                              None \<Rightarrow> d | Some meta \<Rightarrow> AList.update asset (pm_pair meta) d) pair_of unmanaged))) (\<lambda>pair_of.
          bind (if pair_of = [] then ret []
                else require ''prices'' (pr_ticker public (sort (remdups (map snd pair_of))))) (\<lambda>quotes.
            let prices = List.map_filter (\<lambda>(asset, pair). map_option (Pair asset) (map_of quotes pair)) pair_of
            in lift_result (build_view balances names fiat targets (map_of prices))))))"

section \<open>Properties\<close>

text \<open>
  An asset resolves only to a pair that trades it against the fiat, accepts market orders,
  and is not a dark pool; and it resolves whenever there is one.
\<close>

theorem resolve_pair_sound:
  assumes "kraken_key asset names = Some b" "kraken_key fiat names = Some q" "b \<noteq> q"
  shows "(case resolve_pair asset fiat names pairs of
      Some m \<Rightarrow> (\<exists>name. (name, m) \<in> set pairs \<and> \<not> suffix DARK_POOL_SUFFIX name \<and>
          base m = b \<and> quote m = q \<and> tradable m)
    | None \<Rightarrow> \<not> (\<exists>name m. (name, m) \<in> set pairs \<and> \<not> suffix DARK_POOL_SUFFIX name \<and>
          base m = b \<and> quote m = q \<and> tradable m))"
proof (cases "find (\<lambda>(name, meta). \<not> suffix DARK_POOL_SUFFIX name \<and>
                 base meta = b \<and> quote meta = q \<and> tradable meta) (sort_key fst pairs)")
  case None
  then have "resolve_pair asset fiat names pairs = None" using assms by (simp add: resolve_pair_def)
  moreover have "\<not> (\<exists>name m. (name, m) \<in> set pairs \<and> \<not> suffix DARK_POOL_SUFFIX name \<and>
      base m = b \<and> quote m = q \<and> tradable m)"
    using None by (auto simp: find_None_iff)
  ultimately show ?thesis by simp
next
  case (Some x)
  then have "x \<in> set pairs" "(\<lambda>(name, meta). \<not> suffix DARK_POOL_SUFFIX name \<and>
                 base meta = b \<and> quote meta = q \<and> tradable meta) x"
    by (auto simp: find_Some_iff) (metis length_sort nth_mem set_sort)
  moreover have "resolve_pair asset fiat names pairs = Some (snd x)" using assms Some by (simp add: resolve_pair_def)
  ultimately show ?thesis by (cases x) auto
qed

definition sample_names :: "string dict" where
  "sample_names = [(''XXBT'', ''XBT''), (''ZEUR'', ''EUR'')]"

theorem resolve_pair_sound_witness:
  "resolve_pair ''xbt'' ''EUR'' sample_names [(''XBTEUR.d'', sample_meta), (''XXBTZEUR'', sample_meta)] = Some sample_meta \<and>
   base sample_meta = ''XXBT'' \<and> resolve_pair ''XBT'' ''EUR'' sample_names [(''XBTEUR.d'', sample_meta)] = None"
proof -
  have k: "kraken_key ''xbt'' sample_names = Some ''XXBT''" "kraken_key ''XBT'' sample_names = Some ''XXBT''"
    "kraken_key ''EUR'' sample_names = Some ''ZEUR''" by code_simp+
  have d: "suffix DARK_POOL_SUFFIX ''XBTEUR.d''" "\<not> suffix DARK_POOL_SUFFIX ''XXBTZEUR''"
    by (simp_all add: suffix_to_prefix DARK_POOL_SUFFIX_def)
  have m: "base sample_meta = ''XXBT''" "quote sample_meta = ''ZEUR''" "tradable sample_meta"
    by (simp_all add: sample_meta_def tradable_def)
  have "\<exists>m. resolve_pair ''xbt'' ''EUR'' sample_names [(''XBTEUR.d'', sample_meta), (''XXBTZEUR'', sample_meta)] = Some m \<and> m = sample_meta"
    using resolve_pair_sound [OF k(1,3), of "[(''XBTEUR.d'', sample_meta), (''XXBTZEUR'', sample_meta)]"] d m
    by (auto split: option.splits)
  moreover have "resolve_pair ''XBT'' ''EUR'' sample_names [(''XBTEUR.d'', sample_meta)] = None"
    using resolve_pair_sound [OF k(2,3), of "[(''XBTEUR.d'', sample_meta)]"] d by (auto split: option.splits)
  ultimately show ?thesis using m by simp
qed

lemma split_balances_locked:
  "fst (split_balances names balances can locked) =
   fst (split_balances names
     (filter (\<lambda>(key, _). snd (split_balance_key key names) \<in> set TRADABLE_SUFFIXES) balances) can locked')"
  by (induction names balances can locked arbitrary: locked' rule: split_balances.induct)
    (auto split: prod.splits)

lemma value_portfolio_total:
  assumes "list_all (\<lambda>(a, _). prices a \<noteq> None) t"
  shows "\<exists>v. value_portfolio h prices t c = Inr v"
proof (cases "value_portfolio h prices t c")
  case (Inl e)
  then obtain a p where "find (\<lambda>(a, _). prices a = None) t = Some (a, p)" by (auto simp: value_portfolio_Inl)
  then have "prices a = None" "(a, p) \<in> set t" by (auto simp: find_Some_iff in_set_conv_nth)
  then show ?thesis using assms by (auto simp: list_all_iff)
qed auto

text \<open>
  A view can always be built, with the prices that are missing shown as missing; what is
  staked or bonded changes neither the cash, nor the managed value, nor any managed holding;
  and the unpriced assets are exactly the managed ones without a price.
\<close>

theorem build_view_total:
  "\<exists>v. build_view balances names fiat targets prices = Inr v \<and>
     set (unpriced v) = {a \<in> fst ` set targets. prices a = None} \<and>
     (\<exists>v'. build_view (filter (\<lambda>(key, _). snd (split_balance_key key names) \<in> set TRADABLE_SUFFIXES) balances)
             names fiat targets prices = Inr v' \<and>
        pv_cash v' = pv_cash v \<and> pv_managed_value v' = pv_managed_value v \<and>
        filter hd_managed (pv_holdings v') = filter hd_managed (pv_holdings v))"
proof -
  obtain can locked where s: "split_balances names balances [] [] = (can, locked)" by fastforce
  obtain can' locked' where s': "split_balances names
      (filter (\<lambda>(key, _). snd (split_balance_key key names) \<in> set TRADABLE_SUFFIXES) balances) [] [] = (can', locked')"
    by fastforce
  have same: "can' = can" using split_balances_locked [of names balances "[]" "[]" "[]"] s s' by simp
  let ?cash = "case map_of can fiat of None \<Rightarrow> 0 | Some x \<Rightarrow> x"
  let ?priced = "filter (\<lambda>(asset, pct). prices asset \<noteq> None) targets"
  obtain v where v: "value_portfolio (map_of (AList.delete fiat can)) prices ?priced ?cash = Inr v"
    using value_portfolio_total [of prices ?priced] by (auto simp: list_all_iff)
  have none: "filter (\<lambda>h. hd_managed h \<and> Q h) (map f xs) = []" if "\<And>x. \<not> hd_managed (f x)"
    for f :: "string \<times> dec \<Rightarrow> holding" and xs Q
    using that by (induction xs) auto
  let ?M = "map (managed_holding (AList.delete fiat can) prices v targets) (sort (map fst targets))"
  have managed: "filter hd_managed (?M @ map (unmanaged_holding prices) xs @ map locked_holding ys) = ?M" for xs ys
    using none [of "unmanaged_holding prices" "\<lambda>_. True" xs] none [of locked_holding "\<lambda>_. True" ys]
    by (simp add: filter_map comp_def)
  have missing: "set (map hd_asset (filter (\<lambda>h. hd_managed h \<and> hd_price h = None)
      (?M @ map (unmanaged_holding prices) xs @ map locked_holding ys))) = {a \<in> fst ` set targets. prices a = None}" for xs ys
    using none [of "unmanaged_holding prices" "\<lambda>h. hd_price h = None" xs] none [of locked_holding "\<lambda>h. hd_price h = None" ys]
    by (auto simp: filter_map comp_def)
  define view where "view = (\<lambda>locked. \<lparr>pv_fiat = fiat, pv_cash = ?cash,
      pv_cash_target_pct = dsub HUNDRED (dsum (map snd targets)),
      pv_cash_weight_pct = cash_weight v, pv_managed_value = managed_value v,
      pv_holdings = ?M @ map (unmanaged_holding prices)
          (sort_key fst (filter (\<lambda>(asset, amount). asset \<notin> fst ` set targets \<and> amount \<noteq> 0) (AList.delete fiat can))) @
        map locked_holding (sort_key fst (filter (\<lambda>(label, amount). amount \<noteq> 0) locked))\<rparr>)"
  have "build_view balances names fiat targets prices = Inr (view locked)"
    using v by (simp only: build_view_def s view_def Let_def prod.case rbind_simps)
  moreover have "build_view (filter (\<lambda>(key, _). snd (split_balance_key key names) \<in> set TRADABLE_SUFFIXES) balances)
      names fiat targets prices = Inr (view locked')"
    using v by (simp only: build_view_def s' same view_def Let_def prod.case rbind_simps)
  moreover have "set (unpriced (view locked)) = {a \<in> fst ` set targets. prices a = None}"
    by (simp only: unpriced_def view_def portfolio_view.simps missing)
  moreover have "pv_cash (view locked') = pv_cash (view locked)" "pv_managed_value (view locked') = pv_managed_value (view locked)"
    by (simp_all add: view_def)
  moreover have "filter hd_managed (pv_holdings (view l)) = ?M" for l
    by (simp only: view_def portfolio_view.simps managed)
  ultimately show ?thesis by (intro exI [of _ "view locked"] conjI exI [of _ "view locked'"]) auto
qed

theorem build_view_total_witness:
  "\<exists>v. build_view [(''XXBT'', 1), (''XXBT.S'', 9), (''ZEUR'', 50)] sample_names ''EUR'' [(''XBT'', 60)] Map.empty = Inr v \<and>
     unpriced v = [''XBT''] \<and> pv_cash v = 50 \<and> length (pv_holdings v) = 2"
proof -
  obtain v where v: "build_view [(''XXBT'', 1), (''XXBT.S'', 9), (''ZEUR'', 50)] sample_names ''EUR'' [(''XBT'', 60)] Map.empty = Inr v"
    using build_view_total by blast
  have k: "split_balance_key ''XXBT'' sample_names = (''XBT'', [])" "split_balance_key ''XXBT.S'' sample_names = (''XBT'', ''S'')"
    "split_balance_key ''ZEUR'' sample_names = (''EUR'', [])" by code_simp+
  show ?thesis
    using v by (auto simp: build_view_def k TRADABLE_SUFFIXES_def add_amount_def value_portfolio_def unpriced_def
        dsum_def dec_simps dec_eval Let_def)
qed

end
