(* ===== verification/Database.thy ===== *)
theory Database
  imports Cadence Proposal_Plan Portfolio
begin

text \<open>
  The tables (\<open>core/db/models.py\<close>, \<open>core/db/types.py\<close>) and the unit of work
  (\<open>core/db/session.py\<close>). A table is the list of its rows in the order they were inserted, or
  an association list where the user is the primary key. A transaction is an action on the
  whole database, with the transaction's own timestamp, which is what \<open>now()\<close> means to the
  server: it commits what it leaves when it returns, and leaves nothing when it raises.
  Foreign keys and the lengths of text columns are not modelled; the precision of the numeric
  columns is. Of the times a table keeps of its rows, those some code reads are kept: when a user and an
  order were created, and when a proposal was last written.
\<close>

section \<open>core/db/types.py\<close>

datatype user_status = ACTIVE | DISABLED
datatype order_reason = INVEST | REBALANCE
datatype order_status = PENDING | FILLED | FAILED
datatype operation = OP_INVEST | OP_PROPOSE | OP_APPROVE | OP_REBALANCE
datatype trigger = API | SCHEDULER

text \<open>A numeric column of \<open>p\<close> digits, \<open>s\<close> of them decimal places, as PostgreSQL stores into it.\<close>

definition numeric_column :: "nat \<Rightarrow> nat \<Rightarrow> dec \<Rightarrow> dec result" where
  "numeric_column p s x =
     (let c = round_half_up (x * 10 ^ s)
      in if 10 ^ p \<le> \<bar>c\<bar> then Inl DataError else Inr (of_int c / 10 ^ s))"

text \<open>A number of the column's grid is stored as it is.\<close>

lemma numeric_column_exact:
  assumes "on_grid (int s) x"
  shows "numeric_column p s x = (if 10 ^ p \<le> \<bar>x * 10 ^ s\<bar> then Inl DataError else Inr x)"
proof -
  obtain c where e: "x * 10 ^ s = of_int c"
    using assms by (auto simp: on_grid_def power_int_of_nat)
  have "\<lfloor>(of_int c :: rat) + 1 / 2\<rfloor> = c" "\<lceil>(of_int c :: rat) - 1 / 2\<rceil> = c"
    by (rule floor_unique ceiling_unique; simp)+
  then have r: "round_half_up (x * 10 ^ s) = c" unfolding e by (simp add: round_half_up_def)
  have "(10 ^ p \<le> \<bar>c\<bar>) = (10 ^ p \<le> \<bar>x * 10 ^ s\<bar>)"
    unfolding e by (metis of_int_abs of_int_le_iff of_int_numeral of_int_power)
  moreover have "(of_int c :: rat) / 10 ^ s = x" using e by (simp add: field_simps)
  ultimately show ?thesis by (simp add: numeric_column_def r)
qed

definition AMOUNT :: "dec \<Rightarrow> dec result" where "AMOUNT = numeric_column 24 12"
definition PERCENT :: "dec \<Rightarrow> dec result" where "PERCENT = numeric_column 5 2"
definition DRIFT_PCT :: "dec \<Rightarrow> dec result" where "DRIFT_PCT = numeric_column 4 1"
definition ORDER_FIAT :: "dec \<Rightarrow> dec result" where "ORDER_FIAT = numeric_column 10 1"

section \<open>core/db/models.py\<close>

record user_row =
  u_id :: uuid
  u_provider :: string
  u_subject :: string
  u_email :: string
  u_status :: user_status
  u_created_at :: datetime

record sealed =
  ciphertext :: "8 word list"
  nonce :: "8 word list"
  key_version :: int

record credentials_row =
  cr_sealed :: sealed
  cr_validated_at :: datetime

record settings_row =
  st_fiat :: string
  st_invest_cash_enabled :: bool
  st_cash_rebalance_enabled :: bool
  st_auto_rebalance_enabled :: bool
  st_min_drift_pct :: dec
  st_min_order_fiat :: dec
  st_invest_cadence :: cadence
  st_rebalance_cadence :: cadence
  st_next_invest_at :: "datetime option"
  st_next_rebalance_at :: "datetime option"
  st_paused :: bool
  st_onboarded_at :: "datetime option"
  st_failure_streak :: int

record asset_row =
  as_user :: uuid
  as_asset :: string
  as_pair :: string
  as_target_pct :: dec

record order_row =
  o_user :: uuid
  o_session :: "uuid option"
  o_cl_ord_id :: string
  o_txid :: "string option"
  o_pair :: string
  o_asset :: string
  o_side :: side
  o_reason :: order_reason
  o_status :: order_status
  o_requested_fiat :: dec
  o_executed_volume :: "dec option"
  o_executed_price :: "dec option"
  o_fee :: "dec option"
  o_cost :: "dec option"
  o_error :: "string option"
  o_attempted_at :: datetime
  o_created_at :: datetime

record proposal_row =
  pr_version :: int
  pr_plan :: document
  pr_trigger :: proposal_trigger
  pr_status :: proposal_status
  pr_updated_at :: datetime

record snapshot_row =
  sn_id :: uuid
  sn_user :: uuid
  sn_as_of :: datetime
  sn_fiat :: string
  sn_total_value :: dec
  sn_cash :: dec
  sn_holdings :: json
  sn_pinned :: bool

record evaluation_row =
  ev_id :: uuid
  ev_user :: uuid
  ev_started_at :: datetime
  ev_finished_at :: "datetime option"
  ev_duration_ms :: "int option"
  ev_status :: string
  ev_operation :: "operation option"
  ev_trigger :: "trigger option"
  ev_log_messages :: "string option"

record token_row =
  tk_user :: uuid
  tk_family :: uuid
  tk_hash :: string
  tk_issued_at :: datetime
  tk_expires_at :: datetime
  tk_used_at :: "datetime option"
  tk_revoked_at :: "datetime option"

record db =
  db_now :: datetime
  t_users :: "user_row list"
  t_credentials :: "(uuid \<times> credentials_row) list"
  t_settings :: "(uuid \<times> settings_row) list"
  t_assets :: "asset_row list"
  t_orders :: "order_row list"
  t_proposals :: "(uuid \<times> proposal_row) list"
  t_snapshots :: "snapshot_row list"
  t_evaluations :: "evaluation_row list"
  t_tokens :: "token_row list"

definition empty_db :: db where
  "empty_db =
     \<lparr>db_now = 0, t_users = [], t_credentials = [], t_settings = [], t_assets = [], t_orders = [],
      t_proposals = [], t_snapshots = [], t_evaluations = [], t_tokens = []\<rparr>"

type_synonym 'a tx = "(db, 'a) act"

section \<open>core/db/session.py\<close>

text \<open>The engine of the process, which its sessions are bound to: none before it is configured.\<close>

record engine =
  eg_url :: string
  eg_pre_ping :: bool
  eg_hide_parameters :: bool
  eg_connect_timeout :: int

definition CONNECT_TIMEOUT_SECONDS :: int where
  "CONNECT_TIMEOUT_SECONDS = 5"

definition create_engine_from_url :: "string \<Rightarrow> engine" where
  "create_engine_from_url url =
     \<lparr>eg_url = url, eg_pre_ping = True, eg_hide_parameters = True, eg_connect_timeout = CONNECT_TIMEOUT_SECONDS\<rparr>"

definition configure :: "string \<Rightarrow> engine option \<Rightarrow> engine option" where
  "configure url current = Some (create_engine_from_url url)"

definition get_engine :: "engine option \<Rightarrow> engine result" where
  "get_engine current =
     (case current of None \<Rightarrow> Inl (RuntimeError ''the database engine is not configured'') | Some e \<Rightarrow> Inr e)"

text \<open>
  \<open>with session_scope() as session\<close>, in a process whose engine is configured: the result of the transaction, and
  the database after it.
\<close>

definition session_scope :: "datetime \<Rightarrow> 'a tx \<Rightarrow> db \<Rightarrow> 'a result \<times> db" where
  "session_scope now m d =
     (case m (d\<lparr>db_now := now\<rparr>) of
        (Inr a, d') \<Rightarrow> (Inr a, d')
      | (Inl e, d') \<Rightarrow> (Inl e, d))"

section \<open>The order ledger: core/db/orders.py\<close>

definition ERROR_CHARS :: nat where
  "ERROR_CHARS = 64"

definition get_by_cl_ord_id :: "string \<Rightarrow> order_row option tx" where
  "get_by_cl_ord_id cl_ord_id = gets (\<lambda>d. find (\<lambda>row. o_cl_ord_id row = cl_ord_id) (t_orders d))"

definition record_attempt ::
  "uuid \<Rightarrow> string \<Rightarrow> string \<Rightarrow> string \<Rightarrow> side \<Rightarrow> order_reason \<Rightarrow> dec \<Rightarrow> datetime option \<Rightarrow> uuid option \<Rightarrow> unit tx" where
  "record_attempt user cl_ord_id pair asset side reason requested_fiat attempted_at session_id =
     bind (lift_result (AMOUNT requested_fiat)) (\<lambda>requested.
     bind (gets t_orders) (\<lambda>orders.
     bind (gets db_now) (\<lambda>now.
       if cl_ord_id \<in> set (map o_cl_ord_id orders) then throw IntegrityError
       else modify (\<lambda>d. d\<lparr>t_orders := t_orders d @
         [\<lparr>o_user = user, o_session = session_id, o_cl_ord_id = cl_ord_id, o_txid = None, o_pair = pair,
           o_asset = asset, o_side = side, o_reason = reason, o_status = PENDING,
           o_requested_fiat = requested, o_executed_volume = None, o_executed_price = None,
           o_fee = None, o_cost = None, o_error = None,
           o_attempted_at = (case attempted_at of None \<Rightarrow> now | Some t \<Rightarrow> t), o_created_at = now\<rparr>]\<rparr>))))"

text \<open>A change of the row with this client id, if there is one.\<close>

definition on_order :: "string \<Rightarrow> (order_row \<Rightarrow> order_row) \<Rightarrow> order_row list \<Rightarrow> order_row list" where
  "on_order cl_ord_id f rows = map (\<lambda>row. if o_cl_ord_id row = cl_ord_id then f row else row) rows"

definition change_order :: "string \<Rightarrow> (order_row \<Rightarrow> order_row) \<Rightarrow> unit tx" where
  "change_order cl_ord_id f = modify (\<lambda>d. d\<lparr>t_orders := on_order cl_ord_id f (t_orders d)\<rparr>)"

definition mark_sent :: "string \<Rightarrow> string \<Rightarrow> unit tx" where
  "mark_sent cl_ord_id txid = change_order cl_ord_id (\<lambda>row. row\<lparr>o_txid := Some txid\<rparr>)"

definition mark_filled :: "string \<Rightarrow> string \<Rightarrow> dec \<Rightarrow> dec \<Rightarrow> dec \<Rightarrow> dec \<Rightarrow> unit tx" where
  "mark_filled cl_ord_id txid executed_volume executed_price fee cost =
     bind (get_by_cl_ord_id cl_ord_id) (\<lambda>row.
       if row = None then ret ()
       else bind (lift_result (AMOUNT executed_volume)) (\<lambda>v.
            bind (lift_result (AMOUNT executed_price)) (\<lambda>p.
            bind (lift_result (AMOUNT fee)) (\<lambda>f.
            bind (lift_result (AMOUNT cost)) (\<lambda>c.
            change_order cl_ord_id (\<lambda>row. row\<lparr>o_txid := Some txid, o_executed_volume := Some v,
              o_executed_price := Some p, o_fee := Some f, o_cost := Some c, o_status := FILLED\<rparr>))))))"

definition mark_failed :: "string \<Rightarrow> string option \<Rightarrow> unit tx" where
  "mark_failed cl_ord_id error =
     change_order cl_ord_id (\<lambda>row. row\<lparr>o_status := FAILED, o_error := map_option (take ERROR_CHARS) error\<rparr>)"

definition pending_orders :: "uuid \<Rightarrow> order_row list tx" where
  "pending_orders user = gets (\<lambda>d. sort_key (\<lambda>row. (o_created_at row, o_cl_ord_id row))
     (filter (\<lambda>row. o_user row = user \<and> o_status row = PENDING) (t_orders d)))"

definition has_unresolved :: "uuid \<Rightarrow> bool tx" where
  "has_unresolved user = gets (\<lambda>d. list_ex (\<lambda>row. o_user row = user \<and> o_status row = PENDING) (t_orders d))"

text \<open>
  The newest orders, or one session's in the order they were sent. \<open>seq\<close> is the order of
  insertion, so the newest first is a stable sort of the reversed table.
\<close>

definition list_orders :: "uuid \<Rightarrow> nat \<Rightarrow> uuid option \<Rightarrow> order_row list tx" where
  "list_orders user limit session_id = gets (\<lambda>d.
     case session_id of
       Some sid \<Rightarrow> take limit (filter (\<lambda>row. o_user row = user \<and> o_session row = Some sid) (t_orders d))
     | None \<Rightarrow> take limit (sort_key (\<lambda>row. - o_created_at row) (rev (filter (\<lambda>row. o_user row = user) (t_orders d)))))"

section \<open>The proposal slot: core/db/proposals.py\<close>

definition get_proposal :: "uuid \<Rightarrow> proposal_row option tx" where
  "get_proposal user = gets (\<lambda>d. map_of (t_proposals d) user)"

definition get_live_proposal :: "uuid \<Rightarrow> proposal_row option tx" where
  "get_live_proposal user = bind (get_proposal user) (\<lambda>slot. ret (case slot of
     None \<Rightarrow> None | Some row \<Rightarrow> if pr_status row = LIVE then Some row else None))"

text \<open>
  \<open>updated_at\<close> is the time of the transaction that last changed the row: an assignment of the
  values a row already has writes nothing.
\<close>

definition row_written :: "datetime \<Rightarrow> proposal_row option \<Rightarrow> proposal_row \<Rightarrow> proposal_row" where
  "row_written now found row =
     (case found of
        None \<Rightarrow> row\<lparr>pr_updated_at := now\<rparr>
      | Some old \<Rightarrow> if row\<lparr>pr_updated_at := pr_updated_at old\<rparr> = old then old else row\<lparr>pr_updated_at := now\<rparr>)"

lemma row_written_simps [simp]:
  "pr_version (row_written now found row) = pr_version row" "pr_plan (row_written now found row) = pr_plan row"
  "pr_trigger (row_written now found row) = pr_trigger row" "pr_status (row_written now found row) = pr_status row"
  by (auto simp: row_written_def split: option.splits) (metis proposal_row.select_convs proposal_row.surjective proposal_row.update_convs)+

definition save_proposal :: "uuid \<Rightarrow> document \<Rightarrow> proposal_trigger \<Rightarrow> int \<Rightarrow> unit tx" where
  "save_proposal user doc trg version =
     modify (\<lambda>d. d\<lparr>t_proposals := AList.update user
       (row_written (db_now d) (map_of (t_proposals d) user)
         \<lparr>pr_version = version, pr_plan = doc, pr_trigger = trg, pr_status = LIVE, pr_updated_at = db_now d\<rparr>) (t_proposals d)\<rparr>)"

definition set_status :: "uuid \<Rightarrow> proposal_status \<Rightarrow> proposal_row option tx" where
  "set_status user status =
     bind (get_proposal user) (\<lambda>slot. case slot of
       None \<Rightarrow> ret None
     | Some row \<Rightarrow> bind (gets (\<lambda>d. row_written (db_now d) (Some row) (row\<lparr>pr_status := status\<rparr>))) (\<lambda>row'.
         seq (modify (\<lambda>d. d\<lparr>t_proposals := AList.update user row' (t_proposals d)\<rparr>)) (ret (Some row'))))"

definition withdraw_slot :: "uuid \<Rightarrow> bool tx" where
  "withdraw_slot user = bind (set_status user WITHDRAWN) (\<lambda>row. ret (row \<noteq> None))"

section \<open>Settings and targets: core/db/settings.py\<close>

definition default_settings :: "string \<Rightarrow> settings_row" where
  "default_settings fiat =
     \<lparr>st_fiat = fiat, st_invest_cash_enabled = False, st_cash_rebalance_enabled = False,
      st_auto_rebalance_enabled = False, st_min_drift_pct = 0, st_min_order_fiat = 0,
      st_invest_cadence = \<lparr>cad_mode = MIN_MODE, cad_interval_days = None, cad_interval_months = None, cad_anchor = None\<rparr>,
      st_rebalance_cadence = \<lparr>cad_mode = MIN_MODE, cad_interval_days = None, cad_interval_months = None, cad_anchor = None\<rparr>,
      st_next_invest_at = None, st_next_rebalance_at = None, st_paused = False, st_onboarded_at = None,
      st_failure_streak = 0\<rparr>"

definition create_settings :: "uuid \<Rightarrow> string \<Rightarrow> settings_row tx" where
  "create_settings user fiat =
     bind (gets (\<lambda>d. map_of (t_settings d) user)) (\<lambda>old. case old of
       Some _ \<Rightarrow> throw IntegrityError
     | None \<Rightarrow> seq (modify (\<lambda>d. d\<lparr>t_settings := t_settings d @ [(user, default_settings fiat)]\<rparr>))
         (ret (default_settings fiat)))"

definition get_settings :: "uuid \<Rightarrow> settings_row option tx" where
  "get_settings user = gets (\<lambda>d. map_of (t_settings d) user)"

text \<open>
  The fields \<open>update_settings\<close> takes, one constructor for each name of \<open>_UPDATABLE\<close>, and one
  for a name it does not take: \<open>fiat\<close> is such a name.
\<close>

datatype setting =
    Set_auto_rebalance_enabled bool
  | Set_cash_rebalance_enabled bool
  | Set_failure_streak int
  | Set_invest_cadence_anchor "datetime option"
  | Set_invest_cadence_mode cadence_mode
  | Set_invest_cash_enabled bool
  | Set_invest_interval_days "int option"
  | Set_invest_interval_months "int option"
  | Set_min_drift_pct dec
  | Set_min_order_fiat dec
  | Set_next_invest_at "datetime option"
  | Set_onboarded_at "datetime option"
  | Set_next_rebalance_at "datetime option"
  | Set_paused bool
  | Set_rebalance_cadence_anchor "datetime option"
  | Set_rebalance_cadence_mode cadence_mode
  | Set_rebalance_interval_days "int option"
  | Set_rebalance_interval_months "int option"
  | Set_other string

fun set_field :: "setting \<Rightarrow> settings_row \<Rightarrow> settings_row result" where
  "set_field (Set_auto_rebalance_enabled b) s = Inr (s\<lparr>st_auto_rebalance_enabled := b\<rparr>)"
| "set_field (Set_cash_rebalance_enabled b) s = Inr (s\<lparr>st_cash_rebalance_enabled := b\<rparr>)"
| "set_field (Set_failure_streak n) s = Inr (s\<lparr>st_failure_streak := n\<rparr>)"
| "set_field (Set_invest_cadence_anchor t) s = Inr (s\<lparr>st_invest_cadence := (st_invest_cadence s)\<lparr>cad_anchor := t\<rparr>\<rparr>)"
| "set_field (Set_invest_cadence_mode m) s = Inr (s\<lparr>st_invest_cadence := (st_invest_cadence s)\<lparr>cad_mode := m\<rparr>\<rparr>)"
| "set_field (Set_invest_cash_enabled b) s = Inr (s\<lparr>st_invest_cash_enabled := b\<rparr>)"
| "set_field (Set_invest_interval_days n) s = Inr (s\<lparr>st_invest_cadence := (st_invest_cadence s)\<lparr>cad_interval_days := n\<rparr>\<rparr>)"
| "set_field (Set_invest_interval_months n) s = Inr (s\<lparr>st_invest_cadence := (st_invest_cadence s)\<lparr>cad_interval_months := n\<rparr>\<rparr>)"
| "set_field (Set_min_drift_pct x) s = rbind (DRIFT_PCT x) (\<lambda>y. Inr (s\<lparr>st_min_drift_pct := y\<rparr>))"
| "set_field (Set_min_order_fiat x) s = rbind (ORDER_FIAT x) (\<lambda>y. Inr (s\<lparr>st_min_order_fiat := y\<rparr>))"
| "set_field (Set_next_invest_at t) s = Inr (s\<lparr>st_next_invest_at := t\<rparr>)"
| "set_field (Set_onboarded_at t) s = Inr (s\<lparr>st_onboarded_at := t\<rparr>)"
| "set_field (Set_next_rebalance_at t) s = Inr (s\<lparr>st_next_rebalance_at := t\<rparr>)"
| "set_field (Set_paused b) s = Inr (s\<lparr>st_paused := b\<rparr>)"
| "set_field (Set_rebalance_cadence_anchor t) s = Inr (s\<lparr>st_rebalance_cadence := (st_rebalance_cadence s)\<lparr>cad_anchor := t\<rparr>\<rparr>)"
| "set_field (Set_rebalance_cadence_mode m) s = Inr (s\<lparr>st_rebalance_cadence := (st_rebalance_cadence s)\<lparr>cad_mode := m\<rparr>\<rparr>)"
| "set_field (Set_rebalance_interval_days n) s = Inr (s\<lparr>st_rebalance_cadence := (st_rebalance_cadence s)\<lparr>cad_interval_days := n\<rparr>\<rparr>)"
| "set_field (Set_rebalance_interval_months n) s = Inr (s\<lparr>st_rebalance_cadence := (st_rebalance_cadence s)\<lparr>cad_interval_months := n\<rparr>\<rparr>)"
| "set_field (Set_other name) s = Inr s"

fun set_fields :: "setting list \<Rightarrow> settings_row \<Rightarrow> settings_row result" where
  "set_fields [] s = Inr s"
| "set_fields (f # fs) s = rbind (set_field f s) (set_fields fs)"

fun is_updatable :: "setting \<Rightarrow> bool" where
  "is_updatable (Set_other name) = False"
| "is_updatable _ = True"

definition update_settings :: "uuid \<Rightarrow> setting list \<Rightarrow> settings_row option tx" where
  "update_settings user changes =
     (if \<not> list_all is_updatable changes then throw (ValueError ''these settings cannot be updated'')
      else bind (get_settings user) (\<lambda>row. case row of
        None \<Rightarrow> ret None
      | Some s \<Rightarrow> bind (lift_result (set_fields changes s)) (\<lambda>s'.
          seq (modify (\<lambda>d. d\<lparr>t_settings := AList.update user s' (t_settings d)\<rparr>)) (ret (Some s')))))"

record due_user =
  du_user :: uuid
  du_invest_due :: bool
  du_rebalance_due :: bool

definition FAR_FUTURE :: datetime where
  "FAR_FUTURE = (ordinal (9999, 12, 31) - EPOCH_ORDINAL) * DAY"

definition is_due :: "datetime option \<Rightarrow> datetime \<Rightarrow> bool" where
  "is_due at_time now = (case at_time of None \<Rightarrow> False | Some t \<Rightarrow> t \<le> now)"

definition due_key :: "settings_row \<Rightarrow> datetime" where
  "due_key s =
     min (case st_next_invest_at s of None \<Rightarrow> FAR_FUTURE | Some t \<Rightarrow> t)
         (case st_next_rebalance_at s of None \<Rightarrow> FAR_FUTURE | Some t \<Rightarrow> t)"

definition due_users :: "datetime \<Rightarrow> nat \<Rightarrow> due_user list tx" where
  "due_users now limit = gets (\<lambda>d.
     map (\<lambda>(user, s). \<lparr>du_user = user, du_invest_due = is_due (st_next_invest_at s) now,
            du_rebalance_due = is_due (st_next_rebalance_at s) now\<rparr>)
       (take limit (sort_key (\<lambda>(user, s). due_key s)
         (filter (\<lambda>(user, s). \<not> st_paused s \<and>
            (is_due (st_next_invest_at s) now \<or> is_due (st_next_rebalance_at s) now)) (t_settings d)))))"

definition list_assets :: "uuid \<Rightarrow> asset_row list tx" where
  "list_assets user = gets (\<lambda>d. sort_key as_asset (filter (\<lambda>row. as_user row = user) (t_assets d)))"

definition upsert_asset :: "uuid \<Rightarrow> string \<Rightarrow> string \<Rightarrow> dec \<Rightarrow> unit tx" where
  "upsert_asset user asset pair target_pct =
     bind (lift_result (PERCENT target_pct)) (\<lambda>pct.
       if pct < 0 \<or> 100 < pct then throw IntegrityError
       else modify (\<lambda>d. d\<lparr>t_assets :=
         (if list_ex (\<lambda>row. as_user row = user \<and> as_asset row = asset) (t_assets d)
          then map (\<lambda>row. if as_user row = user \<and> as_asset row = asset
                          then row\<lparr>as_pair := pair, as_target_pct := pct\<rparr> else row) (t_assets d)
          else t_assets d @ [\<lparr>as_user = user, as_asset = asset, as_pair = pair, as_target_pct = pct\<rparr>])\<rparr>))"

definition delete_asset :: "uuid \<Rightarrow> string \<Rightarrow> bool tx" where
  "delete_asset user asset =
     bind (gets (\<lambda>d. list_ex (\<lambda>row. as_user row = user \<and> as_asset row = asset) (t_assets d))) (\<lambda>found.
       if \<not> found then ret False
       else seq (modify (\<lambda>d. d\<lparr>t_assets :=
              filter (\<lambda>row. \<not> (as_user row = user \<and> as_asset row = asset)) (t_assets d)\<rparr>)) (ret True))"

definition targets_for :: "uuid \<Rightarrow> dec dict tx" where
  "targets_for user = bind (list_assets user) (\<lambda>rows. ret (map (\<lambda>row. (as_asset row, as_target_pct row)) rows))"

definition pairs_for :: "uuid list \<Rightarrow> string list tx" where
  "pairs_for users = gets (\<lambda>d. remdups (map as_pair (filter (\<lambda>row. as_user row \<in> set users) (t_assets d))))"

definition unscheduled_settings :: "(uuid \<times> settings_row) list tx" where
  "unscheduled_settings = gets (\<lambda>d. filter (\<lambda>(user, s). st_next_rebalance_at s = None \<or>
     (st_invest_cash_enabled s \<and> st_next_invest_at s = None)) (t_settings d))"

section \<open>The value series and the evaluations: core/db/telemetry.py\<close>

definition utc_day :: "datetime \<Rightarrow> int" where
  "utc_day moment = moment div DAY"

text \<open>The latest snapshot; of two at one time the one inserted last.\<close>

definition latest_snapshot :: "uuid \<Rightarrow> snapshot_row option tx" where
  "latest_snapshot user = gets (\<lambda>d.
     case sort_key (\<lambda>row. - sn_as_of row) (rev (filter (\<lambda>row. sn_user row = user) (t_snapshots d))) of
       [] \<Rightarrow> None | row # _ \<Rightarrow> Some row)"

definition record_snapshot ::
  "uuid \<Rightarrow> uuid \<Rightarrow> datetime \<Rightarrow> string \<Rightarrow> dec \<Rightarrow> dec \<Rightarrow> json \<Rightarrow> uuid tx" where
  "record_snapshot new_id user as_of fiat total_value cash holdings =
     bind (lift_result (AMOUNT total_value)) (\<lambda>total.
     bind (lift_result (AMOUNT cash)) (\<lambda>c.
     bind (gets t_snapshots) (\<lambda>rows.
       if new_id \<in> set (map sn_id rows) then throw IntegrityError
       else seq (modify (\<lambda>d. d\<lparr>t_snapshots := t_snapshots d @
         [\<lparr>sn_id = new_id, sn_user = user, sn_as_of = as_of, sn_fiat = fiat, sn_total_value = total,
           sn_cash = c, sn_holdings = holdings, sn_pinned = False\<rparr>]\<rparr>)) (ret new_id))))"

definition keep_snapshot ::
  "uuid \<Rightarrow> uuid \<Rightarrow> datetime \<Rightarrow> string \<Rightarrow> dec \<Rightarrow> dec \<Rightarrow> json \<Rightarrow> uuid tx" where
  "keep_snapshot new_id user as_of fiat total_value cash holdings =
     bind (latest_snapshot user) (\<lambda>latest.
       case latest of
         Some row \<Rightarrow>
           if \<not> sn_pinned row \<and> utc_day (sn_as_of row) = utc_day as_of
           then bind (lift_result (AMOUNT total_value)) (\<lambda>total.
                bind (lift_result (AMOUNT cash)) (\<lambda>c.
                seq (modify (\<lambda>d. d\<lparr>t_snapshots := map (\<lambda>r. if sn_id r = sn_id row
                  then r\<lparr>sn_as_of := as_of, sn_fiat := fiat, sn_total_value := total, sn_cash := c,
                         sn_holdings := holdings\<rparr> else r) (t_snapshots d)\<rparr>)) (ret (sn_id row))))
           else record_snapshot new_id user as_of fiat total_value cash holdings
       | None \<Rightarrow> record_snapshot new_id user as_of fiat total_value cash holdings)"

definition pin_snapshot :: "uuid \<Rightarrow> uuid \<Rightarrow> unit tx" where
  "pin_snapshot user snapshot_id =
     modify (\<lambda>d. d\<lparr>t_snapshots := map (\<lambda>r. if sn_id r = snapshot_id \<and> sn_user r = user
       then r\<lparr>sn_pinned := True\<rparr> else r) (t_snapshots d)\<rparr>)"

definition snapshots_since :: "uuid \<Rightarrow> datetime \<Rightarrow> nat \<Rightarrow> snapshot_row list tx" where
  "snapshots_since user since limit = gets (\<lambda>d.
     take limit (sort_key sn_as_of (filter (\<lambda>r. sn_user r = user \<and> since \<le> sn_as_of r) (t_snapshots d))))"

definition start_evaluation ::
  "uuid \<Rightarrow> uuid \<Rightarrow> datetime \<Rightarrow> operation option \<Rightarrow> trigger option \<Rightarrow> uuid tx" where
  "start_evaluation new_id user started_at op_name trg =
     bind (gets t_evaluations) (\<lambda>rows.
       if new_id \<in> set (map ev_id rows) then throw IntegrityError
       else seq (modify (\<lambda>d. d\<lparr>t_evaluations := t_evaluations d @
         [\<lparr>ev_id = new_id, ev_user = user, ev_started_at = started_at, ev_finished_at = None,
           ev_duration_ms = None, ev_status = ''RUNNING'', ev_operation = op_name, ev_trigger = trg,
           ev_log_messages = None\<rparr>]\<rparr>)) (ret new_id))"

text \<open>\<open>int(delta.total_seconds() * 1000)\<close>.\<close>

definition whole_millis :: "timedelta \<Rightarrow> int" where
  "whole_millis d = (if 0 \<le> d then d div 1000 else - ((- d) div 1000))"

definition finish_evaluation :: "uuid \<Rightarrow> string \<Rightarrow> datetime \<Rightarrow> string option \<Rightarrow> unit tx" where
  "finish_evaluation evaluation_id status finished_at log_messages =
     modify (\<lambda>d. d\<lparr>t_evaluations := map (\<lambda>r. if ev_id r = evaluation_id
       then r\<lparr>ev_status := status, ev_finished_at := Some finished_at,
              ev_duration_ms := Some (whole_millis (finished_at - ev_started_at r)),
              ev_log_messages := log_messages\<rparr> else r) (t_evaluations d)\<rparr>)"

text \<open>A page of evaluations, newest first, strictly after the row it is asked to follow.\<close>

definition list_evaluations :: "uuid \<Rightarrow> nat \<Rightarrow> bool \<Rightarrow> uuid option \<Rightarrow> evaluation_row list tx" where
  "list_evaluations user limit idle before =
     bind (gets (\<lambda>d. filter (\<lambda>r. ev_user r = user) (t_evaluations d))) (\<lambda>rows.
       let newest = sort_key (\<lambda>r. (- ev_started_at r, - uint (ev_id r)))
             (filter (\<lambda>r. idle \<or> ev_status r \<noteq> ''NOTHING_TO_DO'') rows)
       in case before of
            None \<Rightarrow> ret (take limit newest)
          | Some b \<Rightarrow>
              (case find (\<lambda>r. ev_id r = b) rows of
                 None \<Rightarrow> throw LookupError
               | Some cursor \<Rightarrow> ret (take limit (filter (\<lambda>r.
                   (ev_started_at r, uint (ev_id r)) < (ev_started_at cursor, uint (ev_id cursor))) newest))))"

definition delete_evaluations_before :: "datetime \<Rightarrow> nat tx" where
  "delete_evaluations_before cutoff =
     bind (gets (\<lambda>d. length (filter (\<lambda>r. ev_started_at r < cutoff) (t_evaluations d)))) (\<lambda>n.
     seq (modify (\<lambda>d. d\<lparr>t_evaluations := filter (\<lambda>r. \<not> ev_started_at r < cutoff) (t_evaluations d)\<rparr>)) (ret n))"

section \<open>Identities and credentials: core/db/users.py\<close>

definition create_user :: "uuid \<Rightarrow> string \<Rightarrow> string \<Rightarrow> string \<Rightarrow> user_row tx" where
  "create_user new_id provider subject email =
     bind (gets t_users) (\<lambda>rows.
     bind (gets db_now) (\<lambda>now.
       if new_id \<in> set (map u_id rows) \<or> (provider, subject) \<in> set (map (\<lambda>r. (u_provider r, u_subject r)) rows)
       then throw IntegrityError
       else let row = \<lparr>u_id = new_id, u_provider = provider, u_subject = subject, u_email = email, u_status = ACTIVE, u_created_at = now\<rparr>
            in seq (modify (\<lambda>d. d\<lparr>t_users := t_users d @ [row]\<rparr>)) (ret row)))"

definition get_user :: "uuid \<Rightarrow> user_row option tx" where
  "get_user user = gets (\<lambda>d. find (\<lambda>r. u_id r = user) (t_users d))"

definition get_user_by_identity :: "string \<Rightarrow> string \<Rightarrow> user_row option tx" where
  "get_user_by_identity provider subject =
     gets (\<lambda>d. find (\<lambda>r. u_provider r = provider \<and> u_subject r = subject) (t_users d))"

definition set_user_status :: "uuid \<Rightarrow> user_status \<Rightarrow> unit tx" where
  "set_user_status user status =
     modify (\<lambda>d. d\<lparr>t_users := map (\<lambda>r. if u_id r = user then r\<lparr>u_status := status\<rparr> else r) (t_users d)\<rparr>)"

definition save_credentials :: "uuid \<Rightarrow> sealed \<Rightarrow> datetime \<Rightarrow> unit tx" where
  "save_credentials user s validated_at =
     modify (\<lambda>d. d\<lparr>t_credentials := AList.update user \<lparr>cr_sealed = s, cr_validated_at = validated_at\<rparr> (t_credentials d)\<rparr>)"

definition get_credentials :: "uuid \<Rightarrow> credentials_row option tx" where
  "get_credentials user = gets (\<lambda>d. map_of (t_credentials d) user)"

definition credential_owners_not_at :: "int \<Rightarrow> uuid list tx" where
  "credential_owners_not_at version =
     gets (\<lambda>d. sort (map fst (filter (\<lambda>(user, row). key_version (cr_sealed row) \<noteq> version) (t_credentials d))))"

definition delete_credentials :: "uuid \<Rightarrow> bool tx" where
  "delete_credentials user =
     bind (get_credentials user) (\<lambda>row.
       if row = None then ret False
       else seq (modify (\<lambda>d. d\<lparr>t_credentials := AList.delete user (t_credentials d)\<rparr>)) (ret True))"

end
