(* ===== verification/World.thy ===== *)
theory World
  imports Database
begin

text \<open>
  The process and what surrounds it. The environment is everything the code cannot decide:
  what Kraken answers, which may depend on all that was sent before, the clocks, the random
  identifiers, the advisory lock, and the cipher. The world is what the code changes: the
  committed database, the requests sent so far, the daily catalog (\<open>core/catalog.py\<close>) and a
  tick's prices (\<open>core/public_market.py\<close>), the variables of the evaluation under way, and
  those of the scheduler.
  Each sent request is kept with its answer and the database that was committed when it was
  sent, which is how the theorems speak of what was written down before an order left.
\<close>

section \<open>The environment and the world\<close>

record event =
  evt_who :: "credentials option"
  evt_request :: request
  evt_answer :: answer
  evt_db :: db

record env =
  env_answer :: "(credentials option \<times> request) list \<Rightarrow> credentials option \<Rightarrow> request \<Rightarrow> answer"
  env_clock :: "nat \<Rightarrow> datetime"
  env_server_clock :: "nat \<Rightarrow> datetime"
  env_uuid :: "nat \<Rightarrow> uuid"
  env_lock :: "uuid \<Rightarrow> bool"
  env_scheduler_lock :: bool
  env_pool :: "nat \<Rightarrow> nat"
  env_unseal :: "uuid \<Rightarrow> sealed \<Rightarrow> credentials result"

datatype leg_status = LEG_FILLED | LEG_FAILED | LEG_PENDING | LEG_SKIPPED | LEG_VALIDATED | LEG_REJECTED | LEG_UNCHECKED

record leg_result =
  lr_asset :: string
  lr_pair :: string
  lr_side :: side
  lr_amount_fiat :: dec
  lr_minimum_fiat :: "dec option"
  lr_status :: leg_status
  lr_cl_ord_id :: "string option"
  lr_txid :: "string option"
  lr_cost :: "dec option"
  lr_executed_volume :: "dec option"
  lr_executed_price :: "dec option"
  lr_fee :: "dec option"
  lr_error :: "string option"
  lr_note :: "string option"
  lr_volume :: "dec option"

text \<open>The two lines of \<open>core/scheduler.py\<close> an operator is alerted by.\<close>

datatype alert = Failing uuid int | Recovered uuid int

record world =
  w_db :: db
  w_trace :: "event list"
  w_readings :: nat
  w_transactions :: nat
  w_uuids :: nat
  w_names :: "(datetime \<times> string dict) option"
  w_pairs :: "(datetime \<times> pair_meta dict) option"
  w_decimals :: "(datetime \<times> int dict) option"
  w_prices :: "dec dict"
  w_log :: "string list"
  w_legs :: "leg_result list"
  w_blocked :: "bool list"
  w_pinned :: bool
  w_executing :: bool
  w_swept :: "int option"
  w_alerts :: "alert list"

type_synonym 'a io = "(world, 'a) act"

section \<open>The primitives\<close>

definition send :: "env \<Rightarrow> credentials option \<Rightarrow> request \<Rightarrow> answer io" where
  "send e who r w =
     (let a = env_answer e (map (\<lambda>ev. (evt_who ev, evt_request ev)) (w_trace w)) who r
      in (Inr a, w\<lparr>w_trace := w_trace w @
           [\<lparr>evt_who = who, evt_request = r, evt_answer = a, evt_db = w_db w\<rparr>]\<rparr>))"

definition now :: "env \<Rightarrow> datetime io" where
  "now e w = (Inr (env_clock e (w_readings w)), w\<lparr>w_readings := Suc (w_readings w)\<rparr>)"

definition fresh :: "env \<Rightarrow> uuid io" where
  "fresh e w = (Inr (env_uuid e (w_uuids w)), w\<lparr>w_uuids := Suc (w_uuids w)\<rparr>)"

definition transaction :: "env \<Rightarrow> 'a tx \<Rightarrow> 'a io" where
  "transaction e m w =
     (case session_scope (env_server_clock e (w_transactions w)) m (w_db w) of
        (r, d) \<Rightarrow> (r, w\<lparr>w_db := d, w_transactions := Suc (w_transactions w)\<rparr>))"

definition log_line :: "string \<Rightarrow> unit io" where
  "log_line text = modify (\<lambda>w. w\<lparr>w_log := w_log w @ [text]\<rparr>)"

definition kraken :: "env \<Rightarrow> credentials option \<Rightarrow> world client" where
  "kraken e who = \<lparr>cl_credentials = who, cl_send = send e\<rparr>"

section \<open>core/catalog.py\<close>

definition CATALOG_TTL :: timedelta where
  "CATALOG_TTL = DAY"

text \<open>\<open>_Kept.get\<close>: the copy while it is young, else a fresh one; a failed read keeps nothing.\<close>

definition kept_get ::
  "env \<Rightarrow> (world \<Rightarrow> (datetime \<times> 'a) option) \<Rightarrow> ((datetime \<times> 'a) option \<Rightarrow> world \<Rightarrow> world) \<Rightarrow>
     'a option io \<Rightarrow> 'a option io" where
  "kept_get e copy keep read =
     (let refresh = bind read (\<lambda>fresh. case fresh of
            None \<Rightarrow> ret None
          | Some x \<Rightarrow> bind (now e) (\<lambda>t. seq (modify (keep (Some (t, x)))) (ret (Some x))))
      in bind (gets copy) (\<lambda>kept. case kept of
           None \<Rightarrow> refresh
         | Some (read_at, x) \<Rightarrow> bind (now e) (\<lambda>t. if t - read_at < CATALOG_TTL then ret (Some x) else refresh)))"

definition catalog_names :: "env \<Rightarrow> string dict option io" where
  "catalog_names e = kept_get e w_names (\<lambda>c w. w\<lparr>w_names := c\<rparr>) (assets (kraken e None))"

definition catalog_pairs :: "env \<Rightarrow> pair_meta dict option io" where
  "catalog_pairs e = kept_get e w_pairs (\<lambda>c w. w\<lparr>w_pairs := c\<rparr>) (asset_pairs (kraken e None) [])"

definition catalog_decimals :: "env \<Rightarrow> int dict option io" where
  "catalog_decimals e = kept_get e w_decimals (\<lambda>c w. w\<lparr>w_decimals := c\<rparr>) (asset_decimals (kraken e None))"

section \<open>core/public_market.py\<close>

text \<open>\<open>Market\<close>: names and pairs from the catalog, prices from Kraken on every call.\<close>

definition market :: "env \<Rightarrow> world public_reads" where
  "market e = \<lparr>pr_assets = catalog_names e, pr_asset_pairs = catalog_pairs e, pr_ticker = ticker (kraken e None)\<rparr>"

text \<open>\<open>TickMarket\<close>: one tick's prices, read once and shared.\<close>

definition tick_ticker :: "world public_reads \<Rightarrow> string list \<Rightarrow> dec dict option io" where
  "tick_ticker source pairs =
     bind (gets w_prices) (\<lambda>prices.
       let missing = filter (\<lambda>p. p \<notin> fst ` set prices) pairs;
           answer = (\<lambda>prices. List.map_filter (\<lambda>p. map_option (Pair p) (map_of prices p)) (remdups pairs))
       in if missing = [] then ret (Some (answer prices))
          else bind (pr_ticker source missing) (\<lambda>fetched. case fetched of
                 None \<Rightarrow> ret None
               | Some quotes \<Rightarrow>
                   let prices' = foldl (\<lambda>d (k, v). AList.update k v d) prices quotes
                   in seq (modify (\<lambda>w. w\<lparr>w_prices := prices'\<rparr>)) (ret (Some (answer prices')))))"

definition tick_market :: "world public_reads \<Rightarrow> world public_reads" where
  "tick_market source =
     \<lparr>pr_assets = pr_assets source, pr_asset_pairs = pr_asset_pairs source, pr_ticker = tick_ticker source\<rparr>"

definition preload :: "world public_reads \<Rightarrow> string list \<Rightarrow> unit io" where
  "preload tick pairs = bind (pr_ticker tick (sort (remdups pairs))) (\<lambda>_. ret ())"

section \<open>Invariants of the trace\<close>

text \<open>A request that may trade.\<close>

fun trades :: "request \<Rightarrow> bool" where
  "trades (AddOrder order) = (\<not> ao_validate order)"
| "trades _ = False"

text \<open>
  What a component that only reads from Kraken has to know of an invariant of the database
  and the trace: a request that cannot trade keeps it. Everything such a component does then
  keeps it too.
\<close>

locale reading_invariant =
  fixes J :: "db \<Rightarrow> event list \<Rightarrow> bool"
  assumes read: "J d tr \<Longrightarrow> \<not> trades r \<Longrightarrow> J d (tr @ [\<lparr>evt_who = who, evt_request = r, evt_answer = a, evt_db = d\<rparr>])"
begin

definition holds :: "world \<Rightarrow> bool" where
  "holds w = J (w_db w) (w_trace w)"

lemma keeps_quiet [keeps_intros]:
  "keeps holds (now e)" "keeps holds (fresh e)" "keeps holds (log_line t)"
  by (auto simp: keeps_def now_def fresh_def log_line_def modify_def holds_def)

lemma keeps_send [keeps_intros]: "\<not> trades r \<Longrightarrow> keeps holds (send e who r)"
  by (simp add: keeps_def send_def holds_def read Let_def)

lemma keeps_transaction:
  assumes "\<And>d t a d' tr. J d tr \<Longrightarrow> m (d\<lparr>db_now := t\<rparr>) = (Inr a, d') \<Longrightarrow> J d' tr"
  shows "keeps holds (transaction e m)"
  using assms by (auto simp: keeps_def transaction_def session_scope_def holds_def split: prod.splits sum.splits)

lemma keeps_frame:
  assumes "\<And>w. w_db (f w) = w_db w" "\<And>w. w_trace (f w) = w_trace w"
  shows "keeps holds (modify f)"
  using assms by (auto simp: keeps_def modify_def holds_def)

lemma keeps_public [keeps_intros]: "\<not> trades r \<Longrightarrow> keeps holds (public_call (kraken e who) r)"
  unfolding public_call_def by (intro keeps_intros) (auto simp: kraken_def intro: keeps_intros)

lemma keeps_private [keeps_intros]: "\<not> trades r \<Longrightarrow> keeps holds (private_call (kraken e who) r b)"
  unfolding private_call_def call_private_def
  by (intro keeps_intros) (auto simp: kraken_def intro: keeps_intros)

lemma keeps_client [keeps_intros]:
  "keeps holds (asset_pairs (kraken e who) ps)" "keeps holds (ticker (kraken e who) ps)"
  "keeps holds (assets (kraken e who))" "keeps holds (asset_decimals (kraken e who))"
  "keeps holds (balance (kraken e who))" "keeps holds (open_orders (kraken e who) c)"
  "keeps holds (closed_orders (kraken e who) c)" "keeps holds (query_orders (kraken e who) t)"
  unfolding asset_pairs_def ticker_def assets_def asset_decimals_def balance_def open_orders_def
    closed_orders_def query_orders_def
  by (intro keeps_intros; simp)+

lemma keeps_lookups [keeps_intros]:
  "keeps holds (find_order_by_cl_ord_id (kraken e who) c)" "keeps holds (find_order_by_txid (kraken e who) t)"
  unfolding find_order_by_cl_ord_id_def find_order_by_txid_def ask_endpoint_def
  by (auto intro!: keeps_intros split: option.splits prod.splits)

lemma keeps_kept_get:
  assumes "keeps holds r" "\<And>c w. w_db (k c w) = w_db w" "\<And>c w. w_trace (k c w) = w_trace w"
  shows "keeps holds (kept_get e g k r)"
  unfolding kept_get_def Let_def
  by (auto intro!: keeps_intros keeps_frame assms split: option.splits prod.splits)

lemma keeps_catalog [keeps_intros]:
  "keeps holds (catalog_names e)" "keeps holds (catalog_pairs e)" "keeps holds (catalog_decimals e)"
  unfolding catalog_names_def catalog_pairs_def catalog_decimals_def
  by (rule keeps_kept_get; simp add: keeps_intros)+

text \<open>A public side whose three reads keep the invariant.\<close>

definition safe_reads :: "world public_reads \<Rightarrow> bool" where
  "safe_reads public \<longleftrightarrow> keeps holds (pr_assets public) \<and> keeps holds (pr_asset_pairs public) \<and>
     (\<forall>ps. keeps holds (pr_ticker public ps))"

lemma safe_market: "safe_reads (market e)"
  by (auto simp: safe_reads_def market_def intro: keeps_intros)

lemma safe_tick_market: "safe_reads public \<Longrightarrow> safe_reads (tick_market public)"
  unfolding safe_reads_def tick_market_def tick_ticker_def Let_def
  by (auto intro!: keeps_intros keeps_frame split: option.splits)

lemma keeps_require [keeps_intros]: "keeps holds m \<Longrightarrow> keeps holds (require what m)"
  unfolding require_def by (auto intro!: keeps_intros split: option.splits)

lemma keeps_read_portfolio:
  "safe_reads public \<Longrightarrow> keeps holds (read_portfolio public (kraken e who) fiat rows)"
  unfolding read_portfolio_def Let_def safe_reads_def
  by (auto intro!: keeps_intros)

end

section \<open>What was sent\<close>

definition sent :: "event list \<Rightarrow> event list" where
  "sent tr = filter (\<lambda>ev. trades (evt_request ev)) tr"

fun client_id :: "request \<Rightarrow> string" where
  "client_id (AddOrder order) = ao_cl_ord_id order"
| "client_id _ = []"

definition sent_ids :: "event list \<Rightarrow> string list" where
  "sent_ids tr = map (\<lambda>ev. client_id (evt_request ev)) (sent tr)"

lemma sent_snoc [simp]: "sent (tr @ [ev]) = sent tr @ (if trades (evt_request ev) then [ev] else [])"
  by (simp add: sent_def)

lemma sent_ids_snoc [simp]:
  "sent_ids (tr @ [ev]) = sent_ids tr @ (if trades (evt_request ev) then [client_id (evt_request ev)] else [])"
  by (simp add: sent_ids_def)

text \<open>The orders sent since a trace had length \<open>n\<close>.\<close>

definition sent_since :: "nat \<Rightarrow> event list \<Rightarrow> event list" where
  "sent_since n tr = sent (drop n tr)"

lemma sent_since_snoc [simp]:
  "n \<le> length tr \<Longrightarrow> sent_since n (tr @ [ev]) = sent_since n tr @ (if trades (evt_request ev) then [ev] else [])"
  by (simp add: sent_since_def sent_def)

lemma sent_since_now [simp]: "sent_since (length tr) tr = []"
  by (simp add: sent_since_def sent_def)

lemma transaction_trace: "transaction e m w = (r, w') \<Longrightarrow> w_trace w' = w_trace w"
  by (auto simp: transaction_def split: prod.splits)

lemma transaction_Inr:
  "transaction e m w = (Inr a, w') \<Longrightarrow> w_trace w' = w_trace w \<and> (\<exists>t. m ((w_db w)\<lparr>db_now := t\<rparr>) = (Inr a, w_db w'))"
  by (auto simp: transaction_def session_scope_def split: prod.splits sum.splits)

end
