(* ===== verification/Settlement.thy ===== *)
theory Settlement
  imports World
begin

text \<open>
  What became of an order (\<open>core/settlement.py\<close>): writing down what Kraken says of it, and
  resolving every attempt that is still unknown before anything else is computed.
\<close>

section \<open>The operations\<close>

definition ABSENCE_GRACE :: timedelta where
  "ABSENCE_GRACE = 120 * SECOND"

fun status_value :: "exchange_order_status \<Rightarrow> string" where
  "status_value CANCELED = ''canceled''"
| "status_value CLOSED = ''closed''"
| "status_value NOT_FOUND = ''not_found''"
| "status_value OPEN = ''open''"
| "status_value PENDING_AT_KRAKEN = ''pending''"
| "status_value UNKNOWN_STATUS = ''unknown''"

fun order_status_value :: "order_status \<Rightarrow> string" where
  "order_status_value PENDING = ''PENDING''"
| "order_status_value FILLED = ''FILLED''"
| "order_status_value FAILED = ''FAILED''"

definition settle :: "string \<Rightarrow> order_lookup option \<Rightarrow> order_status tx" where
  "settle cl_ord_id lookup =
     (case lookup of
        None \<Rightarrow> ret PENDING
      | Some l \<Rightarrow>
          (case lk_txid l of
             None \<Rightarrow> seq (mark_failed cl_ord_id None) (ret FAILED)
           | Some txid \<Rightarrow>
               if lk_status l = Some CLOSED \<or> lk_status l = Some CANCELED
               then if 0 < lk_volume_executed l
                    then seq (mark_filled cl_ord_id txid (lk_volume_executed l) (lk_price l) (lk_fee l) (lk_cost l))
                           (ret FILLED)
                    else seq (mark_failed cl_ord_id
                           (Some (status_value (the (lk_status l)) @ '' with nothing executed'')))
                           (ret FAILED)
               else seq (mark_sent cl_ord_id txid) (ret PENDING)))"

record resolution =
  rs_clear :: bool
  rs_messages :: "string list"
  rs_lookup_failed :: bool

definition lookup_pending :: "world client \<Rightarrow> order_row \<Rightarrow> order_lookup option io" where
  "lookup_pending private row =
     (case o_txid row of
        Some txid \<Rightarrow> find_order_by_txid private txid
      | None \<Rightarrow> find_order_by_cl_ord_id private (o_cl_ord_id row))"

text \<open>Whether an absence is too fresh to be believed.\<close>

definition too_soon :: "order_lookup option \<Rightarrow> datetime \<Rightarrow> order_row \<Rightarrow> bool" where
  "too_soon lookup at_now row \<longleftrightarrow>
     (case lookup of None \<Rightarrow> False
      | Some l \<Rightarrow> lk_txid l = None \<and> at_now - o_attempted_at row < ABSENCE_GRACE)"

definition resolve_one :: "env \<Rightarrow> world client \<Rightarrow> datetime \<Rightarrow> order_row \<Rightarrow> resolution \<Rightarrow> resolution io" where
  "resolve_one e private at_now row acc =
     bind (lookup_pending private row) (\<lambda>lookup.
       let acc = acc\<lparr>rs_lookup_failed := rs_lookup_failed acc \<or> lookup = None\<rparr>;
           say = (\<lambda>text. ''order '' @ o_cl_ord_id row @ '': '' @ text)
       in if too_soon lookup at_now row
          then ret (acc\<lparr>rs_clear := False,
                 rs_messages := rs_messages acc @ [say ''not listed yet; absence is believed after the grace period'']\<rparr>)
          else bind (transaction e (settle (o_cl_ord_id row) lookup)) (\<lambda>status.
                 if status = PENDING
                 then ret (acc\<lparr>rs_clear := False, rs_messages := rs_messages acc @ [say ''still unresolved'']\<rparr>)
                 else ret (acc\<lparr>rs_messages := rs_messages acc @ [say (''resolved as '' @ order_status_value status)]\<rparr>)))"

definition resolve_pending :: "env \<Rightarrow> world client \<Rightarrow> uuid \<Rightarrow> datetime \<Rightarrow> resolution io" where
  "resolve_pending e private user at_now =
     bind (transaction e (pending_orders user)) (\<lambda>pending.
       for_fold pending \<lparr>rs_clear = True, rs_messages = [], rs_lookup_failed = False\<rparr> (resolve_one e private at_now))"

section \<open>The ledger under a change\<close>

text \<open>
  How far a change of the ledger may go. Rows are only added or changed, never removed; a row
  keeps who, what and why; and a status only leaves PENDING.
\<close>

definition row_step :: "order_row \<Rightarrow> order_row \<Rightarrow> bool" where
  "row_step a b \<longleftrightarrow>
     o_cl_ord_id b = o_cl_ord_id a \<and> o_user b = o_user a \<and> o_pair b = o_pair a \<and> o_asset b = o_asset a \<and>
     o_side b = o_side a \<and> o_reason b = o_reason a \<and> o_requested_fiat b = o_requested_fiat a \<and>
     o_session b = o_session a \<and> o_attempted_at b = o_attempted_at a \<and> o_created_at b = o_created_at a \<and>
     (o_status a \<noteq> PENDING \<longrightarrow> o_status b \<noteq> PENDING)"

definition ledger_step :: "order_row list \<Rightarrow> order_row list \<Rightarrow> bool" where
  "ledger_step xs ys \<longleftrightarrow> (\<exists>us zs. ys = us @ zs \<and> list_all2 row_step xs us)"

lemma row_step_refl [simp]: "row_step a a"
  by (simp add: row_step_def)

lemma row_step_trans: "row_step a b \<Longrightarrow> row_step b c \<Longrightarrow> row_step a c"
  by (auto simp: row_step_def)

lemma ledger_step_append: "list_all2 row_step xs ys \<Longrightarrow> ledger_step xs (ys @ zs)"
  by (auto simp: ledger_step_def)

lemma ledger_step_all2: "list_all2 row_step xs ys \<Longrightarrow> ledger_step xs ys"
  using ledger_step_append [of xs ys "[]"] by simp

lemma ledger_step_refl [simp]: "ledger_step xs xs"
  by (rule ledger_step_all2) (simp add: list_all2_same)

lemma ledger_step_trans:
  assumes "ledger_step xs ys" "ledger_step ys zs"
  shows "ledger_step xs zs"
proof -
  obtain us vs where 1: "ys = us @ vs" "list_all2 row_step xs us" using assms(1) by (auto simp: ledger_step_def)
  obtain ps qs where 2: "zs = ps @ qs" "list_all2 row_step ys ps" using assms(2) by (auto simp: ledger_step_def)
  obtain as bs where 3: "ps = as @ bs" "list_all2 row_step us as"
    using 2(2) 1(1) by (auto simp: list_all2_append1)
  have "list_all2 row_step xs as" using row_step_trans 1(2) 3(2) by (rule list_all2_trans)
  then show ?thesis using ledger_step_append [of xs as "bs @ qs"] by (simp add: 2(1) 3(1))
qed

lemma on_order_step:
  "(\<And>row. o_cl_ord_id row = c \<Longrightarrow> row_step row (f row)) \<Longrightarrow> list_all2 row_step rows (on_order c f rows)"
  by (induction rows) (auto simp: on_order_def)

text \<open>Statuses never return to PENDING, and identities stay, in every operation of a settlement.\<close>

definition orders_step :: "'a tx \<Rightarrow> bool" where
  "orders_step m \<longleftrightarrow> (\<forall>d. list_all2 row_step (t_orders d) (t_orders (snd (m d))))"

definition orders_same :: "'a tx \<Rightarrow> bool" where
  "orders_same m \<longleftrightarrow> (\<forall>d. t_orders (snd (m d)) = t_orders d)"

lemma rows_refl [simp]: "list_all2 row_step xs xs"
  by (simp add: list_all2_same)

lemma rows_trans: "list_all2 row_step xs ys \<Longrightarrow> list_all2 row_step ys zs \<Longrightarrow> list_all2 row_step xs zs"
  using row_step_trans by (rule list_all2_trans)

lemma orders_step_keeps: "orders_step m \<longleftrightarrow> (\<forall>xs. keeps (\<lambda>d. list_all2 row_step xs (t_orders d)) m)"
  unfolding orders_step_def keeps_def by (metis rows_refl rows_trans)

lemma orders_same_keeps: "orders_same m \<longleftrightarrow> (\<forall>xs. keeps (\<lambda>d. t_orders d = xs) m)"
  unfolding orders_same_def keeps_def by metis

lemma orders_same_step: "orders_same m \<Longrightarrow> orders_step m"
  by (simp add: orders_same_def orders_step_def)

lemma orders_step_change:
  "(\<And>row. o_cl_ord_id row = c \<Longrightarrow> row_step row (f row)) \<Longrightarrow> orders_step (change_order c f)"
  unfolding orders_step_def change_order_def modify_def by (simp add: on_order_step)

lemma orders_step_marks:
  "orders_step (mark_sent c t)" "orders_step (mark_failed c err)"
  unfolding mark_sent_def mark_failed_def by (rule orders_step_change, simp add: row_step_def)+

lemma orders_step_mark_filled: "orders_step (mark_filled c t v p f co)"
proof -
  have "orders_step (change_order c (\<lambda>row. row\<lparr>o_txid := Some t, o_executed_volume := Some v',
      o_executed_price := Some p', o_fee := Some f', o_cost := Some c', o_status := FILLED\<rparr>))" for v' p' f' c'
    by (rule orders_step_change) (simp add: row_step_def)
  then show ?thesis
    unfolding orders_step_keeps mark_filled_def get_by_cl_ord_id_def
    by (auto intro!: keeps_intros)
qed

lemma orders_step_settle: "orders_step (settle c l)"
  using orders_step_marks orders_step_mark_filled unfolding orders_step_keeps settle_def
  by (auto intro!: keeps_intros split: option.splits)

lemma orders_same_gets: "orders_same (gets f)"
  by (simp add: orders_same_def gets_def)

lemma orders_same_telemetry:
  "orders_same (pin_snapshot u i)" "orders_same (finish_evaluation i st t l)"
  "orders_same (start_evaluation i u t oo tr)" "orders_same (record_snapshot i u t f tv c h)"
  unfolding orders_same_keeps pin_snapshot_def finish_evaluation_def start_evaluation_def record_snapshot_def
  by (auto intro!: keeps_intros keeps_modify)

lemma orders_same_keep_snapshot: "orders_same (keep_snapshot i u t f tv c h)"
  using orders_same_telemetry(4) unfolding orders_same_keeps keep_snapshot_def latest_snapshot_def
  by (auto intro!: keeps_intros keeps_modify split: option.splits)

lemma orders_same_reads:
  "orders_same (pending_orders u)" "orders_same (has_unresolved u)" "orders_same (get_by_cl_ord_id c)"
  "orders_same (get_settings u)" "orders_same (get_credentials u)" "orders_same (list_assets u)"
  unfolding pending_orders_def has_unresolved_def get_by_cl_ord_id_def get_settings_def get_credentials_def list_assets_def
  by (rule orders_same_gets)+

end
