(* ===== verification/Execution.thy ===== *)
theory Execution
  imports Settlement Reconcile
begin

text \<open>
  Placing orders (\<open>core/execution.py\<close>): the plan of an operation, the sizing of its legs, and
  the evaluation that sends them. The variables an evaluation shares with its steps (the log,
  the results, whether its snapshot is pinned) are fields of the world, because what they hold
  when a step raises is what is recorded.
\<close>

section \<open>The data\<close>

datatype evaluation_status =
    DONE | NOTHING_TO_DO | STOPPED | UNRESOLVED | KRAKEN_UNAVAILABLE | PREVIEW | ERROR | PARTIAL
  | PROPOSED | SUPERSEDED

record evaluation_result =
  er_status :: evaluation_status
  er_preview :: bool
  er_legs :: "leg_result list"
  er_messages :: "string list"
  er_lookup_failed :: bool

record planned =
  pn_view :: portfolio_view
  pn_legs :: "planned_leg list"
  pn_free_cash :: dec
  pn_fiat_places :: int

type_synonym decision = "planned \<Rightarrow> evaluation_status option io"

record account =
  ac_fiat :: string
  ac_policy :: policy
  ac_floor :: dec
  ac_targets :: "configured_asset list"
  ac_sealed :: sealed

definition UNRESOLVED_MESSAGE :: string where
  "UNRESOLVED_MESSAGE = ''an earlier order is still unresolved; nothing was computed''"

fun status_name :: "evaluation_status \<Rightarrow> string" where
  "status_name DONE = ''DONE''"
| "status_name NOTHING_TO_DO = ''NOTHING_TO_DO''"
| "status_name STOPPED = ''STOPPED''"
| "status_name UNRESOLVED = ''UNRESOLVED''"
| "status_name KRAKEN_UNAVAILABLE = ''KRAKEN_UNAVAILABLE''"
| "status_name PREVIEW = ''PREVIEW''"
| "status_name ERROR = ''ERROR''"
| "status_name PARTIAL = ''PARTIAL''"
| "status_name PROPOSED = ''PROPOSED''"
| "status_name SUPERSEDED = ''SUPERSEDED''"

fun leg_status_name :: "leg_status \<Rightarrow> string" where
  "leg_status_name LEG_FILLED = ''FILLED''"
| "leg_status_name LEG_FAILED = ''FAILED''"
| "leg_status_name LEG_PENDING = ''PENDING''"
| "leg_status_name LEG_SKIPPED = ''SKIPPED''"
| "leg_status_name LEG_VALIDATED = ''VALIDATED''"
| "leg_status_name LEG_REJECTED = ''REJECTED''"
| "leg_status_name LEG_UNCHECKED = ''UNCHECKED''"

section \<open>The plan: _load, _plan, _free_cash\<close>

definition load_account :: "uuid \<Rightarrow> bool \<Rightarrow> account tx" where
  "load_account user sells =
     bind (get_settings user) (\<lambda>settings. case settings of
       None \<Rightarrow> throw (NotReady ''choose a fiat with PATCH /api/config first'')
     | Some s \<Rightarrow> bind (get_credentials user) (\<lambda>record. case record of
         None \<Rightarrow> throw (NotReady ''register a Kraken key with POST /api/credentials first'')
       | Some r \<Rightarrow> bind (list_assets user) (\<lambda>rows. ret
           \<lparr>ac_fiat = st_fiat s,
            ac_policy = \<lparr>allow_sells = sells,
              cash_policy = (if st_cash_rebalance_enabled s then REDUCE_DRIFT else PRORATA),
              min_drift_pct = st_min_drift_pct s, min_order_fiat = 0\<rparr>,
            ac_floor = st_min_order_fiat s,
            ac_targets = map (\<lambda>row. \<lparr>ca_asset = as_asset row, ca_pair = as_pair row, ca_target_pct = as_target_pct row\<rparr>) rows,
            ac_sealed = cr_sealed r\<rparr>)))"

definition free_cash :: "portfolio_view \<Rightarrow> dec" where
  "free_cash v =
     (let wanted = dquot (dmul (pv_managed_value v) (pv_cash_target_pct v)) HUNDRED;
          excess = dsub (pv_cash v) wanted
      in if 0 < excess then excess else 0)"

definition below_minimum :: "string \<Rightarrow> dec \<Rightarrow> dec \<Rightarrow> string option" where
  "below_minimum fiat amount minimum =
     (if amount < minimum
      then Some (plain_amount amount @ '' '' @ fiat @ '' is below the minimum of '' @ plain_amount minimum @ '' '' @ fiat)
      else None)"

text \<open>The volume of a sell: everything held on an exit, and never more than is held.\<close>

definition sell_volume :: "pair_meta \<Rightarrow> leg \<Rightarrow> holding \<Rightarrow> dec \<Rightarrow> dec \<Rightarrow> dec option result" where
  "sell_volume meta l h price target =
     (if leg_side l = BUY then Inr None
      else rbind (round_volume meta (hd_amount h)) (\<lambda>held.
             if target = 0 then Inr (Some held)
             else rbind (volume_from_fiat meta (leg_amount_fiat l) price) (\<lambda>v. Inr (Some (min v held)))))"

text \<open>One leg of the plan, sized against the minimum of its pair; the body of the loop of \<open>_plan\<close>.\<close>

definition size_leg ::
  "account \<Rightarrow> (string \<rightharpoonup> pair_meta) \<Rightarrow> (string \<rightharpoonup> string) \<Rightarrow> (string \<rightharpoonup> dec) \<Rightarrow> (string \<rightharpoonup> holding) \<Rightarrow> leg \<Rightarrow> planned_leg result" where
  "size_leg account metas pair_of target_of managed l =
     rbind (get_item pair_of (leg_asset l)) (\<lambda>pair.
       case (case metas pair of None \<Rightarrow> None | Some meta \<Rightarrow> if tradable meta then Some meta else None) of
         None \<Rightarrow> Inr \<lparr>pg_asset = leg_asset l, pg_pair = pair, pg_side = leg_side l, pg_amount = leg_amount_fiat l,
                      pg_minimum = None, pg_note = Some (''kraken does not trade '' @ pair @ '' now''),
                      pg_volume = None, pg_meta = None\<rparr>
       | Some meta \<Rightarrow>
           rbind (get_item managed (leg_asset l)) (\<lambda>h.
           rbind (case hd_price h of None \<Rightarrow> Inl TypeError | Some p \<Rightarrow> Inr p) (\<lambda>price.
           rbind (round_cost meta (leg_amount_fiat l)) (\<lambda>amount.
           rbind (get_item target_of (leg_asset l)) (\<lambda>target.
           rbind (sell_volume meta l h price target) (\<lambda>volume.
             let minimum = max (minimum_fiat meta price) (ac_floor account)
             in Inr \<lparr>pg_asset = leg_asset l, pg_pair = pair, pg_side = leg_side l, pg_amount = amount,
                     pg_minimum = Some minimum, pg_note = below_minimum (ac_fiat account) amount minimum,
                     pg_volume = volume, pg_meta = Some meta\<rparr>))))))"

definition plan_legs ::
  "account \<Rightarrow> portfolio_view \<Rightarrow> pair_meta dict \<Rightarrow> planned_leg list result" where
  "plan_legs account view metas =
     (let managed = dict_of (map (\<lambda>h. (hd_asset h, h)) (filter hd_managed (pv_holdings view)));
          pair_of = dict_of (map (\<lambda>t. (ca_asset t, ca_pair t)) (ac_targets account));
          target_of = dict_of (map (\<lambda>t. (ca_asset t, ca_target_pct t)) (ac_targets account))
      in rbind (reconcile (\<lambda>a. map_option hd_amount (map_of managed a))
             (\<lambda>a. Option.bind (map_of managed a) hd_price) target_of (pv_cash view) (ac_policy account)) (\<lambda>plan.
           rmap (size_leg account (map_of metas) (map_of pair_of) (map_of target_of) (map_of managed)) (legs plan)))"

definition make_planned :: "env \<Rightarrow> world public_reads \<Rightarrow> account \<Rightarrow> world client \<Rightarrow> planned io" where
  "make_planned e public account private =
     bind (read_portfolio public private (ac_fiat account) (ac_targets account)) (\<lambda>view.
     seq (case unpriced view of
            [] \<Rightarrow> ret ()
          | a # _ \<Rightarrow> throw (PortfolioUnavailable (''a price for '' @ a)))
     (bind (require ''asset pairs'' (catalog_pairs e)) (\<lambda>metas.
      bind (catalog_decimals e) (\<lambda>decimals.
      bind (case Option.bind decimals (\<lambda>d. map_of d (ac_fiat account)) of
              None \<Rightarrow> throw (PortfolioUnavailable ''asset decimals'') | Some n \<Rightarrow> ret n) (\<lambda>places.
      bind (lift_result (plan_legs account view metas)) (\<lambda>ls.
      ret \<lparr>pn_view = view, pn_legs = ls, pn_free_cash = free_cash view, pn_fiat_places = places\<rparr>))))))"

section \<open>Sending one leg: _Pin, _place, _send, _attempt\<close>

definition pin :: "env \<Rightarrow> uuid \<Rightarrow> uuid \<Rightarrow> unit io" where
  "pin e user snapshot_id =
     bind (gets w_pinned) (\<lambda>done_before.
       if done_before then ret ()
       else seq (transaction e (pin_snapshot user snapshot_id)) (modify (\<lambda>w. w\<lparr>w_pinned := True\<rparr>)))"

definition place :: "world client \<Rightarrow> planned_leg \<Rightarrow> string \<Rightarrow> bool \<Rightarrow> placement io" where
  "place private l cl_ord_id validate =
     (if pg_side l = BUY then add_order private (pg_pair l) ''buy'' (pg_amount l) cl_ord_id True validate
      else (case pg_volume l of
              None \<Rightarrow> throw TypeError
            | Some v \<Rightarrow> add_order private (pg_pair l) ''sell'' v cl_ord_id False validate))"

definition skipped :: "planned_leg \<Rightarrow> string \<Rightarrow> leg_result" where
  "skipped l note =
     \<lparr>lr_asset = pg_asset l, lr_pair = pg_pair l, lr_side = pg_side l, lr_amount_fiat = pg_amount l,
      lr_minimum_fiat = pg_minimum l, lr_status = LEG_SKIPPED, lr_cl_ord_id = None, lr_txid = None,
      lr_cost = None, lr_executed_volume = None, lr_executed_price = None, lr_fee = None,
      lr_error = None, lr_note = Some note, lr_volume = pg_volume l\<rparr>"

fun leg_status_of :: "order_status \<Rightarrow> leg_status" where
  "leg_status_of PENDING = LEG_PENDING"
| "leg_status_of FILLED = LEG_FILLED"
| "leg_status_of FAILED = LEG_FAILED"

definition from_row :: "planned_leg \<Rightarrow> order_row \<Rightarrow> leg_result" where
  "from_row l row =
     \<lparr>lr_asset = pg_asset l, lr_pair = pg_pair l, lr_side = pg_side l, lr_amount_fiat = pg_amount l,
      lr_minimum_fiat = pg_minimum l, lr_status = leg_status_of (o_status row),
      lr_cl_ord_id = Some (o_cl_ord_id row), lr_txid = o_txid row,
      lr_cost = o_cost row, lr_executed_volume = o_executed_volume row,
      lr_executed_price = o_executed_price row, lr_fee = o_fee row,
      lr_error = o_error row, lr_note = None, lr_volume = pg_volume l\<rparr>"

text \<open>What follows an answer: a refusal is written down, a named order is read and settled.\<close>

definition after_placement :: "env \<Rightarrow> world client \<Rightarrow> string \<Rightarrow> placement \<Rightarrow> unit io" where
  "after_placement e private cl_ord_id p =
     (case pl_outcome p of
        REFUSED \<Rightarrow> transaction e (mark_failed cl_ord_id (pl_error p))
      | SENT \<Rightarrow>
          (case pl_txid p of
             None \<Rightarrow> throw TypeError
           | Some txid \<Rightarrow>
               seq (transaction e (mark_sent cl_ord_id txid))
                 (bind (find_order_by_txid private txid) (\<lambda>lookup.
                  bind (transaction e (settle cl_ord_id lookup)) (\<lambda>_. ret ()))))
      | _ \<Rightarrow> ret ())"

definition send_leg ::
  "env \<Rightarrow> uuid \<Rightarrow> uuid \<Rightarrow> world client \<Rightarrow> planned_leg \<Rightarrow> order_reason \<Rightarrow> leg_result io" where
  "send_leg e user evaluation_id private l reason =
     bind (fresh e) (\<lambda>u.
       let cl_ord_id = hex u in
       bind (now e) (\<lambda>t.
       seq (transaction e (record_attempt user cl_ord_id (pg_pair l) (pg_asset l) (pg_side l) reason
              (pg_amount l) (Some t) (Some evaluation_id)))
       (bind (place private l cl_ord_id False) (\<lambda>p.
        seq (after_placement e private cl_ord_id p)
        (bind (transaction e (get_by_cl_ord_id cl_ord_id)) (\<lambda>row.
           case row of None \<Rightarrow> throw AttributeError | Some r \<Rightarrow> ret (from_row l r)))))))"

definition attempt ::
  "env \<Rightarrow> uuid \<Rightarrow> uuid \<Rightarrow> world client \<Rightarrow> planned_leg \<Rightarrow> order_reason \<Rightarrow> bool \<Rightarrow> uuid \<Rightarrow> (leg_result \<times> bool) io" where
  "attempt e user evaluation_id private l reason stopped snapshot_id =
     (case pg_note l of
        Some note \<Rightarrow> ret (skipped l note, stopped)
      | None \<Rightarrow>
          if stopped then ret (skipped l ''not sent: an earlier order's answer is unknown'', True)
          else seq (pin e user snapshot_id)
            (bind (send_leg e user evaluation_id private l reason) (\<lambda>r.
             ret (r, lr_status r = LEG_PENDING \<and> lr_txid r = None))))"

section \<open>Sending a plan: _describe, _within, _send_all\<close>

definition describe :: "leg_result \<Rightarrow> string \<Rightarrow> string" where
  "describe r fiat =
     lr_asset r @ '': '' @ side_value (lr_side r) @ '' of '' @ plain_amount (lr_amount_fiat r) @ '' '' @ fiat @ '' '' @
     leg_status_name (lr_status r) @
     (case lr_error r of None \<Rightarrow> [] | Some t \<Rightarrow> if t = [] then [] else '' ('' @ t @ '')'') @
     (case lr_note r of None \<Rightarrow> [] | Some t \<Rightarrow> if t = [] then [] else '': '' @ t)"

text \<open>A buy scaled by the factor of the budget; one below its minimum is skipped.\<close>

definition shrink :: "dec \<Rightarrow> string \<Rightarrow> planned_leg \<Rightarrow> planned_leg result" where
  "shrink factor fiat l =
     (if pg_note l \<noteq> None then Inr l
      else (case pg_meta l of
              None \<Rightarrow> Inl AttributeError
            | Some meta \<Rightarrow>
                rbind (round_cost meta (dmul (pg_amount l) factor)) (\<lambda>amount.
                  case pg_minimum l of
                    None \<Rightarrow> Inl TypeError
                  | Some minimum \<Rightarrow> Inr (l\<lparr>pg_amount := amount, pg_note :=
                      map_option (\<lambda>text. ''after the sells, '' @ text) (below_minimum fiat amount minimum)\<rparr>))))"

definition within_budget :: "planned_leg list \<Rightarrow> dec \<Rightarrow> string \<Rightarrow> planned_leg list result" where
  "within_budget buys budget fiat =
     (let asked = dsum (map pg_amount (filter (\<lambda>l. pg_note l = None) buys))
      in if asked \<le> budget then Inr buys
         else rbind (ddiv budget asked) (\<lambda>factor. rmap (shrink factor fiat) buys))"

text \<open>One leg of either loop: the attempt, and its trace in the results and the log.\<close>

definition attempt_and_log ::
  "env \<Rightarrow> uuid \<Rightarrow> uuid \<Rightarrow> world client \<Rightarrow> order_reason \<Rightarrow> string \<Rightarrow> uuid \<Rightarrow> planned_leg \<Rightarrow> bool \<Rightarrow> (leg_result \<times> bool) io" where
  "attempt_and_log e user evaluation_id private reason fiat snapshot_id l stopped =
     bind (attempt e user evaluation_id private l reason stopped snapshot_id) (\<lambda>(r, stopped').
       seq (modify (\<lambda>w. w\<lparr>w_legs := w_legs w @ [r]\<rparr>))
       (seq (log_line (describe r fiat)) (ret (r, stopped'))))"

definition sell_step ::
  "env \<Rightarrow> uuid \<Rightarrow> uuid \<Rightarrow> world client \<Rightarrow> order_reason \<Rightarrow> string \<Rightarrow> uuid \<Rightarrow> int \<Rightarrow> planned_leg \<Rightarrow> dec \<times> bool \<Rightarrow> (dec \<times> bool) io" where
  "sell_step e user evaluation_id private reason fiat snapshot_id places l acc =
     bind (attempt_and_log e user evaluation_id private reason fiat snapshot_id l (snd acc)) (\<lambda>(r, stopped).
       if lr_status r = LEG_FILLED
       then bind (lift_result (credited (case lr_cost r of None \<Rightarrow> 0 | Some c \<Rightarrow> c)
                    (case lr_fee r of None \<Rightarrow> 0 | Some f \<Rightarrow> f) places)) (\<lambda>x. ret (dadd (fst acc) x, stopped))
       else ret (fst acc, stopped))"

definition buy_step ::
  "env \<Rightarrow> uuid \<Rightarrow> uuid \<Rightarrow> world client \<Rightarrow> order_reason \<Rightarrow> string \<Rightarrow> uuid \<Rightarrow> planned_leg \<Rightarrow> bool \<Rightarrow> bool io" where
  "buy_step e user evaluation_id private reason fiat snapshot_id l stopped =
     bind (attempt_and_log e user evaluation_id private reason fiat snapshot_id l stopped) (\<lambda>(r, stopped'). ret stopped')"

definition send_all ::
  "env \<Rightarrow> uuid \<Rightarrow> uuid \<Rightarrow> world client \<Rightarrow> planned \<Rightarrow> order_reason \<Rightarrow> string \<Rightarrow> uuid \<Rightarrow> bool io" where
  "send_all e user evaluation_id private planned reason fiat snapshot_id =
     bind (for_fold (filter (\<lambda>l. pg_side l = SELL) (pn_legs planned)) (pn_free_cash planned, False)
            (sell_step e user evaluation_id private reason fiat snapshot_id (pn_fiat_places planned))) (\<lambda>(budget, stopped).
     bind (lift_result (within_budget (filter (\<lambda>l. pg_side l = BUY) (pn_legs planned)) budget fiat)) (\<lambda>buys.
     for_fold buys stopped (buy_step e user evaluation_id private reason fiat snapshot_id)))"

section \<open>An evaluation: _evaluate, _run, evaluate\<close>

definition evaluate_inner ::
  "env \<Rightarrow> world public_reads \<Rightarrow> uuid \<Rightarrow> uuid \<Rightarrow> account \<Rightarrow> world client \<Rightarrow> order_reason \<Rightarrow> decision \<Rightarrow> evaluation_status io" where
  "evaluate_inner e public user evaluation_id account private reason decide =
     bind (now e) (\<lambda>t0.
     bind (resolve_pending e private user t0) (\<lambda>resolution.
     seq (modify (\<lambda>w. w\<lparr>w_log := w_log w @ rs_messages resolution\<rparr>))
     (if \<not> rs_clear resolution
      then seq (log_line UNRESOLVED_MESSAGE)
        (seq (modify (\<lambda>w. w\<lparr>w_blocked := w_blocked w @ [rs_lookup_failed resolution]\<rparr>)) (ret UNRESOLVED))
      else
        bind (make_planned e public account private) (\<lambda>planned.
        bind (now e) (\<lambda>t1.
        bind (fresh e) (\<lambda>new_id.
        bind (lift_result (snapshot_json (pn_view planned))) (\<lambda>holdings.
        bind (transaction e (keep_snapshot new_id user t1 (ac_fiat account) (pv_managed_value (pn_view planned))
               (pv_cash (pn_view planned)) holdings)) (\<lambda>snapshot_id.
        bind (decide planned) (\<lambda>verdict.
          case verdict of
            Some status \<Rightarrow> ret status
          | None \<Rightarrow>
              seq (modify (\<lambda>w. w\<lparr>w_pinned := False\<rparr>))
              (bind (send_all e user evaluation_id private planned reason (ac_fiat account) snapshot_id) (\<lambda>stopped.
               bind (gets w_legs) (\<lambda>results.
                 if stopped then ret STOPPED
                 else if list_ex (\<lambda>r. lr_status r = LEG_FAILED) results then ret PARTIAL
                 else if list_ex (\<lambda>r. lr_status r \<noteq> LEG_SKIPPED) results then ret DONE
                 else seq (if results = [] then log_line ''the plan has no orders; nothing was sent'' else ret ())
                        (ret NOTHING_TO_DO)))))))))))))"

definition joined_log :: "string list \<Rightarrow> string option" where
  "joined_log lines = (let text = concat (case lines of [] \<Rightarrow> [] | l # ls \<Rightarrow> l # map (\<lambda>t. CHR 0x0A # t) ls)
     in if text = [] then None else Some text)"

definition run_evaluation ::
  "env \<Rightarrow> world public_reads \<Rightarrow> uuid \<Rightarrow> account \<Rightarrow> world client \<Rightarrow> order_reason \<Rightarrow> decision \<Rightarrow>
     operation \<Rightarrow> trigger \<Rightarrow> evaluation_result io" where
  "run_evaluation e public user account private reason decide op_name trg =
     bind (now e) (\<lambda>started.
     bind (fresh e) (\<lambda>new_id.
     bind (transaction e (start_evaluation new_id user started (Some op_name) (Some trg))) (\<lambda>evaluation_id.
     seq (modify (\<lambda>w. w\<lparr>w_log := [], w_legs := [], w_blocked := []\<rparr>))
     (bind (try_finally
        (try_except (evaluate_inner e public user evaluation_id account private reason decide)
           (\<lambda>exc. case exc of
              PortfolioUnavailable what \<Rightarrow>
                Some (seq (log_line (''kraken did not return '' @ what @ ''; nothing was sent'')) (ret KRAKEN_UNAVAILABLE))
            | _ \<Rightarrow> None))
        (\<lambda>r. bind (now e) (\<lambda>finished. bind (gets w_log) (\<lambda>lines.
           transaction e (finish_evaluation evaluation_id (status_name (case r of Inl _ \<Rightarrow> ERROR | Inr s \<Rightarrow> s))
             finished (joined_log lines)))))) (\<lambda>status.
      bind (gets (\<lambda>w. (w_legs w, w_log w, w_blocked w))) (\<lambda>(results, lines, blocked).
      ret \<lparr>er_status = status, er_preview = False, er_legs = results, er_messages = lines,
           er_lookup_failed = list_ex id blocked\<rparr>))))))"

definition evaluate ::
  "env \<Rightarrow> world public_reads \<Rightarrow> uuid \<Rightarrow> bool \<Rightarrow> order_reason \<Rightarrow> decision \<Rightarrow> operation \<Rightarrow> trigger \<Rightarrow> evaluation_result io" where
  "evaluate e public user sells reason decide op_name trg =
     bind (transaction e (load_account user sells)) (\<lambda>account.
     bind (lift_result (env_unseal e user (ac_sealed account))) (\<lambda>credentials.
       if \<not> env_lock e user then throw EvaluationBusy
       else run_evaluation e public user account (kraken e (Some credentials)) reason decide op_name trg))"

section \<open>An investment: invest, _still_scheduled, _preview\<close>

definition send_it :: decision where
  "send_it planned = ret None"

definition still_scheduled :: "env \<Rightarrow> uuid \<Rightarrow> decision" where
  "still_scheduled e user planned =
     bind (transaction e (get_settings user)) (\<lambda>settings.
       if (case settings of None \<Rightarrow> True | Some s \<Rightarrow> \<not> st_invest_cash_enabled s)
       then seq (log_line ''investing was switched off; nothing was sent'') (ret (Some NOTHING_TO_DO))
       else if (case settings of None \<Rightarrow> False | Some s \<Rightarrow> st_paused s)
       then seq (log_line ''scheduled operations are paused; nothing was sent'') (ret (Some NOTHING_TO_DO))
       else ret None)"

definition preview_leg :: "env \<Rightarrow> world client \<Rightarrow> planned_leg \<Rightarrow> leg_result list \<Rightarrow> leg_result list io" where
  "preview_leg e private l acc =
     (case pg_note l of
        Some note \<Rightarrow> ret (acc @ [skipped l note])
      | None \<Rightarrow>
          bind (fresh e) (\<lambda>u.
          bind (place private l (hex u) True) (\<lambda>p.
            ret (acc @ [(skipped l [])\<lparr>lr_note := None, lr_volume := None, lr_error := pl_error p,
              lr_status := (case pl_outcome p of VALIDATED \<Rightarrow> LEG_VALIDATED | REFUSED \<Rightarrow> LEG_REJECTED | _ \<Rightarrow> LEG_UNCHECKED)\<rparr>]))))"

definition preview_result :: "evaluation_status \<Rightarrow> leg_result list \<Rightarrow> string list \<Rightarrow> evaluation_result" where
  "preview_result status ls messages =
     \<lparr>er_status = status, er_preview = True, er_legs = ls, er_messages = messages, er_lookup_failed = False\<rparr>"

definition preview :: "env \<Rightarrow> world public_reads \<Rightarrow> uuid \<Rightarrow> account \<Rightarrow> world client \<Rightarrow> evaluation_result io" where
  "preview e public user account private =
     bind (transaction e (has_unresolved user)) (\<lambda>unresolved.
       if unresolved then ret (preview_result UNRESOLVED [] [UNRESOLVED_MESSAGE])
       else bind (try_except (bind (make_planned e public account private) (\<lambda>planned. ret (Inr planned)))
              (\<lambda>exc. case exc of
                 PortfolioUnavailable what \<Rightarrow> Some (ret (Inl (''kraken did not return '' @ what)))
               | _ \<Rightarrow> None)) (\<lambda>outcome.
            case outcome of
              Inl message \<Rightarrow> ret (preview_result KRAKEN_UNAVAILABLE [] [message])
            | Inr planned \<Rightarrow>
                bind (for_fold (pn_legs planned) [] (preview_leg e private)) (\<lambda>ls.
                ret (preview_result PREVIEW ls []))))"

definition invest :: "env \<Rightarrow> world public_reads \<Rightarrow> uuid \<Rightarrow> bool \<Rightarrow> trigger \<Rightarrow> evaluation_result io" where
  "invest e public user is_preview trg =
     (if is_preview
      then bind (transaction e (load_account user False)) (\<lambda>account.
           bind (lift_result (env_unseal e user (ac_sealed account))) (\<lambda>credentials.
           preview e public user account (kraken e (Some credentials))))
      else evaluate e public user False INVEST
             (if trg = SCHEDULER then still_scheduled e user else send_it) OP_INVEST trg)"

section \<open>What a placement does\<close>

text \<open>Placing either sends nothing and raises, or sends one order and says what its answer means.\<close>

definition order_for :: "planned_leg \<Rightarrow> string \<Rightarrow> bool \<Rightarrow> dec \<Rightarrow> request" where
  "order_for l c validate x = AddOrder \<lparr>ao_pair = pg_pair l, ao_type = side_value (pg_side l), ao_ordertype = ''market'',
     ao_volume = x, ao_cl_ord_id = c, ao_oflags = Some (if pg_side l = BUY then ''viqc,fcib'' else ''fciq''), ao_validate = validate\<rparr>"

lemma order_for_simps [simp]:
  "trades (order_for l c validate x) = (\<not> validate)" "client_id (order_for l c validate x) = c"
  by (simp_all add: order_for_def)

lemma place_cases:
  assumes "place (kraken e who) l c validate w = (r, w')"
  obtains (stuck) "r = Inl TypeError \<or> r = Inl MissingCredentials" "w' = w"
    | (placed) k a x where "who = Some k" "r = Inr (placement_of validate (called a))"
        "w' = w\<lparr>w_trace := w_trace w @ [\<lparr>evt_who = Some k, evt_request = order_for l c validate x, evt_answer = a, evt_db = w_db w\<rparr>]\<rparr>"
        "pg_side l = BUY \<longrightarrow> x = pg_amount l"
proof -
  consider (buy) "pg_side l = BUY" | (sell) x where "pg_side l = SELL" "pg_volume l = Some x"
    | (none) "pg_side l = SELL" "pg_volume l = None"
    by (metis side.exhaust option.exhaust)
  then show ?thesis
  proof cases
    case buy
    then show ?thesis using assms stuck placed
      by (cases who) (auto simp: place_def add_order_def call_private_def kraken_def send_def act_defs Let_def order_for_def)
  next
    case sell
    then show ?thesis using assms stuck placed
      by (cases who) (auto simp: place_def add_order_def call_private_def kraken_def send_def act_defs Let_def order_for_def)
  next
    case none
    then show ?thesis using assms stuck by (auto simp: place_def throw_def)
  qed
qed

end
