(* ===== verification/Rebalance.thy ===== *)
theory Rebalance
  imports Execution
begin

text \<open>
  The rebalance and its proposal (\<open>core/rebalance.py\<close>): what an evaluation decides once its
  plan is known, and the life of the one proposal a user has. The lines a decision logs inside
  a transaction are collected there and appended when it commits: nothing after the first of
  them can raise.
\<close>

record rebalance_result =
  rr_evaluation :: evaluation_result
  rr_proposal :: "proposal_state option"

definition proposal_of :: "proposal_row \<Rightarrow> proposal_state" where
  "proposal_of row =
     \<lparr>ps_version = pr_version row, ps_status = pr_status row, ps_trigger = pr_trigger row, ps_plan = pr_plan row,
      ps_updated_at = pr_updated_at row\<rparr>"

definition state_of :: "proposal_row option \<Rightarrow> proposal_state option" where
  "state_of found = map_option proposal_of found"

definition current :: "env \<Rightarrow> uuid \<Rightarrow> proposal_state option io" where
  "current e user = bind (transaction e (get_live_proposal user)) (\<lambda>row. ret (state_of row))"

definition withdraw_tx :: "uuid \<Rightarrow> int \<Rightarrow> bool tx" where
  "withdraw_tx user version =
     bind (get_proposal user) (\<lambda>slot. case slot of
       None \<Rightarrow> ret False
     | Some row \<Rightarrow>
         if pr_status row \<noteq> LIVE then ret False
         else if pr_version row \<noteq> version then throw (StaleVersion (proposal_of row))
         else withdraw_slot user)"

definition withdraw :: "env \<Rightarrow> uuid \<Rightarrow> int \<Rightarrow> bool io" where
  "withdraw e user version = transaction e (withdraw_tx user version)"

section \<open>_why_nothing and _keep\<close>

text \<open>The reason, after the line of each skipped leg.\<close>

definition why_nothing :: "document \<Rightarrow> string \<times> string list" where
  "why_nothing doc =
     (let skipped = filter (\<lambda>l. dl_note l \<noteq> None) (doc_legs doc)
      in if skipped = [] then (''the drift is below the threshold'', [])
         else (''no order can be sent'',
               map (\<lambda>l. dl_asset l @ '': '' @ dl_side l @ '' skipped, '' @ the (dl_note l)) skipped))"

definition keep_proposal :: "uuid \<Rightarrow> document \<Rightarrow> proposal_trigger \<Rightarrow> string list tx" where
  "keep_proposal user doc trg =
     bind (get_proposal user) (\<lambda>slot.
       let live = (case slot of None \<Rightarrow> False | Some row \<Rightarrow> pr_status row = LIVE)
       in if \<not> has_orders doc
          then (case why_nothing doc of (reason, lines) \<Rightarrow>
                 if live then bind (withdraw_slot user) (\<lambda>_. ret (lines @ [reason @ ''; the proposal was withdrawn'']))
                 else ret (lines @ [reason @ ''; nothing to propose'']))
          else bind (case slot of
                       None \<Rightarrow> ret False
                     | Some row \<Rightarrow> if live then bind (lift_result (is_material (pr_plan row) doc)) (\<lambda>m. ret (\<not> m)) else ret False)
                 (\<lambda>stands.
                   if stands
                   then ret [''proposal version '' @ string_of_int (pr_version (the slot)) @ '' still stands'']
                   else let version = (case slot of None \<Rightarrow> 1 | Some row \<Rightarrow> pr_version row + 1)
                        in seq (save_proposal user doc trg version)
                             (ret [''proposal version '' @ string_of_int version])))"

section \<open>propose\<close>

definition log_lines :: "string list \<Rightarrow> unit io" where
  "log_lines lines = modify (\<lambda>w. w\<lparr>w_log := w_log w @ lines\<rparr>)"

definition propose_decision :: "env \<Rightarrow> uuid \<Rightarrow> proposal_trigger \<Rightarrow> decision" where
  "propose_decision e user trg planned =
     (let doc = plan_document (pv_fiat (pn_view planned)) (pn_legs planned)
      in bind (transaction e (keep_proposal user doc trg)) (\<lambda>lines.
           seq (log_lines lines) (ret (Some (if has_orders doc then PROPOSED else NOTHING_TO_DO)))))"

definition propose :: "env \<Rightarrow> world public_reads \<Rightarrow> uuid \<Rightarrow> trigger \<Rightarrow> rebalance_result io" where
  "propose e public user trg =
     bind (evaluate e public user True REBALANCE
            (propose_decision e user (if trg = SCHEDULER then SCHEDULED else MANUAL)) OP_PROPOSE trg) (\<lambda>result.
     bind (current e user) (\<lambda>p. ret \<lparr>rr_evaluation = result, rr_proposal = p\<rparr>))"

section \<open>approve\<close>

text \<open>What an approval decides inside its transaction: None sends, after the slot is EXECUTING.\<close>

definition approve_tx :: "uuid \<Rightarrow> int \<Rightarrow> document \<Rightarrow> (evaluation_status option \<times> string list) tx" where
  "approve_tx user version doc =
     bind (get_live_proposal user) (\<lambda>slot. case slot of
       None \<Rightarrow> ret (Some SUPERSEDED, [''the proposal changed before it could execute; nothing was sent''])
     | Some row \<Rightarrow>
         if pr_version row \<noteq> version
         then ret (Some SUPERSEDED, [''the proposal changed before it could execute; nothing was sent''])
         else if \<not> has_orders doc
         then bind (keep_proposal user doc (pr_trigger row)) (\<lambda>lines. ret (Some SUPERSEDED, lines))
         else bind (lift_result (is_material (pr_plan row) doc)) (\<lambda>material.
           if material
           then bind (keep_proposal user doc (pr_trigger row)) (\<lambda>lines.
                ret (Some SUPERSEDED, lines @ [''the plan changed since it was proposed; nothing was sent'']))
           else seq (save_proposal user doc (pr_trigger row) version)
                (bind (set_status user EXECUTING) (\<lambda>_. ret (None, [])))))"

definition approve_decision :: "env \<Rightarrow> uuid \<Rightarrow> int \<Rightarrow> decision" where
  "approve_decision e user version planned =
     (let doc = plan_document (pv_fiat (pn_view planned)) (pn_legs planned)
      in bind (transaction e (approve_tx user version doc)) (\<lambda>(verdict, lines).
           seq (log_lines lines)
             (if verdict \<noteq> None then ret verdict
              else seq (modify (\<lambda>w. w\<lparr>w_executing := True\<rparr>))
                (seq (log_line (''proposal version '' @ string_of_int version @ '' approved; executing'')) (ret None)))))"

text \<open>The first transaction of an approval: the version read must be the live one.\<close>

definition approve_guard :: "uuid \<Rightarrow> int \<Rightarrow> unit tx" where
  "approve_guard user version =
     bind (get_live_proposal user) (\<lambda>slot. case slot of
       None \<Rightarrow> throw NoProposal
     | Some row \<Rightarrow> if pr_version row \<noteq> version then throw (StaleVersion (proposal_of row)) else ret ())"

definition approve :: "env \<Rightarrow> world public_reads \<Rightarrow> uuid \<Rightarrow> int \<Rightarrow> rebalance_result io" where
  "approve e public user version =
     seq (transaction e (approve_guard user version))
     (seq (modify (\<lambda>w. w\<lparr>w_executing := False\<rparr>))
     (bind (try_finally
        (evaluate e public user True REBALANCE (approve_decision e user version) OP_APPROVE API)
        (\<lambda>_. bind (gets w_executing) (\<lambda>executing.
           if executing then bind (transaction e (set_status user EXECUTED)) (\<lambda>_. ret ()) else ret ()))) (\<lambda>result.
      bind (current e user) (\<lambda>p. ret \<lparr>rr_evaluation = result, rr_proposal = p\<rparr>))))"

section \<open>rebalance_now\<close>

definition automatic_tx :: "uuid \<Rightarrow> (evaluation_status option \<times> string list) tx" where
  "automatic_tx user =
     bind (get_settings user) (\<lambda>settings.
       if (case settings of None \<Rightarrow> True | Some s \<Rightarrow> \<not> st_auto_rebalance_enabled s)
       then ret (Some NOTHING_TO_DO, [''automatic rebalancing was switched off; nothing was sent''])
       else if (case settings of None \<Rightarrow> False | Some s \<Rightarrow> st_paused s)
       then ret (Some NOTHING_TO_DO, [''scheduled operations are paused; nothing was sent''])
       else bind (get_live_proposal user) (\<lambda>slot. case slot of
         None \<Rightarrow> ret (None, [])
       | Some row \<Rightarrow> bind (withdraw_slot user) (\<lambda>_. ret (None,
           [''automatic rebalancing is on; proposal version '' @ string_of_int (pr_version row) @ '' was withdrawn'']))))"

definition automatic_decision :: "env \<Rightarrow> uuid \<Rightarrow> decision" where
  "automatic_decision e user planned =
     bind (transaction e (automatic_tx user)) (\<lambda>(verdict, lines). seq (log_lines lines) (ret verdict))"

definition rebalance_now :: "env \<Rightarrow> world public_reads \<Rightarrow> uuid \<Rightarrow> evaluation_result io" where
  "rebalance_now e public user =
     evaluate e public user True REBALANCE (automatic_decision e user) OP_REBALANCE SCHEDULER"

end
