(* ===== verification/Refresh.thy ===== *)
theory Refresh
  imports Database
begin

text \<open>
  Refresh tokens: their table (\<open>core/db/refresh_tokens.py\<close>) and their life
  (\<open>core/refresh.py\<close>). The digest of a token is a parameter, \<open>hash_refresh_token\<close>, of which
  nothing is assumed; a new value and a new family are arguments, because the code draws them
  at random. A row is named by its digest, which the table keeps unique.
\<close>

section \<open>core/db/refresh_tokens.py\<close>

definition add_refresh_token :: "uuid \<Rightarrow> uuid \<Rightarrow> string \<Rightarrow> datetime \<Rightarrow> datetime \<Rightarrow> unit tx" where
  "add_refresh_token user family token_hash issued_at expires_at =
     bind (gets t_tokens) (\<lambda>rows.
       if token_hash \<in> set (map tk_hash rows) then throw IntegrityError
       else modify (\<lambda>d. d\<lparr>t_tokens := t_tokens d @
         [\<lparr>tk_user = user, tk_family = family, tk_hash = token_hash, tk_issued_at = issued_at,
           tk_expires_at = expires_at, tk_used_at = None, tk_revoked_at = None\<rparr>]\<rparr>))"

definition get_refresh_token_for_update :: "string \<Rightarrow> token_row option tx" where
  "get_refresh_token_for_update token_hash = gets (\<lambda>d. find (\<lambda>r. tk_hash r = token_hash) (t_tokens d))"

definition use_token :: "string \<Rightarrow> datetime \<Rightarrow> token_row \<Rightarrow> token_row" where
  "use_token token_hash t r = (if tk_hash r = token_hash then r\<lparr>tk_used_at := Some t\<rparr> else r)"

definition mark_refresh_token_used :: "token_row \<Rightarrow> datetime \<Rightarrow> unit tx" where
  "mark_refresh_token_used token used_at =
     modify (\<lambda>d. d\<lparr>t_tokens := map (use_token (tk_hash token) used_at) (t_tokens d)\<rparr>)"

definition in_live_family :: "uuid \<Rightarrow> token_row \<Rightarrow> bool" where
  "in_live_family family r \<longleftrightarrow> tk_family r = family \<and> tk_revoked_at r = None"

definition revoke_token :: "uuid \<Rightarrow> datetime \<Rightarrow> token_row \<Rightarrow> token_row" where
  "revoke_token family t r = (if in_live_family family r then r\<lparr>tk_revoked_at := Some t\<rparr> else r)"

definition revoke_family :: "uuid \<Rightarrow> datetime \<Rightarrow> nat tx" where
  "revoke_family family revoked_at =
     bind (gets (\<lambda>d. length (filter (in_live_family family) (t_tokens d)))) (\<lambda>n.
     seq (modify (\<lambda>d. d\<lparr>t_tokens := map (revoke_token family revoked_at) (t_tokens d)\<rparr>)) (ret n))"

definition delete_expired_refresh_tokens :: "datetime \<Rightarrow> nat tx" where
  "delete_expired_refresh_tokens before =
     bind (gets (\<lambda>d. length (filter (\<lambda>r. tk_expires_at r < before) (t_tokens d)))) (\<lambda>n.
     seq (modify (\<lambda>d. d\<lparr>t_tokens := filter (\<lambda>r. \<not> tk_expires_at r < before) (t_tokens d)\<rparr>)) (ret n))"

section \<open>core/refresh.py\<close>

datatype refresh_failure = UNKNOWN_TOKEN | EXPIRED | REVOKED | REUSED

record issued_refresh =
  ir_value :: string
  ir_expires_at :: datetime
  ir_user :: uuid
  ir_family :: uuid

definition issue :: "(string \<Rightarrow> string) \<Rightarrow> string \<Rightarrow> uuid \<Rightarrow> uuid \<Rightarrow> datetime \<Rightarrow> datetime \<Rightarrow> issued_refresh tx" where
  "issue hash_refresh_token new_value user family now expires_at =
     seq (add_refresh_token user family (hash_refresh_token new_value) now expires_at)
       (ret \<lparr>ir_value = new_value, ir_expires_at = expires_at, ir_user = user, ir_family = family\<rparr>)"

definition start_family ::
  "(string \<Rightarrow> string) \<Rightarrow> string \<Rightarrow> uuid \<Rightarrow> uuid \<Rightarrow> datetime \<Rightarrow> timedelta \<Rightarrow> issued_refresh tx" where
  "start_family hash_refresh_token new_value new_family user now ttl =
     issue hash_refresh_token new_value user new_family now (now + ttl)"

definition rotate ::
  "(string \<Rightarrow> string) \<Rightarrow> string \<Rightarrow> string \<Rightarrow> datetime \<Rightarrow> (refresh_failure + issued_refresh) tx" where
  "rotate hash_refresh_token new_value presented now =
     bind (get_refresh_token_for_update (hash_refresh_token presented)) (\<lambda>token. case token of
       None \<Rightarrow> ret (Inl UNKNOWN_TOKEN)
     | Some tk \<Rightarrow>
         if tk_revoked_at tk \<noteq> None then ret (Inl REVOKED)
         else if tk_used_at tk \<noteq> None
         then bind (revoke_family (tk_family tk) now) (\<lambda>_. ret (Inl REUSED))
         else if tk_expires_at tk \<le> now then ret (Inl EXPIRED)
         else seq (mark_refresh_token_used tk now)
           (bind (issue hash_refresh_token new_value (tk_user tk) (tk_family tk) now (tk_expires_at tk)) (\<lambda>i. ret (Inr i))))"

definition revoke :: "(string \<Rightarrow> string) \<Rightarrow> string \<Rightarrow> datetime \<Rightarrow> bool tx" where
  "revoke hash_refresh_token presented now =
     bind (get_refresh_token_for_update (hash_refresh_token presented)) (\<lambda>token. case token of
       None \<Rightarrow> ret False
     | Some tk \<Rightarrow> bind (revoke_family (tk_family tk) now) (\<lambda>_. ret True))"

section \<open>The table after each operation\<close>

text \<open>What may be presented and accepted, its expiry apart.\<close>

definition live :: "token_row \<Rightarrow> bool" where
  "live r \<longleftrightarrow> tk_used_at r = None \<and> tk_revoked_at r = None"

lemma use_token_simps [simp]:
  "tk_family (use_token c t r) = tk_family r" "tk_hash (use_token c t r) = tk_hash r"
  "tk_expires_at (use_token c t r) = tk_expires_at r" "tk_user (use_token c t r) = tk_user r"
  "tk_revoked_at (use_token c t r) = tk_revoked_at r"
  "live (use_token c t r) \<longleftrightarrow> live r \<and> tk_hash r \<noteq> c"
  by (simp_all add: use_token_def live_def)

lemma revoke_token_simps [simp]:
  "tk_family (revoke_token f t r) = tk_family r" "tk_hash (revoke_token f t r) = tk_hash r"
  "tk_expires_at (revoke_token f t r) = tk_expires_at r" "tk_user (revoke_token f t r) = tk_user r"
  "tk_used_at (revoke_token f t r) = tk_used_at r"
  "tk_revoked_at (revoke_token f t r) = None \<longleftrightarrow> tk_revoked_at r = None \<and> tk_family r \<noteq> f"
  "live (revoke_token f t r) \<longleftrightarrow> live r \<and> tk_family r \<noteq> f"
  by (auto simp: revoke_token_def in_live_family_def live_def)

lemma tokens_now [simp]: "t_tokens (d\<lparr>db_now := t\<rparr>) = t_tokens d"
  by simp

section \<open>The life of a token\<close>

text \<open>
  One committed operation on the table: a sign-in, which draws a family no row has and none of
  \<open>past\<close>, a use, a logout, or the daily retention.
\<close>

inductive token_step :: "(string \<Rightarrow> string) \<Rightarrow> uuid set \<Rightarrow> db \<Rightarrow> db \<Rightarrow> bool" for hash_refresh_token past where
  signed_in: "family \<notin> past \<Longrightarrow> family \<notin> tk_family ` set (t_tokens d) \<Longrightarrow>
     session_scope t (start_family hash_refresh_token new_value family user now ttl) d = (r, d') \<Longrightarrow>
     token_step hash_refresh_token past d d'"
| rotated: "session_scope t (rotate hash_refresh_token new_value presented now) d = (r2, d') \<Longrightarrow>
     token_step hash_refresh_token past d d'"
| logged_out: "session_scope t (revoke hash_refresh_token presented now) d = (r3, d') \<Longrightarrow>
     token_step hash_refresh_token past d d'"
| swept: "session_scope t (delete_expired_refresh_tokens now) d = (r4, d') \<Longrightarrow>
     token_step hash_refresh_token past d d'"

inductive token_steps :: "(string \<Rightarrow> string) \<Rightarrow> uuid set \<Rightarrow> db \<Rightarrow> db \<Rightarrow> bool" for hash_refresh_token past where
  token_refl: "token_steps hash_refresh_token past d d"
| token_trans: "token_steps hash_refresh_token past d d' \<Longrightarrow> token_step hash_refresh_token past d' d'' \<Longrightarrow>
     token_steps hash_refresh_token past d d''"

text \<open>How each operation may change the rows: one case of this relation.\<close>

inductive rows_step :: "uuid set \<Rightarrow> token_row list \<Rightarrow> token_row list \<Rightarrow> bool" for past where
  none: "rows_step past rows rows"
| new_family: "tk_family new \<notin> past \<Longrightarrow> tk_family new \<notin> tk_family ` set rows \<Longrightarrow> tk_hash new \<notin> tk_hash ` set rows \<Longrightarrow> live new \<Longrightarrow>
    rows_step past rows (rows @ [new])"
| used_up: "old \<in> set rows \<Longrightarrow> tk_hash old = h \<Longrightarrow> live old \<Longrightarrow> tk_expires_at new = tk_expires_at old \<Longrightarrow> tk_user new = tk_user old \<Longrightarrow>
    tk_family new = tk_family old \<Longrightarrow> tk_hash new \<notin> tk_hash ` set rows \<Longrightarrow> live new \<Longrightarrow>
    rows_step past rows (map (use_token h t) rows @ [new])"
| revoked: "rows_step past rows (map (revoke_token family t) rows)"
| deleted: "rows_step past rows (filter p rows)"

lemma find_SomeD: "find p xs = Some x \<Longrightarrow> x \<in> set xs \<and> p x"
  by (metis find_Some_iff nth_mem)

lemma token_rows_step:
  assumes "token_step hash_refresh_token past d d'"
  shows "rows_step past (t_tokens d) (t_tokens d')"
  using assms
proof (cases rule: token_step.cases)
  case (signed_in family t new_value user now ttl r)
  then show ?thesis
    by (auto simp: session_scope_def start_family_def issue_def add_refresh_token_def act_defs live_def
        intro!: none new_family split: if_splits)
next
  case (rotated t new_value presented now r)
  then show ?thesis
    by (auto simp: session_scope_def rotate_def issue_def add_refresh_token_def get_refresh_token_for_update_def
        revoke_family_def mark_refresh_token_used_def act_defs live_def image_comp comp_def
        intro!: none revoked used_up dest!: find_SomeD split: if_splits option.splits)
next
  case (logged_out t presented now r)
  then show ?thesis
    by (auto simp: session_scope_def revoke_def get_refresh_token_for_update_def revoke_family_def act_defs
        intro!: none revoked split: option.splits)
next
  case (swept t now r)
  then show ?thesis
    by (auto simp: session_scope_def delete_expired_refresh_tokens_def act_defs intro!: deleted)
qed

section \<open>The invariant of the families\<close>

text \<open>
  Digests are unique; the tokens of a family have one owner and one expiry; and at most one
  token of a family is live.
\<close>

definition kin :: "token_row \<Rightarrow> token_row \<Rightarrow> bool" where
  "kin a b \<longleftrightarrow> (tk_family a = tk_family b \<longrightarrow>
     tk_user a = tk_user b \<and> tk_expires_at a = tk_expires_at b \<and> (live a \<and> live b \<longrightarrow> a = b))"

definition families_ok :: "token_row list \<Rightarrow> bool" where
  "families_ok rows \<longleftrightarrow> distinct (map tk_hash rows) \<and> (\<forall>a\<in>set rows. \<forall>b\<in>set rows. kin a b)"

lemma kin_refl [simp]: "kin a a"
  by (simp add: kin_def)

lemma kin_sym: "kin a b \<Longrightarrow> kin b a"
  by (auto simp: kin_def)

lemma families_ok_append:
  assumes "families_ok rows" "tk_hash new \<notin> tk_hash ` set rows" "\<And>a. a \<in> set rows \<Longrightarrow> kin a new"
  shows "families_ok (rows @ [new])"
  using assms kin_sym by (simp add: families_ok_def)

lemma families_ok_map:
  assumes "families_ok rows"
    and f: "\<And>r. tk_hash (f r) = tk_hash r" "\<And>r. tk_family (f r) = tk_family r" "\<And>r. tk_user (f r) = tk_user r"
      "\<And>r. tk_expires_at (f r) = tk_expires_at r" "\<And>r. live (f r) \<Longrightarrow> live r"
  shows "families_ok (map f rows)"
proof -
  have "kin a b \<Longrightarrow> kin (f a) (f b)" for a b using f by (auto simp: kin_def)
  then show ?thesis using assms(1) f(1) by (simp add: families_ok_def comp_def)
qed

lemma families_ok_step: "rows_step past rows rows' \<Longrightarrow> families_ok rows \<Longrightarrow> families_ok rows'"
proof (induction rule: rows_step.induct)
  case (new_family new rows)
  then show ?case by (intro families_ok_append) (simp_all add: kin_def, metis image_eqI)
next
  case (used_up old rows h new t)
  have "families_ok (map (use_token h t) rows)" by (intro families_ok_map used_up) simp_all
  then show ?case
  proof (rule families_ok_append)
    show "tk_hash new \<notin> tk_hash ` set (map (use_token h t) rows)" using used_up by (auto simp: image_comp)
    fix a assume "a \<in> set (map (use_token h t) rows)"
    then obtain b where b: "b \<in> set rows" "a = use_token h t b" by auto
    then have "kin b old" using used_up by (simp add: families_ok_def)
    then show "kin a new" using b used_up by (auto simp: kin_def)
  qed
next
  case (revoked rows family t)
  then show ?case by (intro families_ok_map) simp_all
next
  case (deleted rows p)
  then show ?case by (auto simp: families_ok_def distinct_map_filter)
qed

section \<open>The properties\<close>

text \<open>
  C30: whatever sequence of sign-ins, uses, logouts and retention sweeps is committed, at most
  one token of a sign-in can still be used, its owner never changes, and its expiry is the
  one the sign-in set: refreshing never extends it.
\<close>

theorem tokens_single_use:
  assumes "token_steps hash_refresh_token past d d'" "families_ok (t_tokens d)"
  shows "families_ok (t_tokens d')"
  using assms by (induction rule: token_steps.induct) (auto dest: token_rows_step families_ok_step)

text \<open>A family with nothing left to use.\<close>

definition ended :: "uuid \<Rightarrow> db \<Rightarrow> bool" where
  "ended family d \<longleftrightarrow> (\<forall>r\<in>set (t_tokens d). tk_family r = family \<longrightarrow> \<not> live r)"

lemma ended_step: "rows_step past rows rows' \<Longrightarrow> family \<in> past \<Longrightarrow>
    \<forall>r\<in>set rows. tk_family r = family \<longrightarrow> \<not> live r \<Longrightarrow> \<forall>r\<in>set rows'. tk_family r = family \<longrightarrow> \<not> live r"
  by (induction rule: rows_step.induct) auto

lemma ended_steps: "token_steps hash_refresh_token past d d' \<Longrightarrow> family \<in> past \<Longrightarrow> ended family d \<Longrightarrow> ended family d'"
  unfolding ended_def by (induction rule: token_steps.induct) (auto dest!: token_rows_step dest: ended_step)

lemma rotate_Inr:
  assumes "session_scope t (rotate hash_refresh_token new_value presented now) d = (Inr (Inr i), d')"
  obtains tk where "tk \<in> set (t_tokens d)" "tk_hash tk = hash_refresh_token presented" "live tk" "now < tk_expires_at tk"
    "i = \<lparr>ir_value = new_value, ir_expires_at = tk_expires_at tk, ir_user = tk_user tk, ir_family = tk_family tk\<rparr>"
    "t_tokens d' = map (use_token (tk_hash tk) now) (t_tokens d) @
       [\<lparr>tk_user = tk_user tk, tk_family = tk_family tk, tk_hash = hash_refresh_token new_value, tk_issued_at = now,
         tk_expires_at = tk_expires_at tk, tk_used_at = None, tk_revoked_at = None\<rparr>]"
  using assms
  by (auto simp: session_scope_def rotate_def issue_def add_refresh_token_def get_refresh_token_for_update_def
      revoke_family_def mark_refresh_token_used_def act_defs live_def image_comp comp_def
      dest!: find_SomeD split: if_splits option.splits sum.splits prod.splits)

lemma rotate_REUSED:
  assumes "session_scope t (rotate hash_refresh_token new_value presented now) d = (Inr (Inl REUSED), d')"
  obtains tk where "tk \<in> set (t_tokens d)" "tk_hash tk = hash_refresh_token presented" "tk_used_at tk \<noteq> None"
    "t_tokens d' = map (revoke_token (tk_family tk) now) (t_tokens d)"
  using assms
  by (auto simp: session_scope_def rotate_def issue_def add_refresh_token_def get_refresh_token_for_update_def
      revoke_family_def mark_refresh_token_used_def act_defs
      dest!: find_SomeD split: if_splits option.splits sum.splits prod.splits)

text \<open>
  C31: a used token that comes back ends its sign-in for good. Afterwards, whatever is committed,
  no token of that family is accepted, unless a later sign-in draws the same family identifier.
\<close>

theorem reuse_ends_family:
  assumes "session_scope t (rotate hash_refresh_token new_value presented now) d = (Inr (Inl REUSED), d')"
    and "token_steps hash_refresh_token past d' d''" "past = tk_family ` set (t_tokens d)"
    and "session_scope t' (rotate hash_refresh_token new_value' presented' now') d'' = (Inr (Inr i), d3)"
  shows "\<exists>tk\<in>set (t_tokens d). tk_hash tk = hash_refresh_token presented \<and> ir_family i \<noteq> tk_family tk"
proof -
  obtain tk where tk: "tk \<in> set (t_tokens d)" "tk_hash tk = hash_refresh_token presented"
    "t_tokens d' = map (revoke_token (tk_family tk) now) (t_tokens d)"
    using rotate_REUSED [OF assms(1)] by blast
  then have "ended (tk_family tk) d'" by (simp add: ended_def)
  then have "ended (tk_family tk) d''" using ended_steps [OF assms(2)] assms(3) tk(1) by simp
  moreover obtain old where "old \<in> set (t_tokens d'')" "live old" "ir_family i = tk_family old"
    by (rule rotate_Inr [OF assms(4)]) simp
  ultimately have "ir_family i \<noteq> tk_family tk" by (auto simp: ended_def)
  then show ?thesis using tk by blast
qed

section \<open>A concrete sign-in\<close>

text \<open>
  A sign-in at 0 that lasts 100, its first token used at 10 and presented again at 20, then a
  second sign-in whose token is used at 30. A digest is the token itself.
\<close>

definition sample_signed_in :: db where
  "sample_signed_in = snd (session_scope 0 (start_family id ''a'' 1 7 0 100) empty_db)"

definition sample_rotated :: db where
  "sample_rotated = snd (session_scope 10 (rotate id ''b'' ''a'' 10) sample_signed_in)"

definition sample_reused :: db where
  "sample_reused = snd (session_scope 20 (rotate id ''c'' ''a'' 20) sample_rotated)"

definition sample_again :: db where
  "sample_again = snd (session_scope 25 (start_family id ''d'' 2 7 25 100) sample_reused)"

lemmas sample_token_defs = sample_signed_in_def sample_rotated_def sample_reused_def sample_again_def

lemmas token_op_defs = session_scope_def start_family_def rotate_def issue_def add_refresh_token_def
  get_refresh_token_for_update_def mark_refresh_token_used_def revoke_family_def use_token_def revoke_token_def
  in_live_family_def empty_db_def act_defs

lemma sample_tokens:
  "map (\<lambda>r. (tk_hash r, tk_family r, live r)) (t_tokens sample_rotated) = [(''a'', 1, False), (''b'', 1, True)]"
  "fst (session_scope 20 (rotate id ''c'' ''a'' 20) sample_rotated) = Inr (Inl REUSED)"
  "map (\<lambda>r. (tk_hash r, tk_family r, live r)) (t_tokens sample_reused) = [(''a'', 1, False), (''b'', 1, False)]"
  "fst (session_scope 30 (rotate id ''e'' ''d'' 30) sample_again) =
     Inr (Inr \<lparr>ir_value = ''e'', ir_expires_at = 125, ir_user = 7, ir_family = 2\<rparr>)"
  "tk_family ` set (t_tokens sample_rotated) = {1}"
  by (simp_all add: sample_token_defs token_op_defs live_def)

theorem tokens_single_use_witness:
  "families_ok (t_tokens sample_rotated) \<and> list_ex live (t_tokens sample_rotated)"
proof -
  have "token_step id {} empty_db sample_signed_in"
    unfolding sample_signed_in_def by (rule signed_in [OF _ _ surjective_pairing]) (simp_all add: empty_db_def)
  moreover have "token_step id {} sample_signed_in sample_rotated"
    unfolding sample_rotated_def by (rule rotated [OF surjective_pairing])
  ultimately have "token_steps id {} empty_db sample_rotated" by (meson token_refl token_trans)
  then have "families_ok (t_tokens sample_rotated)"
    by (rule tokens_single_use) (simp add: families_ok_def empty_db_def)
  moreover have "list_ex live (t_tokens sample_rotated)"
    by (simp add: sample_token_defs token_op_defs live_def)
  ultimately show ?thesis by simp
qed

theorem reuse_ends_family_witness:
  "\<exists>tk\<in>set (t_tokens sample_rotated). tk_hash tk = id ''a'' \<and>
     ir_family \<lparr>ir_value = ''e'', ir_expires_at = 125, ir_user = 7, ir_family = 2\<rparr> \<noteq> tk_family tk"
proof -
  have step: "token_step id {1} sample_reused sample_again"
    unfolding sample_again_def
    by (rule signed_in [OF _ _ surjective_pairing]) (simp_all add: sample_token_defs token_op_defs)
  show ?thesis
  proof (rule reuse_ends_family [where hash_refresh_token = id and presented = "''a''" and d = sample_rotated and d' = sample_reused and d'' = sample_again])
    show "session_scope 20 (rotate id ''c'' ''a'' 20) sample_rotated = (Inr (Inl REUSED), sample_reused)"
      using sample_tokens(2) unfolding sample_reused_def by (metis prod.collapse)
    show "token_steps id {1} sample_reused sample_again" using step by (meson token_refl token_trans)
    show "{1} = tk_family ` set (t_tokens sample_rotated)" by (simp add: sample_tokens(5))
    show "session_scope 30 (rotate id ''e'' ''d'' 30) sample_again =
        (Inr (Inr \<lparr>ir_value = ''e'', ir_expires_at = 125, ir_user = 7, ir_family = 2\<rparr>),
         snd (session_scope 30 (rotate id ''e'' ''d'' 30) sample_again))"
      using sample_tokens(4) by (metis prod.collapse)
  qed
qed

end
