(* ===== verification/Schedule.thy ===== *)
theory Schedule
  imports Database
begin

text \<open>
  Keeping the next runs true to the settings (\<open>core/schedule.py\<close>). The operation a next run is
  of is a datatype where the code has a prefix of column names.
\<close>

record scheduler_config =
  sc_enabled :: bool
  sc_tick :: timedelta
  sc_batch :: nat
  sc_workers :: nat
  sc_min_cadence :: timedelta
  sc_window :: timedelta
  sc_alert_streak :: int
  sc_sessions_retention :: timedelta

definition default_scheduler_config :: scheduler_config where
  "default_scheduler_config =
     \<lparr>sc_enabled = False, sc_tick = 60 * SECOND, sc_batch = 50, sc_workers = 4, sc_min_cadence = 900 * SECOND,
      sc_window = 3600 * SECOND, sc_alert_streak = 3, sc_sessions_retention = 90 * DAY\<rparr>"

datatype run = INVEST_RUN | REBALANCE_RUN

fun SOURCES :: "run \<Rightarrow> string list" where
  "SOURCES INVEST_RUN = [''paused'', ''invest_cash_enabled'', ''invest_cadence_mode'', ''invest_interval_days'',
     ''invest_interval_months'', ''invest_cadence_anchor'']"
| "SOURCES REBALANCE_RUN = [''paused'', ''rebalance_cadence_mode'', ''rebalance_interval_days'',
     ''rebalance_interval_months'', ''rebalance_cadence_anchor'']"

fun run_cadence :: "run \<Rightarrow> settings_row \<Rightarrow> cadence" where
  "run_cadence INVEST_RUN s = st_invest_cadence s"
| "run_cadence REBALANCE_RUN s = st_rebalance_cadence s"

fun run_at :: "run \<Rightarrow> settings_row \<Rightarrow> datetime option" where
  "run_at INVEST_RUN s = st_next_invest_at s"
| "run_at REBALANCE_RUN s = st_next_rebalance_at s"

fun set_next :: "run \<Rightarrow> datetime option \<Rightarrow> setting" where
  "set_next INVEST_RUN t = Set_next_invest_at t"
| "set_next REBALANCE_RUN t = Set_next_rebalance_at t"

text \<open>The walk to the next slot always ends (theorem \<open>next_slot_returns\<close>), so its value is there.\<close>

definition next_run :: "uuid \<Rightarrow> settings_row \<Rightarrow> run \<Rightarrow> datetime \<Rightarrow> scheduler_config \<Rightarrow> datetime option result" where
  "next_run user s k now config =
     (if k = INVEST_RUN \<and> \<not> st_invest_cash_enabled s then Inr None
      else rbind (the (next_slot (run_cadence k s) user now (sc_min_cadence config) (sc_window config))) (\<lambda>t. Inr (Some t)))"

definition rescheduled :: "uuid \<Rightarrow> settings_row \<Rightarrow> string list \<Rightarrow> datetime \<Rightarrow> scheduler_config \<Rightarrow> setting list result" where
  "rescheduled user s changed now config =
     rmap (\<lambda>k. rbind (next_run user s k now config) (\<lambda>t. Inr (set_next k t)))
       (filter (\<lambda>k. list_ex (\<lambda>name. name \<in> set changed) (SOURCES k)) [INVEST_RUN, REBALANCE_RUN])"

definition backfill_moves :: "uuid \<Rightarrow> settings_row \<Rightarrow> datetime \<Rightarrow> scheduler_config \<Rightarrow> setting list result" where
  "backfill_moves user s now config =
     rmap (\<lambda>k. rbind (next_run user s k now config) (\<lambda>t. Inr (set_next k t)))
       ((if st_next_rebalance_at s = None then [REBALANCE_RUN] else []) @
        (if st_invest_cash_enabled s \<and> st_next_invest_at s = None then [INVEST_RUN] else []))"

definition backfill :: "datetime \<Rightarrow> scheduler_config \<Rightarrow> nat tx" where
  "backfill now config =
     bind unscheduled_settings (\<lambda>rows.
     seq (for_each rows (\<lambda>(user, s).
            bind (lift_result (backfill_moves user s now config)) (\<lambda>moves.
            bind (update_settings user moves) (\<lambda>_. ret ()))))
       (ret (length rows)))"

text \<open>What a next run means: the investment's is there while investing is on, the rebalance's always.\<close>

definition scheduled_row :: "settings_row \<Rightarrow> bool" where
  "scheduled_row s \<longleftrightarrow> st_next_rebalance_at s \<noteq> None \<and> (st_invest_cash_enabled s \<longrightarrow> st_next_invest_at s \<noteq> None)"

end
