(* ===== verification/Scheduler.thy ===== *)
theory Scheduler
  imports Rebalance Refresh Schedule
begin

text \<open>
  The scheduler (\<open>core/scheduler.py\<close>): the users due at a tick, each evaluated in turn, the
  next run moved after every operation, and the streak of failures. A pool of workers finishes
  the users in an order of its own, which is the environment's choice; each user's evaluation is taken whole.
  The log lines an operator is alerted by are kept; the others are not.
\<close>

definition is_failure :: "evaluation_result \<Rightarrow> bool" where
  "is_failure result \<longleftrightarrow> er_status result \<in> {ERROR, KRAKEN_UNAVAILABLE} \<or>
     (er_status result = UNRESOLVED \<and> er_lookup_failed result)"

definition run_operation :: "env \<Rightarrow> world public_reads \<Rightarrow> uuid \<Rightarrow> run \<Rightarrow> bool \<Rightarrow> evaluation_result io" where
  "run_operation e public user k automatic =
     (if k = INVEST_RUN then invest e public user False SCHEDULER
      else if automatic then rebalance_now e public user
      else bind (propose e public user SCHEDULER) (\<lambda>r. ret (rr_evaluation r)))"

definition advance_tx :: "scheduler_config \<Rightarrow> uuid \<Rightarrow> run \<Rightarrow> datetime \<Rightarrow> unit tx" where
  "advance_tx config user k moment =
     bind (get_settings user) (\<lambda>settings. case settings of
       None \<Rightarrow> ret ()
     | Some s \<Rightarrow> bind (lift_result (next_run user s k moment config)) (\<lambda>t.
         bind (update_settings user [set_next k t]) (\<lambda>_. ret ())))"

definition advance :: "env \<Rightarrow> scheduler_config \<Rightarrow> uuid \<Rightarrow> run \<Rightarrow> datetime \<Rightarrow> unit io" where
  "advance e config user k moment = transaction e (advance_tx config user k moment)"

text \<open>The streak before and after, or None when the settings are gone.\<close>

definition count_tx :: "uuid \<Rightarrow> bool \<Rightarrow> (int \<times> int) option tx" where
  "count_tx user failed =
     bind (get_settings user) (\<lambda>settings. case settings of
       None \<Rightarrow> ret None
     | Some s \<Rightarrow>
         let before = st_failure_streak s; after = (if failed then before + 1 else 0)
         in seq (if after \<noteq> before then bind (update_settings user [Set_failure_streak after]) (\<lambda>_. ret ()) else ret ())
              (ret (Some (before, after))))"

definition alert :: "alert \<Rightarrow> unit io" where
  "alert a = modify (\<lambda>w. w\<lparr>w_alerts := w_alerts w @ [a]\<rparr>)"

definition count :: "env \<Rightarrow> scheduler_config \<Rightarrow> uuid \<Rightarrow> bool \<Rightarrow> unit io" where
  "count e config user failed =
     bind (transaction e (count_tx user failed)) (\<lambda>streak. case streak of
       None \<Rightarrow> ret ()
     | Some (before, after) \<Rightarrow>
         seq (if failed \<and> after = sc_alert_streak config then alert (Failing user after) else ret ())
             (if \<not> failed \<and> sc_alert_streak config \<le> before then alert (Recovered user before) else ret ()))"

text \<open>What an operation's result asks for: nothing, the next run, or the next run and the count.\<close>

datatype follow_up = Try_again | Move_on | Move_and_count bool

definition operate :: "env \<Rightarrow> scheduler_config \<Rightarrow> world public_reads \<Rightarrow> uuid \<Rightarrow> run \<Rightarrow> datetime \<Rightarrow> unit io" where
  "operate e config public user k moment =
     bind (transaction e (get_settings user)) (\<lambda>settings. case settings of
       None \<Rightarrow> ret ()
     | Some s \<Rightarrow>
         if \<not> (k = REBALANCE_RUN \<or> st_invest_cash_enabled s) then advance e config user k moment
         else bind (try_except
                (bind (run_operation e public user k (st_auto_rebalance_enabled s)) (\<lambda>r. ret (Move_and_count (is_failure r))))
                (\<lambda>exc. Some (ret (case exc of
                   EvaluationBusy \<Rightarrow> Try_again | NotReady _ \<Rightarrow> Move_on | _ \<Rightarrow> Move_and_count True)))) (\<lambda>f. case f of
              Try_again \<Rightarrow> ret ()
            | Move_on \<Rightarrow> advance e config user k moment
            | Move_and_count failed \<Rightarrow> seq (advance e config user k moment) (count e config user failed)))"

definition guarded :: "env \<Rightarrow> scheduler_config \<Rightarrow> world public_reads \<Rightarrow> datetime \<Rightarrow> due_user \<Rightarrow> unit io" where
  "guarded e config public moment user =
     try_except
       (seq (if du_invest_due user then operate e config public (du_user user) INVEST_RUN moment else ret ())
            (if du_rebalance_due user then operate e config public (du_user user) REBALANCE_RUN moment else ret ()))
       (\<lambda>exc. Some (ret ()))"

definition sweep :: "env \<Rightarrow> scheduler_config \<Rightarrow> datetime \<Rightarrow> bool io" where
  "sweep e config moment =
     bind (gets w_swept) (\<lambda>swept_on.
       if swept_on = Some (utc_day moment) then ret False
       else try_except
         (bind (transaction e (seq (delete_evaluations_before (moment - sc_sessions_retention config))
                  (delete_expired_refresh_tokens moment))) (\<lambda>_.
          seq (modify (\<lambda>w. w\<lparr>w_swept := Some (utc_day moment)\<rparr>)) (ret True)))
         (\<lambda>exc. Some (ret False)))"

text \<open>
  The order in which a pool of workers gets through its work: the environment picks the next of those that are left,
  knowing how many they are.
\<close>

function pool_order :: "(nat \<Rightarrow> nat) \<Rightarrow> 'a list \<Rightarrow> 'a list" where
  "pool_order pick xs =
     (if xs = [] then []
      else let i = pick (length xs) mod length xs in xs ! i # pool_order pick (take i xs @ drop (Suc i) xs))"
  by pat_completeness auto
termination
proof (relation "measure (\<lambda>(pick, xs). length xs)")
  fix pick :: "nat \<Rightarrow> nat" and xs :: "'a list" and i assume "xs \<noteq> []" "i = pick (length xs) mod length xs"
  then have "i < length xs" by simp
  then show "((pick, take i xs @ drop (Suc i) xs), pick, xs) \<in> measure (\<lambda>(pick, xs). length xs)" by simp
qed simp

declare pool_order.simps [simp del]

lemma mset_pool_order: "mset (pool_order pick xs) = mset xs"
proof (induction pick xs rule: pool_order.induct)
  case (1 pick xs)
  show ?case
  proof (cases "xs = []")
    case False
    define i where "i = pick (length xs) mod length xs"
    have i: "i < length xs" using False by (simp add: i_def)
    have "pool_order pick xs = xs ! i # pool_order pick (take i xs @ drop (Suc i) xs)"
      using False by (subst pool_order.simps) (simp add: i_def Let_def)
    moreover have "mset (pool_order pick (take i xs @ drop (Suc i) xs)) = mset (take i xs @ drop (Suc i) xs)"
      using 1 [OF False refl] by (simp add: i_def)
    moreover have "mset xs = mset (take i xs @ xs ! i # drop (Suc i) xs)"
      using id_take_nth_drop [OF i] by simp
    ultimately show ?thesis by simp
  qed (simp add: pool_order.simps)
qed

lemma set_pool_order [simp]: "set (pool_order pick xs) = set xs"
  using mset_pool_order by (metis set_mset_mset)

definition each :: "env \<Rightarrow> scheduler_config \<Rightarrow> world public_reads \<Rightarrow> due_user list \<Rightarrow> datetime \<Rightarrow> unit io" where
  "each e config public due moment =
     for_each (if sc_workers config = 1 then due else pool_order (env_pool e) due) (guarded e config public moment)"

record tick_report =
  tr_ran :: bool
  tr_users :: nat
  tr_swept :: bool

definition tick :: "env \<Rightarrow> scheduler_config \<Rightarrow> datetime \<Rightarrow> tick_report io" where
  "tick e config moment =
     (if \<not> env_scheduler_lock e then ret \<lparr>tr_ran = False, tr_users = 0, tr_swept = False\<rparr>
      else bind (sweep e config moment) (\<lambda>swept.
        bind (transaction e (bind (due_users moment (sc_batch config)) (\<lambda>due.
               bind (pairs_for (map du_user due)) (\<lambda>pairs. ret (due, pairs))))) (\<lambda>(due, pairs).
        seq (if due = [] then ret ()
             else seq (modify (\<lambda>w. w\<lparr>w_prices := []\<rparr>))
               (seq (preload (tick_market (market e)) pairs)
                    (each e config (tick_market (market e)) due moment)))
          (ret \<lparr>tr_ran = True, tr_users = length due, tr_swept = swept\<rparr>))))"

text \<open>\<open>Scheduler.start\<close>, up to its thread.\<close>

definition start :: "env \<Rightarrow> scheduler_config \<Rightarrow> nat io" where
  "start e config = bind (now e) (\<lambda>t. transaction e (backfill t config))"

text \<open>One pass of the loop of \<open>Scheduler.run\<close>: a tick that raises is logged, and the loop goes on.\<close>

definition loop_pass :: "env \<Rightarrow> scheduler_config \<Rightarrow> unit io" where
  "loop_pass e config =
     try_except (bind (now e) (\<lambda>t. seq (tick e config t) (ret ()))) (\<lambda>exc. Some (ret ()))"

text \<open>The loop, until \<open>stop\<close> was asked for during the last of so many passes.\<close>

fun run_ticks :: "env \<Rightarrow> scheduler_config \<Rightarrow> nat \<Rightarrow> unit io" where
  "run_ticks e config 0 = ret ()"
| "run_ticks e config (Suc n) =
     seq (loop_pass e config) (run_ticks e config n)"

lemma loop_pass_returns: "fst (loop_pass e config w) = Inr ()"
  by (auto simp: loop_pass_def act_defs split: prod.splits sum.splits)

lemma run_ticks_returns: "fst (run_ticks e config n w) = Inr ()"
proof (induction n arbitrary: w)
  case (Suc n)
  obtain w' where "loop_pass e config w = (Inr (), w')" using loop_pass_returns by (metis prod.collapse)
  then show ?case using Suc by (simp add: seq_def bind_def)
qed (simp add: ret_def)

end
