(* ===== verification/Executor.thy ===== *)
theory Executor
  imports Scheduler
begin

text \<open>
  The interfaces of the service's invariants. An invariant of the database and the trace is
  kept by everything the service does once its transactions keep it: the ones of an
  evaluation for the executor, the ones of the proposal and of the schedule for the whole
  service. What only reads from the database is settled here once.
\<close>

named_theorems safe_intros \<open>transactions that keep the invariant of their locale\<close>

section \<open>Transactions\<close>

locale transacting_invariant = reading_invariant +
  assumes clock: "J d tr \<Longrightarrow> J (d\<lparr>db_now := t\<rparr>) tr"
begin

text \<open>A transaction that keeps the invariant when it commits: one that raises leaves nothing.\<close>

definition safe :: "'a tx \<Rightarrow> bool" where
  "safe m \<longleftrightarrow> (\<forall>d tr a d'. J d tr \<longrightarrow> m d = (Inr a, d') \<longrightarrow> J d' tr)"

lemma safeI: "(\<And>d tr a d'. J d tr \<Longrightarrow> m d = (Inr a, d') \<Longrightarrow> J d' tr) \<Longrightarrow> safe m"
  unfolding safe_def by blast

lemma safeD: "safe m \<Longrightarrow> J d tr \<Longrightarrow> m d = (Inr a, d') \<Longrightarrow> J d' tr"
  unfolding safe_def by blast

lemma keeps_tx [keeps_intros]: "safe m \<Longrightarrow> keeps holds (transaction e m)"
  by (rule keeps_transaction) (erule safeD [OF _ clock])

lemma safe_plain [safe_intros]: "safe (ret a)" "safe (throw x)" "safe (lift_result r)" "safe (gets g)"
  unfolding safe_def act_defs by (auto split: sum.splits)

lemma safe_bind [safe_intros]: "safe m \<Longrightarrow> (\<And>a. safe (g a)) \<Longrightarrow> safe (bind m g)"
proof (rule safeI)
  fix d tr b d' assume m: "safe m" and g: "\<And>a. safe (g a)" and J: "J d tr" and r: "bind m g d = (Inr b, d')"
  from r obtain a d1 where "m d = (Inr a, d1)" "g a d1 = (Inr b, d')"
    by (auto simp: bind_def split: prod.splits sum.splits)
  then show "J d' tr" using safeD [OF m J] safeD [OF g] by blast
qed

lemma safe_seq [safe_intros]: "safe m \<Longrightarrow> safe n \<Longrightarrow> safe (seq m n)"
  unfolding seq_def by (rule safe_bind)

lemma safe_if [safe_intros]: "safe m \<Longrightarrow> safe n \<Longrightarrow> safe (if b then m else n)"
  by simp

lemma safe_option [safe_intros]: "safe m \<Longrightarrow> (\<And>a. safe (g a)) \<Longrightarrow> safe (case x of None \<Rightarrow> m | Some a \<Rightarrow> g a)"
  by (cases x) auto

lemma safe_for_each [safe_intros]: "(\<And>x. x \<in> set xs \<Longrightarrow> safe (g x)) \<Longrightarrow> safe (for_each xs g)"
  by (induction xs) (auto intro!: safe_plain safe_seq)

lemma safe_modify: "(\<And>d tr. J d tr \<Longrightarrow> J (g d) tr) \<Longrightarrow> safe (modify g)"
  by (rule safeI) (auto simp: modify_def)

lemma safe_reading [safe_intros]:
  "safe (pending_orders u)" "safe (has_unresolved u)" "safe (get_by_cl_ord_id c)" "safe (get_settings u)"
  "safe (get_credentials u)" "safe (list_assets u)" "safe unscheduled_settings" "safe (due_users t n)"
  "safe (pairs_for us)" "safe (get_proposal u)"
  unfolding pending_orders_def has_unresolved_def get_by_cl_ord_id_def get_settings_def get_credentials_def
    list_assets_def unscheduled_settings_def due_users_def pairs_for_def get_proposal_def
  by (rule safe_intros)+

lemma safe_composed [safe_intros]:
  "safe (load_account user sells)" "safe (get_live_proposal user)" "safe (approve_guard user v)"
  unfolding load_account_def get_live_proposal_def approve_guard_def by (intro safe_intros)+

lemma keeps_make_planned [keeps_intros]: "safe_reads public \<Longrightarrow> keeps holds (make_planned e public account (kraken e who))"
  unfolding make_planned_def
  by (auto intro!: keeps_intros keeps_read_portfolio split: list.splits option.splits)

lemma keeps_place_validate [keeps_intros]: "keeps holds (place (kraken e who) l c True)"
proof (rule keepsI)
  fix w r w' assume w: "holds w" and p: "place (kraken e who) l c True w = (r, w')"
  show "holds w'" using p by (cases rule: place_cases) (use w in \<open>auto simp: holds_def read\<close>)
qed

lemma keeps_preview [keeps_intros]: "safe_reads public \<Longrightarrow> keeps holds (preview e public user account (kraken e who))"
  unfolding preview_def preview_leg_def
  by (auto intro!: keeps_intros safe_intros split: exn.splits option.splits sum.splits)

lemma keeps_still_scheduled [keeps_intros]: "keeps holds (still_scheduled e user planned)"
  unfolding still_scheduled_def by (auto intro!: keeps_intros safe_intros)

lemma keeps_current [keeps_intros]: "keeps holds (current e user)"
  unfolding current_def by (auto intro!: keeps_intros safe_intros)

lemma keeps_log_lines [keeps_intros]: "keeps holds (log_lines ls)"
  unfolding log_lines_def by (rule keeps_frame) simp_all

end

section \<open>Everything but sending\<close>

locale telemetry_invariant = transacting_invariant +
  assumes settle [safe_intros]: "safe (settle c lookup)"
    and pin_snapshot [safe_intros]: "safe (pin_snapshot user sid)"
    and keep_snapshot [safe_intros]: "safe (keep_snapshot sid user as_of fiat tv cash hs)"
    and start_evaluation [safe_intros]: "safe (start_evaluation eid user as_of op_name trg)"
    and finish_evaluation [safe_intros]: "safe (finish_evaluation eid status as_of lines)"
begin

lemma keeps_resolve_one [keeps_intros]: "keeps holds (resolve_one e (kraken e who) t row acc)"
  unfolding resolve_one_def lookup_pending_def Let_def
  by (auto intro!: keeps_intros safe_intros split: option.splits)

lemma keeps_resolve_pending [keeps_intros]: "keeps holds (resolve_pending e (kraken e who) user t)"
  unfolding resolve_pending_def by (auto intro!: keeps_intros safe_intros)

lemma keeps_pin [keeps_intros]: "keeps holds (pin e user i)"
  unfolding pin_def by (intro keeps_intros keeps_frame safe_intros) simp_all

end

section \<open>The executor\<close>

definition unpin :: "unit io" where
  "unpin = modify (\<lambda>w. w\<lparr>w_pinned := False\<rparr>)"


text \<open>Sending keeps the invariant for the users and reasons of \<open>sender\<close>.\<close>

locale executor_invariant = telemetry_invariant +
  fixes sender :: "uuid \<Rightarrow> order_reason \<Rightarrow> bool"
  assumes send_leg [keeps_intros]: "sender user reason \<Longrightarrow> keeps holds (send_leg e user eid (kraken e who) l reason)"
begin

lemma keeps_attempt [keeps_intros]:
  "sender user reason \<Longrightarrow> keeps holds (attempt e user i (kraken e who) l reason stopped s)"
  unfolding attempt_def by (intro keeps_intros)

lemma keeps_loop [keeps_intros]:
  "sender user reason \<Longrightarrow> keeps holds (attempt_and_log e user i (kraken e who) reason fiat s l stopped)"
  unfolding attempt_and_log_def by (auto intro!: keeps_intros keeps_frame)

lemma keeps_steps [keeps_intros]:
  "sender user reason \<Longrightarrow> keeps holds (sell_step e user i (kraken e who) reason fiat s places l acc)"
  "sender user reason \<Longrightarrow> keeps holds (buy_step e user i (kraken e who) reason fiat s l stopped)"
  unfolding sell_step_def buy_step_def by (auto intro!: keeps_intros)

lemma keeps_send_all [keeps_intros]:
  "sender user reason \<Longrightarrow> keeps holds (send_all e user i (kraken e who) planned reason fiat s)"
  unfolding send_all_def by (auto intro!: keeps_intros)

text \<open>Sending a whole plan, for what follows from the invariant.\<close>

lemma sends_after:
  assumes "sender user reason" "\<And>w. holds w \<Longrightarrow> R w"
  shows "triple holds (seq unpin (send_all e user i (kraken e who) planned reason fiat s)) (\<lambda>_. R)"
  using assms unfolding unpin_def
  by (intro triple_keeps) (auto intro!: keeps_intros keeps_frame)

end

section \<open>The phases of an evaluation\<close>

text \<open>
  What holds before the decision, when it lets the plan through, and at the end. The decision
  takes the first to the second, or to the last when it ends the evaluation.
\<close>

locale evaluation_phases =
  before: telemetry_invariant before + after: telemetry_invariant after
  for before after :: "db \<Rightarrow> event list \<Rightarrow> bool" +
  fixes during :: "world \<Rightarrow> bool" and sender :: "uuid \<Rightarrow> order_reason \<Rightarrow> bool"
  assumes before_after: "before d tr \<Longrightarrow> after d tr"
    and sends: "sender user reason \<Longrightarrow>
      triple during (seq unpin (send_all e user i (kraken e who) planned reason fiat s)) (\<lambda>_. after.holds)"
begin

definition decides :: "decision \<Rightarrow> bool" where
  "decides decide \<longleftrightarrow> (\<forall>planned. triple before.holds (decide planned)
     (\<lambda>r w. if r = Inr None then during w else after.holds w))"

lemma decidesI:
  "(\<And>planned w r w'. before.holds w \<Longrightarrow> decide planned w = (r, w') \<Longrightarrow>
     if r = Inr None then during w' else after.holds w') \<Longrightarrow> decides decide"
  unfolding decides_def by (auto intro: tripleI)

lemma before_holds: "before.holds w \<Longrightarrow> after.holds w"
  by (simp add: before.holds_def after.holds_def before_after)

lemma seq_bind: "seq m (bind n f) = bind (seq m n) f"
  by (rule ext) (simp add: seq_def bind_def split: prod.split sum.split)

lemma triple_decided:
  assumes "decides decide" "sender user reason" "\<And>b. keeps after.holds (f b)"
  shows "triple before.holds (bind (decide planned) (\<lambda>verdict. case verdict of
        Some status \<Rightarrow> ret status
      | None \<Rightarrow> seq unpin (bind (send_all e user i (kraken e who) planned reason fiat s) f))) (\<lambda>_. after.holds)"
proof (rule triple_bind)
  show "triple before.holds (decide planned) (\<lambda>r w. if r = Inr None then during w else after.holds w)"
    using assms(1) by (simp add: decides_def)
next
  have "triple during (seq unpin (bind (send_all e user i (kraken e who) planned reason fiat s) f)) (\<lambda>_. after.holds)"
    unfolding seq_bind by (rule triple_bind [OF sends [OF assms(2)]]) (simp_all add: keeps_triple [symmetric] assms(3))
  then show "triple (\<lambda>w. if (Inr v :: evaluation_status option result) = Inr None then during w else after.holds w)
      (case v of Some status \<Rightarrow> ret status
       | None \<Rightarrow> seq unpin (bind (send_all e user i (kraken e who) planned reason fiat s) f)) (\<lambda>_. after.holds)" for v
    by (cases v) (auto simp: triple_def ret_def)
qed auto

lemma triple_evaluate_inner:
  assumes "before.safe_reads public" "decides decide" "sender user reason"
  shows "triple before.holds (evaluate_inner e public user i account (kraken e who) reason decide) (\<lambda>_. after.holds)"
  unfolding evaluate_inner_def unpin_def [symmetric]
  by (intro triple_keeps_bind triple_keeps_seq triple_if triple_decided triple_keeps before_holds assms)
    (auto intro!: keeps_intros safe_intros before.keeps_frame before_holds assms split: option.splits)

lemma triple_run_evaluation:
  assumes "before.safe_reads public" "decides decide" "sender user reason"
  shows "triple before.holds (run_evaluation e public user account (kraken e who) reason decide op_name trg)
    (\<lambda>_. after.holds)"
proof -
  have finish: "triple before.holds (try_finally (try_except (evaluate_inner e public user i account (kraken e who) reason decide) h) f)
      (\<lambda>_. after.holds)"
    if "\<And>x n. h x = Some n \<Longrightarrow> keeps after.holds n" "\<And>r. keeps after.holds (f r)" for i h f
    using that by (intro triple_finally [where R = after.holds] triple_try_except triple_evaluate_inner assms) (auto simp: keeps_triple)
  have rest: "triple before.holds (bind (try_finally (try_except (evaluate_inner e public user i account (kraken e who) reason decide) h) f) g)
      (\<lambda>_. after.holds)"
    if "\<And>x n. h x = Some n \<Longrightarrow> keeps after.holds n" "\<And>r. keeps after.holds (f r)" "\<And>a. keeps after.holds (g a)" for i h f g
    using that by (intro triple_bind [OF finish]) (auto simp: keeps_triple)
  show ?thesis
    unfolding run_evaluation_def
    by (intro triple_keeps_bind triple_keeps_seq rest before_holds)
      (auto intro!: keeps_intros safe_intros before.keeps_frame split: exn.splits)
qed

lemma triple_evaluate:
  assumes "before.safe_reads public" "decides decide" "sender user reason"
  shows "triple before.holds (evaluate e public user sells reason decide op_name trg) (\<lambda>_. after.holds)"
  unfolding evaluate_def
  by (intro triple_keeps_bind triple_if triple_run_evaluation triple_keeps before_holds assms keeps_intros safe_intros)

end

text \<open>One invariant for all the phases is the executor's own.\<close>

sublocale executor_invariant \<subseteq> self: evaluation_phases J J holds sender
  by unfold_locales (assumption, rule sends_after)

context executor_invariant
begin

lemma keeps_evaluate [keeps_intros]:
  assumes "safe_reads public" "\<And>planned. keeps holds (decide planned)" "sender user reason"
  shows "keeps holds (evaluate e public user sells reason decide op_name trg)"
proof -
  have "self.decides decide" by (rule self.decidesI) (simp add: keepsD [OF assms(2)])
  then show ?thesis using self.triple_evaluate assms(1,3) by (simp add: keeps_triple)
qed

lemma keeps_invest: "safe_reads public \<Longrightarrow> sender user INVEST \<Longrightarrow> keeps holds (invest e public user p trg)"
  unfolding invest_def send_it_def
  by (intro keeps_intros keeps_evaluate safe_intros) (auto intro!: keeps_intros)

end

section \<open>Invariants blind to some tables\<close>

text \<open>
  An invariant that does not look at a table survives every transaction on it. Blind to the
  ledger, it survives settling; to the snapshots and the evaluations too, an evaluation but
  for what it sends; to the settings and the tokens, the schedule.
\<close>

locale order_blind_invariant = transacting_invariant +
  assumes any_order: "J d tr \<Longrightarrow> J (d\<lparr>t_orders := os\<rparr>) tr"
begin

lemma safe_orders [safe_intros]: "safe (modify (\<lambda>d. d\<lparr>t_orders := g d\<rparr>))"
  by (intro safe_modify any_order)

lemma safe_change_order [safe_intros]: "safe (change_order c g)"
  unfolding change_order_def by (rule safe_intros)

lemma safe_marks [safe_intros]:
  "safe (mark_sent c t)" "safe (mark_failed c err)" "safe (mark_filled c t v p f co)"
  unfolding mark_sent_def mark_failed_def mark_filled_def by (intro safe_intros)+

lemma safe_settle [safe_intros]: "safe (settle c lookup)"
  unfolding settle_def by (intro safe_intros)

lemma safe_record [safe_intros]: "safe (record_attempt user c pair asset side reason amount t i)"
  unfolding record_attempt_def by (intro safe_intros)

lemma keeps_after_placement [keeps_intros]: "keeps holds (after_placement e (kraken e who) c p)"
  unfolding after_placement_def
  by (auto intro!: keeps_intros safe_intros split: placement_outcome.splits option.splits)

end

locale telemetry_blind_invariant = order_blind_invariant +
  assumes any_snapshot: "J d tr \<Longrightarrow> J (d\<lparr>t_snapshots := ss\<rparr>) tr"
    and any_evaluation: "J d tr \<Longrightarrow> J (d\<lparr>t_evaluations := es\<rparr>) tr"
begin

lemma safe_telemetry:
  "safe (pin_snapshot user sid)" "safe (record_snapshot sid user as_of fiat tv cash hs)"
  "safe (start_evaluation eid user as_of op_name trg)" "safe (finish_evaluation eid status as_of lines)"
  "safe (delete_evaluations_before t)"
  unfolding pin_snapshot_def record_snapshot_def start_evaluation_def finish_evaluation_def delete_evaluations_before_def
  by (intro safe_intros safe_modify any_snapshot any_evaluation, assumption?)+

lemma safe_keep_snapshot: "safe (keep_snapshot sid user as_of fiat tv cash hs)"
  unfolding keep_snapshot_def latest_snapshot_def
  by (intro safe_intros safe_modify any_snapshot safe_telemetry)

end

sublocale telemetry_blind_invariant \<subseteq> telemetry_invariant
  by unfold_locales (rule safe_settle safe_telemetry safe_keep_snapshot)+

locale schedule_blind_invariant = telemetry_blind_invariant +
  assumes any_setting: "J d tr \<Longrightarrow> J (d\<lparr>t_settings := ss\<rparr>) tr"
    and any_token: "J d tr \<Longrightarrow> J (d\<lparr>t_tokens := ts\<rparr>) tr"
begin

lemma safe_update_settings [safe_intros]: "safe (update_settings user changes)"
  unfolding update_settings_def by (intro safe_intros safe_modify any_setting)

lemma safe_schedule:
  "safe (advance_tx config user k t)" "safe (count_tx user failed)" "safe (backfill t config)"
  unfolding advance_tx_def count_tx_def backfill_def Let_def by (auto intro!: safe_intros split: prod.splits)

lemma safe_sweep_tokens: "safe (delete_expired_refresh_tokens t)"
  unfolding delete_expired_refresh_tokens_def by (intro safe_intros safe_modify any_token)

end

section \<open>What an order is sent for\<close>

text \<open>The row of the ledger, as it was committed when an order left.\<close>

definition row_of :: "event \<Rightarrow> order_row option" where
  "row_of ev = find (\<lambda>row. o_cl_ord_id row = client_id (evt_request ev)) (t_orders (evt_db ev))"

lemma find_append_new: "c \<notin> set (map g rows) \<Longrightarrow> g row = c \<Longrightarrow> find (\<lambda>r. g r = c) (rows @ [row]) = Some row"
  by (induction rows) auto

lemma recorded_attempt:
  assumes "transaction e (record_attempt user c pair asset side reason amount t i) w = (Inr x, w')"
  obtains row where "t_orders (w_db w') = t_orders (w_db w) @ [row]" "c \<notin> set (map o_cl_ord_id (t_orders (w_db w)))"
    "o_cl_ord_id row = c" "o_user row = user" "o_reason row = reason" "o_status row = PENDING" "o_txid row = None"
  using assms unfolding transaction_def session_scope_def record_attempt_def act_defs
  by (auto split: sum.splits if_splits)

text \<open>
  An invariant that lets an order be sent when its row is one of \<open>sender\<close>'s: whatever else
  the executor does for such a user and reason keeps it.
\<close>

locale attributed_sending = order_blind_invariant +
  fixes sender :: "uuid \<Rightarrow> order_reason \<Rightarrow> bool"
  assumes attributed: "J d tr \<Longrightarrow> evt_db ev = d \<Longrightarrow> row_of ev = Some row \<Longrightarrow> sender (o_user row) (o_reason row) \<Longrightarrow>
    J d (tr @ [ev])"
begin

definition attempted :: "uuid \<Rightarrow> order_reason \<Rightarrow> string \<Rightarrow> world \<Rightarrow> bool" where
  "attempted user reason c w \<longleftrightarrow> holds w \<and>
     (\<exists>row. find (\<lambda>row. o_cl_ord_id row = c) (t_orders (w_db w)) = Some row \<and> o_user row = user \<and> o_reason row = reason)"

lemma triple_record:
  "triple holds (transaction e (record_attempt user c pair asset side reason amount t i))
     (\<lambda>r w. case r of Inl _ \<Rightarrow> holds w | Inr _ \<Rightarrow> attempted user reason c w)"
proof (rule tripleI)
  fix w r w' assume w: "holds w" and m: "transaction e (record_attempt user c pair asset side reason amount t i) w = (r, w')"
  have h: "holds w'" by (rule keepsD [OF keeps_tx [OF safe_record] w m])
  have "attempted user reason c w'" if "r = Inr x" for x
    using m [unfolded that]
    by (rule recorded_attempt) (use h in \<open>auto simp: attempted_def find_append_new [where g = o_cl_ord_id]\<close>)
  then show "case r of Inl _ \<Rightarrow> holds w' | Inr _ \<Rightarrow> attempted user reason c w'" using h by (cases r) auto
qed

lemma triple_place:
  assumes "sender user reason"
  shows "triple (attempted user reason c) (place (kraken e who) l c validate) (\<lambda>_. holds)"
proof (rule tripleI)
  fix w r w' assume w: "attempted user reason c w" and p: "place (kraken e who) l c validate w = (r, w')"
  show "holds w'" using p
    by (cases rule: place_cases)
      (use w assms in \<open>auto simp: attempted_def holds_def row_of_def intro: attributed\<close>)
qed

lemma keeps_recorded_place:
  assumes "sender user reason" "\<And>p. keeps holds (g p)"
  shows "keeps holds (seq (transaction e (record_attempt user c pair asset side reason amount t j))
    (bind (place (kraken e who) l c False) g))"
  unfolding seq_def keeps_triple
  by (rule triple_bind [OF triple_record])
    (use assms in \<open>auto intro!: triple_bind [OF triple_place [OF assms(1)]] simp: keeps_triple\<close>)

lemma keeps_send_leg: "sender user reason \<Longrightarrow> keeps holds (send_leg e user i (kraken e who) l reason)"
  unfolding send_leg_def Let_def
  by (intro keeps_bind keeps_quiet keeps_recorded_place keeps_seq keeps_after_placement keeps_tx
      safe_reading keeps_option keeps_unit)

end

locale attributed_invariant = telemetry_blind_invariant + attributed_sending

sublocale attributed_invariant \<subseteq> executor_invariant J sender
  by unfold_locales (rule keeps_send_leg)

text \<open>One that lets any order be sent.\<close>

locale execution_blind_invariant = telemetry_blind_invariant +
  assumes any_event: "J d tr \<Longrightarrow> J d (tr @ [ev])"

sublocale execution_blind_invariant \<subseteq> attributed_invariant J "\<lambda>_ _. True"
  by unfold_locales (rule any_event)

section \<open>The service\<close>

text \<open>
  The whole service, from its operations: what the four that may send keep is asked for as
  such, because an invariant may allow only some of them to send.
\<close>

locale service_invariant = telemetry_invariant +
  assumes invest_op [keeps_intros]: "safe_reads public \<Longrightarrow> keeps holds (invest e public user p trg)"
    and propose_op [keeps_intros]: "safe_reads public \<Longrightarrow> keeps holds (propose e public user trg)"
    and approve_op [keeps_intros]: "safe_reads public \<Longrightarrow> keeps holds (approve e public user v)"
    and rebalance_op [keeps_intros]: "safe_reads public \<Longrightarrow> keeps holds (rebalance_now e public user)"
    and withdraw_tx [safe_intros]: "safe (withdraw_tx user v)"
    and advance_tx [safe_intros]: "safe (advance_tx config user k t)"
    and count_tx [safe_intros]: "safe (count_tx user failed)"
    and backfill [safe_intros]: "safe (backfill t config)"
    and sweep_evaluations [safe_intros]: "safe (delete_evaluations_before t)"
    and sweep_tokens [safe_intros]: "safe (delete_expired_refresh_tokens t)"
begin

lemma keeps_withdraw [keeps_intros]: "keeps holds (withdraw e user v)"
  unfolding withdraw_def by (intro keeps_intros safe_intros)

lemma keeps_operate [keeps_intros]: "safe_reads public \<Longrightarrow> keeps holds (operate e config public user k t)"
  unfolding operate_def run_operation_def advance_def count_def alert_def
  by (auto intro!: keeps_intros keeps_frame safe_intros split: option.splits follow_up.splits)

lemma keeps_guarded [keeps_intros]: "safe_reads public \<Longrightarrow> keeps holds (guarded e config public t due)"
  unfolding guarded_def by (auto intro!: keeps_intros)

lemma keeps_sweep [keeps_intros]: "keeps holds (sweep e config t)"
  unfolding sweep_def by (auto intro!: keeps_intros safe_intros keeps_frame)

lemma keeps_tick [keeps_intros]: "keeps holds (tick e config t)"
proof -
  have "safe_reads (tick_market (market e))" by (intro safe_tick_market safe_market)
  then show ?thesis
    unfolding tick_def preload_def each_def
    by (auto intro!: keeps_intros keeps_frame safe_intros simp: safe_reads_def [of "tick_market (market e)"])
qed

lemma keeps_loop_pass [keeps_intros]: "keeps holds (loop_pass e config)"
  unfolding loop_pass_def by (auto intro!: keeps_intros)

lemma keeps_start [keeps_intros]: "keeps holds (start e config)"
  unfolding start_def by (auto intro!: keeps_intros safe_intros)

end

text \<open>An invariant that every transaction and every sending keeps is one of the service.\<close>

locale transactional_invariant = executor_invariant J "\<lambda>_ _. True" for J +
  assumes slot_withdrawing [safe_intros]: "safe (withdraw_tx user v)"
    and slot_keeping [safe_intros]: "safe (keep_proposal user doc trg)"
    and slot_approving [safe_intros]: "safe (approve_tx user v doc)"
    and slot_executed [safe_intros]: "safe (set_status user EXECUTED)"
    and slot_automatic [safe_intros]: "safe (automatic_tx user)"
    and advancing [safe_intros]: "safe (advance_tx config user k t)"
    and counting [safe_intros]: "safe (count_tx user failed)"
    and backfilling [safe_intros]: "safe (backfill t config)"
    and sweeping_evaluations [safe_intros]: "safe (delete_evaluations_before t)"
    and sweeping_tokens [safe_intros]: "safe (delete_expired_refresh_tokens t)"
begin

lemma keeps_propose: "safe_reads public \<Longrightarrow> keeps holds (propose e public user trg)"
  unfolding propose_def propose_decision_def Let_def by (intro keeps_intros keeps_evaluate safe_intros) simp_all

lemma keeps_approve: "safe_reads public \<Longrightarrow> keeps holds (approve e public user v)"
  unfolding approve_def approve_decision_def Let_def
  by (intro keeps_intros keeps_evaluate safe_intros keeps_frame) (auto intro!: keeps_intros keeps_frame)

lemma keeps_rebalance_now: "safe_reads public \<Longrightarrow> keeps holds (rebalance_now e public user)"
  unfolding rebalance_now_def automatic_decision_def
  by (intro keeps_intros keeps_evaluate safe_intros) (auto intro!: keeps_intros)

end

sublocale transactional_invariant \<subseteq> service_invariant
  by unfold_locales (auto intro: keeps_invest keeps_propose keeps_approve keeps_rebalance_now
    intro!: slot_withdrawing advancing counting backfilling sweeping_evaluations sweeping_tokens)

end
