(* ===== verification/Ledger_Safety.thy ===== *)
theory Ledger_Safety
  imports Executor
begin

text \<open>
  What the ledger promises of the orders sent: each was written down, committed and pending
  before it left, under an id that no earlier order of the ledger had; and a row of the ledger
  is never lost, never changes what it stands for and never becomes pending again. Both are
  instances of one interface: an invariant of the ledger and the trace that a read, a
  settlement, a new attempt and the placement of that attempt keep is kept by everything the
  executor does.
\<close>

section \<open>Transactions that leave the ledger alone\<close>

lemma orders_same_settings:
  "orders_same (update_settings user changes)" "orders_same (load_account user sells)"
  "orders_same unscheduled_settings" "orders_same (due_users t n)" "orders_same (pairs_for us)"
  unfolding orders_same_keeps update_settings_def get_settings_def load_account_def get_credentials_def list_assets_def
    unscheduled_settings_def due_users_def pairs_for_def
  by (auto intro!: keeps_intros keeps_modify split: option.splits)

lemma orders_same_proposals:
  "orders_same (get_live_proposal user)" "orders_same (set_status user st)" "orders_same (withdraw_slot user)"
  "orders_same (save_proposal user doc trg v)"
  unfolding orders_same_keeps get_live_proposal_def get_proposal_def set_status_def withdraw_slot_def save_proposal_def
  by (auto intro!: keeps_intros keeps_modify split: option.splits)

lemma orders_same_keep_proposal: "orders_same (keep_proposal user doc trg)"
  using orders_same_proposals unfolding orders_same_keeps keep_proposal_def get_proposal_def Let_def
  by (auto intro!: keeps_intros split: option.splits prod.splits)

lemma orders_same_decisions:
  "orders_same (withdraw_tx user v)" "orders_same (approve_tx user v doc)" "orders_same (approve_guard user v)"
  "orders_same (automatic_tx user)"
  using orders_same_proposals orders_same_keep_proposal orders_same_reads(4)
  unfolding orders_same_keeps withdraw_tx_def approve_tx_def approve_guard_def automatic_tx_def get_proposal_def Let_def
  by (auto intro!: keeps_intros split: option.splits)

lemma orders_same_schedule:
  "orders_same (advance_tx config user k t)" "orders_same (count_tx user failed)" "orders_same (backfill t config)"
  "orders_same (delete_evaluations_before t1)" "orders_same (delete_expired_refresh_tokens t2)"
  using orders_same_settings orders_same_reads(4)
  unfolding orders_same_keeps advance_tx_def count_tx_def backfill_def delete_evaluations_before_def
    delete_expired_refresh_tokens_def Let_def
  by (auto intro!: keeps_intros keeps_modify split: option.splits)

section \<open>What announces an order\<close>

definition ledger_ids :: "order_row list \<Rightarrow> string list" where
  "ledger_ids rows = map o_cl_ord_id rows"

text \<open>A row that says, before the answer is known, what an order asks for.\<close>

fun announces :: "order_row \<Rightarrow> request \<Rightarrow> bool" where
  "announces row (AddOrder order) \<longleftrightarrow>
     o_status row = PENDING \<and> o_txid row = None \<and> o_cl_ord_id row = ao_cl_ord_id order \<and>
     o_pair row = ao_pair order \<and> side_value (o_side row) = ao_type order \<and>
     (o_side row = BUY \<longrightarrow> AMOUNT (ao_volume order) = Inr (o_requested_fiat row))"
| "announces row _ = False"

lemma ledger_ids_simps [simp]:
  "ledger_ids [] = []" "ledger_ids (row # rows) = o_cl_ord_id row # ledger_ids rows"
  "ledger_ids (xs @ ys) = ledger_ids xs @ ledger_ids ys"
  by (simp_all add: ledger_ids_def)

lemma rows_ids: "list_all2 row_step xs ys \<Longrightarrow> ledger_ids ys = ledger_ids xs"
  by (induction rule: list_all2_induct) (simp_all add: row_step_def)

section \<open>The interface of the ledger\<close>

text \<open>
  An invariant of the ledger and the trace that survives a read from Kraken, any settlement of
  rows, a new attempt under an identifier no row has, and the placement of that attempt.
\<close>

locale ledger_invariant =
  fixes K :: "order_row list \<Rightarrow> event list \<Rightarrow> bool"
  assumes reads: "K (t_orders d) tr \<Longrightarrow> \<not> trades r \<Longrightarrow>
      K (t_orders d) (tr @ [\<lparr>evt_who = who, evt_request = r, evt_answer = a, evt_db = d\<rparr>])"
    and settles: "K os tr \<Longrightarrow> list_all2 row_step os os' \<Longrightarrow> K os' tr"
    and attempts: "K os tr \<Longrightarrow> o_cl_ord_id row \<notin> set (ledger_ids os) \<Longrightarrow> o_status row = PENDING \<Longrightarrow> K (os @ [row]) tr"
    and places: "K os tr \<Longrightarrow> o_cl_ord_id row \<notin> set (ledger_ids os) \<Longrightarrow> announces row r \<Longrightarrow> t_orders d = os @ [row] \<Longrightarrow>
      K (os @ [row]) (tr @ [\<lparr>evt_who = who, evt_request = r, evt_answer = a, evt_db = d\<rparr>])"

sublocale ledger_invariant \<subseteq> transacting_invariant "\<lambda>d. K (t_orders d)"
  by unfold_locales (auto intro: reads)

context ledger_invariant
begin

lemma safe_step: "orders_step m \<Longrightarrow> safe m"
  unfolding safe_def orders_step_def using settles by (metis snd_conv)

lemma safe_same: "orders_same m \<Longrightarrow> safe m"
  by (intro safe_step orders_same_step)

lemma keeps_after_placement [keeps_intros]: "keeps holds (after_placement e (kraken e who) c p)"
  unfolding after_placement_def
  by (auto intro!: keeps_intros safe_step orders_step_marks orders_step_settle
        split: placement_outcome.splits option.splits)

text \<open>Between the attempt's commit and its answer.\<close>

definition written :: "planned_leg \<Rightarrow> string \<Rightarrow> world \<Rightarrow> bool" where
  "written l c w \<longleftrightarrow> (\<exists>os row. t_orders (w_db w) = os @ [row] \<and> K os (w_trace w) \<and> c \<notin> set (ledger_ids os) \<and>
     o_cl_ord_id row = c \<and> o_status row = PENDING \<and> o_txid row = None \<and> o_pair row = pg_pair l \<and>
     o_side row = pg_side l \<and> AMOUNT (pg_amount l) = Inr (o_requested_fiat row))"

lemma written_holds: "written l c w \<Longrightarrow> holds w"
  unfolding written_def holds_def using attempts by metis

lemma triple_record:
  "triple holds (transaction e (record_attempt user c (pg_pair l) asset (pg_side l) reason (pg_amount l) t i))
     (\<lambda>r w. case r of Inl _ \<Rightarrow> holds w | Inr _ \<Rightarrow> written l c w)"
  unfolding triple_def transaction_def session_scope_def record_attempt_def act_defs
  by (auto simp: holds_def written_def ledger_ids_def split: sum.splits)

lemma triple_place: "triple (written l c) (place (kraken e who) l c False) (\<lambda>_. holds)"
proof (rule tripleI)
  fix w r w' assume w: "written l c w" and p: "place (kraken e who) l c False w = (r, w')"
  from w obtain os row where row: "t_orders (w_db w) = os @ [row]" "K os (w_trace w)" "o_cl_ord_id row \<notin> set (ledger_ids os)"
    "o_cl_ord_id row = c" "o_status row = PENDING" "o_txid row = None" "o_pair row = pg_pair l"
    "o_side row = pg_side l" "AMOUNT (pg_amount l) = Inr (o_requested_fiat row)"
    unfolding written_def by blast
  show "holds w'"
    using p
  proof (cases rule: place_cases)
    case stuck
    then show ?thesis using written_holds [OF w] by simp
  next
    case (placed k a x)
    then have "announces row (order_for l c False x)" using row(4-) by (simp add: order_for_def)
    from places [OF row(2,3) this row(1)] show ?thesis by (simp add: placed holds_def row(1))
  qed
qed

text \<open>An attempt written down, placed, and followed by anything that keeps the invariant.\<close>

lemma keeps_recorded_place:
  assumes "\<And>p. keeps holds (f p)"
  shows "keeps holds (seq (transaction e (record_attempt user c (pg_pair l) asset (pg_side l) reason (pg_amount l) t j))
    (bind (place (kraken e who) l c False) f))"
  unfolding seq_def keeps_triple
proof (rule triple_bind [OF triple_record])
  show "triple (\<lambda>w. case Inr a of Inl (_ :: exn) \<Rightarrow> holds w | Inr (_ :: unit) \<Rightarrow> written l c w)
      (bind (place (kraken e who) l c False) f) (\<lambda>_. holds)" for a
    using assms by (auto intro!: triple_bind [OF triple_place] simp: keeps_triple)
qed simp

lemma keeps_send_leg [keeps_intros]: "keeps holds (send_leg e user i (kraken e who) l reason)"
  unfolding send_leg_def Let_def
  by (intro keeps_bind keeps_quiet keeps_recorded_place keeps_seq keeps_after_placement keeps_tx
      safe_reading keeps_option keeps_unit)

end

sublocale ledger_invariant \<subseteq> transactional_invariant "\<lambda>d. K (t_orders d)"
proof (unfold_locales, goal_cases)
  case 1 show ?case by (rule safe_step) (rule orders_step_settle)
next
  case (6 user reason e eid who l) show ?case by (rule keeps_send_leg)
qed (rule safe_same, rule orders_same_telemetry orders_same_keep_snapshot orders_same_decisions
    orders_same_keep_proposal orders_same_proposals orders_same_schedule)+

end
