(* ===== verification/Sample_Account.thy ===== *)
theory Sample_Account
  imports World
begin

text \<open>
  A concrete account for the witnesses: an exchange that answers every request, one user with
  a key, a fiat and one target, and the process before it did anything.
\<close>

definition sample_reply :: "(string \<times> json) list \<Rightarrow> answer" where
  "sample_reply kvs = Body (JObj [(''error'', JList []), (''result'', JObj kvs)])"

fun sample_exchange :: "request \<Rightarrow> answer" where
  "sample_exchange Assets = sample_reply
     [(''ZEUR'', JObj [(''altname'', JStr ''EUR''), (''decimals'', JInt 4)]),
      (''XXBT'', JObj [(''altname'', JStr ''XBT''), (''decimals'', JInt 10)])]"
| "sample_exchange (AssetPairs ps) = sample_reply
     [(''XXBTZEUR'', JObj [(''altname'', JStr ''XBTEUR''), (''base'', JStr ''XXBT''), (''quote'', JStr ''ZEUR''),
        (''pair_decimals'', JInt 1), (''lot_decimals'', JInt 8), (''cost_decimals'', JInt 5),
        (''ordermin'', JStr ''0.0001''), (''costmin'', JStr ''0.5''), (''status'', JStr ''online'')])]"
| "sample_exchange (Ticker ps) = sample_reply [(''XXBTZEUR'', JObj [(''c'', JList [JStr ''50000'', JStr ''1''])])]"
| "sample_exchange Balance = sample_reply [(''ZEUR'', JStr ''100'')]"
| "sample_exchange (AddOrder order) = sample_reply [(''txid'', JList [JStr ''T1''])]"
| "sample_exchange (QueryOrders txid) = sample_reply [(''T1'', JObj [(''status'', JStr ''closed''), (''vol_exec'', JStr ''0.002''),
      (''price'', JStr ''50000''), (''fee'', JStr ''0.4''), (''cost'', JStr ''99.6'')])]"
| "sample_exchange r = sample_reply []"

definition sample_env :: env where
  "sample_env = \<lparr>env_answer = (\<lambda>_ _ r. sample_exchange r), env_clock = (\<lambda>n. int n * SECOND),
     env_server_clock = (\<lambda>n. int n * SECOND), env_uuid = (\<lambda>n. word_of_nat n), env_lock = (\<lambda>_. True),
     env_scheduler_lock = True, env_pool = (\<lambda>n. n - 1), env_unseal = (\<lambda>_ _. Inr \<lparr>api_key = ''k'', api_secret = ''s''\<rparr>)\<rparr>"

definition sample_db :: db where
  "sample_db = empty_db\<lparr>
     t_credentials := [(7, \<lparr>cr_sealed = \<lparr>ciphertext = [], nonce = [], key_version = 1\<rparr>, cr_validated_at = 0\<rparr>)],
     t_settings := [(7, default_settings ''EUR'')],
     t_assets := [\<lparr>as_user = 7, as_asset = ''XBT'', as_pair = ''XXBTZEUR'', as_target_pct = 100\<rparr>]\<rparr>"

definition sample_world :: world where
  "sample_world = \<lparr>w_db = sample_db, w_trace = [], w_readings = 0, w_transactions = 0, w_uuids = 0, w_names = None,
     w_pairs = None, w_decimals = None, w_prices = [], w_log = [], w_legs = [], w_blocked = [], w_pinned = False,
     w_executing = False, w_swept = None, w_alerts = []\<rparr>"

end
