(* ===== verification/Config.thy ===== *)
theory Config
  imports Schedule
begin

text \<open>
  The one module that reads the process environment (\<open>core/config.py\<close>), and what it uses of
  Python to read it: \<open>int\<close> of a text, \<open>str.split\<close> and \<open>str.partition\<close>, and the strict
  \<open>base64.b64decode\<close>. An environment is a lookup; texts are ASCII.
\<close>

section \<open>What a computation that may raise gives\<close>

definition gives :: "'a result \<Rightarrow> ('a \<Rightarrow> bool) \<Rightarrow> bool" where
  "gives r P \<longleftrightarrow> (\<forall>a. r = Inr a \<longrightarrow> P a)"

named_theorems gives_rules \<open>what a result is, from the parts of its computation\<close>

lemma gives_any: "gives r (\<lambda>_. True)"
  by (simp add: gives_def)

lemma gives_Inl [gives_rules]: "gives (Inl e) P"
  by (simp add: gives_def)

lemma gives_Inr: "P a \<Longrightarrow> gives (Inr a) P"
  by (simp add: gives_def)

lemma gives_rbind: "gives m P \<Longrightarrow> (\<And>a. P a \<Longrightarrow> gives (f a) Q) \<Longrightarrow> gives (rbind m f) Q"
  by (auto simp: gives_def result_simps)

lemma gives_if: "(b \<Longrightarrow> gives m P) \<Longrightarrow> (\<not> b \<Longrightarrow> gives n P) \<Longrightarrow> gives (if b then m else n) P"
  by simp

section \<open>What Python reads from a text\<close>

definition lower_char :: "char \<Rightarrow> char" where
  "lower_char c = (let n = of_char c :: nat in if 65 \<le> n \<and> n \<le> 90 then char_of (n + 32) else c)"

definition lower :: "string \<Rightarrow> string" where
  "lower s = map lower_char s"

text \<open>The digits of an integer literal, single underscores between them dropped.\<close>

fun ungroup :: "bool \<Rightarrow> string \<Rightarrow> string option" where
  "ungroup after_digit [] = (if after_digit then Some [] else None)"
| "ungroup after_digit (c # cs) =
     (if is_digit c then map_option (Cons c) (ungroup True cs)
      else if c = CHR ''_'' \<and> after_digit then ungroup False cs
      else None)"

text \<open>\<open>int(text)\<close>.\<close>

definition python_int :: "string \<Rightarrow> int option" where
  "python_int text =
     (let t = strip text;
          neg = take 1 t = ''-'';
          digits = (if neg \<or> take 1 t = ''+'' then drop 1 t else t)
      in map_option (\<lambda>ds. (if neg then -1 else 1) * int (nat_of_digits ds)) (ungroup False digits))"

text \<open>\<open>text.split(sep)\<close> and \<open>text.partition(sep)\<close>, of one character.\<close>

fun split_on :: "char \<Rightarrow> string \<Rightarrow> string list" where
  "split_on sep [] = [[]]"
| "split_on sep (c # cs) =
     (if c = sep then [] # split_on sep cs
      else case split_on sep cs of [] \<Rightarrow> [[c]] | w # ws \<Rightarrow> (c # w) # ws)"

definition partition_on :: "char \<Rightarrow> string \<Rightarrow> string \<times> bool \<times> string" where
  "partition_on sep s = (let h = takeWhile (\<lambda>c. c \<noteq> sep) s in (h, length h < length s, drop (Suc (length h)) s))"

section \<open>base64\<close>

definition b64_char :: "nat \<Rightarrow> char" where
  "b64_char n = (if n < 26 then char_of (65 + n) else if n < 52 then char_of (97 + (n - 26))
     else if n < 62 then char_of (48 + (n - 52)) else if n = 62 then CHR ''+'' else CHR ''/'')"

definition b64_value :: "char \<Rightarrow> nat option" where
  "b64_value c = (let n = of_char c :: nat in
     if 65 \<le> n \<and> n < 91 then Some (n - 65) else if 97 \<le> n \<and> n < 123 then Some (n - 97 + 26)
     else if 48 \<le> n \<and> n < 58 then Some (n - 48 + 52) else if n = 43 then Some 62 else if n = 47 then Some 63 else None)"

fun b64_encode :: "8 word list \<Rightarrow> string" where
  "b64_encode [] = []"
| "b64_encode [a] = [b64_char (unat a div 4), b64_char (unat a mod 4 * 16), CHR ''='', CHR ''='']"
| "b64_encode [a, b] = [b64_char (unat a div 4), b64_char (unat a mod 4 * 16 + unat b div 16),
     b64_char (unat b mod 16 * 4), CHR ''='']"
| "b64_encode (a # b # c # rest) = [b64_char (unat a div 4), b64_char (unat a mod 4 * 16 + unat b div 16),
     b64_char (unat b mod 16 * 4 + unat c div 64), b64_char (unat c mod 64)] @ b64_encode rest"

text \<open>
  \<open>b64decode(text, validate=True)\<close>: groups of four, only the last of them padded. The bits a
  padded group has too many are ignored.
\<close>

fun b64_decode :: "string \<Rightarrow> 8 word list option" where
  "b64_decode [] = Some []"
| "b64_decode (p # q # r # s # rest) =
     (case (b64_value p, b64_value q) of
        (Some x, Some y) \<Rightarrow>
          if rest = [] \<and> r = CHR ''='' \<and> s = CHR ''='' then Some [of_nat (x * 4 + y div 16)]
          else (case b64_value r of
                  None \<Rightarrow> None
                | Some z \<Rightarrow>
                    if rest = [] \<and> s = CHR ''='' then Some [of_nat (x * 4 + y div 16), of_nat (y mod 16 * 16 + z div 4)]
                    else (case b64_value s of
                            None \<Rightarrow> None
                          | Some w \<Rightarrow> map_option (\<lambda>bs. of_nat (x * 4 + y div 16) # of_nat (y mod 16 * 16 + z div 4) #
                                of_nat (z mod 4 * 64 + w) # bs) (b64_decode rest)))
      | _ \<Rightarrow> None)"
| "b64_decode _ = None"

section \<open>The settings of the process\<close>

type_synonym environ = "string \<rightharpoonup> string"

definition MASTER_KEY_BYTES :: nat where "MASTER_KEY_BYTES = 32"
definition MIN_JWT_SECRET_CHARS :: nat where "MIN_JWT_SECRET_CHARS = 32"
definition DEFAULT_JWT_TTL_MINUTES :: int where "DEFAULT_JWT_TTL_MINUTES = 15"
definition DEFAULT_REFRESH_TTL_DAYS :: int where "DEFAULT_REFRESH_TTL_DAYS = 30"

record google_config =
  gc_client_id :: string
  gc_client_secret :: string
  gc_redirect_uri :: string

record app_config =
  cf_database_url :: string
  cf_jwt_secret :: string
  cf_jwt_ttl :: timedelta
  cf_refresh_ttl :: timedelta
  cf_cookie_secure :: bool
  cf_google :: google_config
  cf_credential_keys :: "(int \<times> 8 word list) list"
  cf_credential_key_version :: int
  cf_scheduler :: scheduler_config

definition environ_get :: "environ \<Rightarrow> string \<Rightarrow> string" where
  "environ_get environ name = (case environ name of None \<Rightarrow> [] | Some v \<Rightarrow> v)"

definition required :: "environ \<Rightarrow> string \<Rightarrow> string result" where
  "required environ name =
     (let value = environ_get environ name
      in if value = [] then Inl (ConfigError (name @ '' is not set'')) else Inr value)"

definition positive :: "environ \<Rightarrow> string \<Rightarrow> int option \<Rightarrow> int result" where
  "positive environ name preset =
     (let raw = environ_get environ name
      in if raw = []
         then (case preset of None \<Rightarrow> Inl (ConfigError (name @ '' is not set'')) | Some d \<Rightarrow> Inr d)
         else (case python_int raw of
                 None \<Rightarrow> Inl (ConfigError (name @ '' is not an integer''))
               | Some value \<Rightarrow>
                   if value \<le> 0 then Inl (ConfigError (name @ '' must be positive'')) else Inr value))"

definition flag :: "environ \<Rightarrow> string \<Rightarrow> bool \<Rightarrow> bool result" where
  "flag environ name preset =
     (let raw = lower (strip (environ_get environ name))
      in if raw = [] then Inr preset
         else if raw \<in> {''true'', ''1'', ''yes''} then Inr True
         else if raw \<in> {''false'', ''0'', ''no''} then Inr False
         else Inl (ConfigError (name @ '' must be true or false'')))"

text \<open>\<open>timedelta(unit=n)\<close>, which holds at most 999999999 days.\<close>

definition duration :: "timedelta \<Rightarrow> int \<Rightarrow> timedelta result" where
  "duration unit n = (if 999999999 < n * unit div DAY then Inl OverflowError else Inr (n * unit))"

definition master_key :: "string \<Rightarrow> (int \<times> 8 word list) list \<Rightarrow> (int \<times> 8 word list) list result" where
  "master_key entry keys =
     (case partition_on (CHR '':'') (strip entry) of (version_text, separator, encoded) \<Rightarrow>
        if \<not> separator then Inl (ConfigError ''CREDENTIAL_KEYS entries must look like <version>:<base64>'')
        else (case (python_int version_text, b64_decode encoded) of
                (Some version, Some key) \<Rightarrow>
                  if length key \<noteq> MASTER_KEY_BYTES
                  then Inl (ConfigError (''CREDENTIAL_KEYS version '' @ string_of_int version @ '' is not 32 bytes''))
                  else if version \<in> set (map fst keys)
                  then Inl (ConfigError (''CREDENTIAL_KEYS lists version '' @ string_of_int version @ '' twice''))
                  else Inr (keys @ [(version, key)])
              | _ \<Rightarrow> Inl (ConfigError ''CREDENTIAL_KEYS holds an entry that does not parse'')))"

fun master_keys_from :: "string list \<Rightarrow> (int \<times> 8 word list) list \<Rightarrow> (int \<times> 8 word list) list result" where
  "master_keys_from [] keys = Inr keys"
| "master_keys_from (entry # entries) keys = rbind (master_key entry keys) (master_keys_from entries)"

definition master_keys :: "string \<Rightarrow> (int \<times> 8 word list) list result" where
  "master_keys raw = master_keys_from (split_on (CHR '','') raw) []"

definition load_scheduler :: "environ \<Rightarrow> scheduler_config result" where
  "load_scheduler environ =
     (let d = default_scheduler_config;
          seconds = (\<lambda>name x. rbind (positive environ name (Some (whole_seconds x))) (duration SECOND))
      in rbind (flag environ ''SCHEDULER_ENABLED'' True) (\<lambda>enabled.
         rbind (seconds ''SCHEDULER_TICK_SECONDS'' (sc_tick d)) (\<lambda>tick.
         rbind (positive environ ''SCHEDULER_BATCH'' (Some (int (sc_batch d)))) (\<lambda>batch.
         rbind (positive environ ''SCHEDULER_WORKERS'' (Some (int (sc_workers d)))) (\<lambda>workers.
         rbind (rbind (positive environ ''SCHEDULER_MIN_CADENCE_MINUTES'' (Some (whole_seconds (sc_min_cadence d) div 60)))
                 (duration (60 * SECOND))) (\<lambda>min_cadence.
         rbind (seconds ''SCHEDULER_WINDOW_SECONDS'' (sc_window d)) (\<lambda>window.
         rbind (positive environ ''SCHEDULER_ALERT_STREAK'' (Some (sc_alert_streak d))) (\<lambda>alert_streak.
         rbind (rbind (positive environ ''SESSIONS_RETENTION_DAYS'' (Some (sc_sessions_retention d div DAY)))
                 (duration DAY)) (\<lambda>retention.
           Inr \<lparr>sc_enabled = enabled, sc_tick = tick, sc_batch = nat batch, sc_workers = nat workers,
                sc_min_cadence = min_cadence, sc_window = window, sc_alert_streak = alert_streak,
                sc_sessions_retention = retention\<rparr>)))))))))"

definition load_config :: "environ \<Rightarrow> app_config result" where
  "load_config environ =
     rbind (required environ ''JWT_SECRET'') (\<lambda>jwt_secret.
       if length jwt_secret < MIN_JWT_SECRET_CHARS
       then Inl (ConfigError ''JWT_SECRET must be at least 32 characters'')
       else rbind (rbind (required environ ''CREDENTIAL_KEYS'') master_keys) (\<lambda>keys.
         rbind (positive environ ''CREDENTIAL_KEY_VERSION'' None) (\<lambda>version.
           if version \<notin> set (map fst keys)
           then Inl (ConfigError ''CREDENTIAL_KEY_VERSION names a key that CREDENTIAL_KEYS does not hold'')
           else rbind (required environ ''DATABASE_URL'') (\<lambda>database_url.
             rbind (rbind (positive environ ''JWT_TTL_MINUTES'' (Some DEFAULT_JWT_TTL_MINUTES)) (duration (60 * SECOND))) (\<lambda>jwt_ttl.
             rbind (rbind (positive environ ''REFRESH_TTL_DAYS'' (Some DEFAULT_REFRESH_TTL_DAYS)) (duration DAY)) (\<lambda>refresh_ttl.
             rbind (flag environ ''COOKIE_SECURE'' True) (\<lambda>cookie_secure.
             rbind (required environ ''GOOGLE_CLIENT_ID'') (\<lambda>client_id.
             rbind (required environ ''GOOGLE_CLIENT_SECRET'') (\<lambda>client_secret.
             rbind (required environ ''GOOGLE_REDIRECT_URI'') (\<lambda>redirect_uri.
             rbind (load_scheduler environ) (\<lambda>scheduler.
               Inr \<lparr>cf_database_url = database_url, cf_jwt_secret = jwt_secret, cf_jwt_ttl = jwt_ttl,
                    cf_refresh_ttl = refresh_ttl, cf_cookie_secure = cookie_secure,
                    cf_google = \<lparr>gc_client_id = client_id, gc_client_secret = client_secret, gc_redirect_uri = redirect_uri\<rparr>,
                    cf_credential_keys = keys, cf_credential_key_version = version, cf_scheduler = scheduler\<rparr>)))))))))))"

section \<open>base64 reads back what it writes\<close>

lemma of_char_less_64:
  assumes "n < 64"
  shows "(of_char (b64_char n) :: nat) =
    (if n < 26 then 65 + n else if n < 52 then 71 + n else if n < 62 then n - 4 else if n = 62 then 43 else 47)"
  using assms by (simp add: b64_char_def)

lemma b64_value_char [simp]: "n < 64 \<Longrightarrow> b64_value (b64_char n) = Some n"
  by (auto simp: b64_value_def of_char_less_64 Let_def)

lemma b64_pad [simp]: "b64_value CHR ''='' = None"
  by (simp add: b64_value_def)

lemma b64_char_not_pad [simp]: "n < 64 \<Longrightarrow> b64_char n \<noteq> CHR ''=''"
  by (metis b64_pad b64_value_char option.distinct(1))

lemma byte_bound [simp]: "unat (a :: 8 word) < 256"
  using unsigned_less [of a] by simp

lemma pack:
  fixes k m n :: nat
  assumes "k < m"
  shows "(n * m + k) div m = n" "(n * m + k) mod m = k"
  using assms by simp_all

lemma b64_bounds:
  fixes a b :: nat
  assumes "a < 256" "b < 256"
  shows "a div 4 < 64" "a mod 4 * 16 < 64" "a mod 4 * 16 + b div 16 < 64" "a mod 16 * 4 < 64"
    "a mod 16 * 4 + b div 64 < 64" "a mod 64 < 64" "b div 16 < 16" "b div 64 < 4"
proof -
  show small: "b div 16 < 16" "b div 64 < 4" "a div 4 < 64" using assms by (simp_all add: less_mult_imp_div_less)
  have "a mod 4 < 4" "a mod 16 < 16" by simp_all
  then show "a mod 4 * 16 < 64" "a mod 4 * 16 + b div 16 < 64" "a mod 16 * 4 < 64" "a mod 16 * 4 + b div 64 < 64"
    using small by linarith+
  show "a mod 64 < 64" by simp
qed

lemma b64_unpack:
  fixes a b c :: nat
  assumes "b < 256" "c < 256"
  shows "a div 4 * 4 + (a mod 4 * 16) div 16 = a"
    "a div 4 * 4 + (a mod 4 * 16 + b div 16) div 16 = a"
    "(a mod 4 * 16 + b div 16) mod 16 * 16 + (b mod 16 * 4) div 4 = b"
    "(a mod 4 * 16 + b div 16) mod 16 * 16 + (b mod 16 * 4 + c div 64) div 4 = b"
    "(b mod 16 * 4 + c div 64) mod 4 * 64 + c mod 64 = c"
  using b64_bounds [OF assms(1) assms(1)] b64_bounds [OF assms(2) assms(2)] by (simp_all only: pack) simp_all

lemma byte_bounds:
  fixes a b :: "8 word"
  shows "unat a div 4 < 64" "unat a mod 4 * 16 < 64" "unat a mod 4 * 16 + unat b div 16 < 64"
    "unat a mod 16 * 4 < 64" "unat a mod 16 * 4 + unat b div 64 < 64" "unat a mod 64 < 64"
  using b64_bounds [OF byte_bound byte_bound] by blast+

lemma byte_unpack:
  fixes a b c :: "8 word"
  shows "unat a div 4 * 4 + unat a mod 4 * 16 div 16 = unat a"
    "unat a div 4 * 4 + (unat a mod 4 * 16 + unat b div 16) div 16 = unat a"
    "(unat a mod 4 * 16 + unat b div 16) mod 16 * 16 + unat b mod 16 * 4 div 4 = unat b"
    "(unat a mod 4 * 16 + unat b div 16) mod 16 * 16 + (unat b mod 16 * 4 + unat c div 64) div 4 = unat b"
    "(unat b mod 16 * 4 + unat c div 64) mod 4 * 64 + unat c mod 64 = unat c"
  using b64_unpack [OF byte_bound byte_bound] by blast+

lemma b64_decode_encode [simp]: "b64_decode (b64_encode bs) = Some bs"
proof (induction bs rule: b64_encode.induct)
  case (2 a)
  show ?case
    by (simp only: b64_encode.simps b64_decode.simps b64_value_char byte_bounds prod.case option.case
        simp_thms if_True byte_unpack of_nat_unat ucast_id)
next
  case (3 a b)
  show ?case
    by (simp only: b64_encode.simps b64_decode.simps b64_value_char b64_char_not_pad byte_bounds prod.case option.case
        simp_thms if_True if_False byte_unpack of_nat_unat ucast_id)
next
  case (4 a b c rest)
  from 4 show ?case
    by (simp only: b64_encode.simps append.simps b64_decode.simps b64_value_char b64_char_not_pad byte_bounds prod.case option.case
        simp_thms if_True if_False byte_unpack of_nat_unat ucast_id option.map)
qed simp

section \<open>The master keys read back as they were written\<close>

text \<open>The text an operator writes: \<open>version:base64\<close>, joined by commas.\<close>

definition key_entry :: "int \<times> 8 word list \<Rightarrow> string" where
  "key_entry vk = string_of_int (fst vk) @ CHR '':'' # b64_encode (snd vk)"

fun join_on :: "char \<Rightarrow> string list \<Rightarrow> string" where
  "join_on sep [] = []"
| "join_on sep [w] = w"
| "join_on sep (w # ws) = w @ sep # join_on sep ws"

lemma split_on_word: "sep \<notin> set w \<Longrightarrow> split_on sep w = [w]"
  by (induction w) auto

lemma split_on_append: "sep \<notin> set w \<Longrightarrow> split_on sep (w @ sep # s) = w # split_on sep s"
  by (induction w) auto

lemma split_on_join: "ws \<noteq> [] \<Longrightarrow> list_all (\<lambda>w. sep \<notin> set w) ws \<Longrightarrow> split_on sep (join_on sep ws) = ws"
  by (induction sep ws rule: join_on.induct) (auto simp: split_on_word split_on_append)

lemma partition_on_append:
  assumes "sep \<notin> set h"
  shows "partition_on sep (h @ sep # t) = (h, True, t)"
proof -
  have "takeWhile (\<lambda>c. c \<noteq> sep) (h @ sep # t) = h" using assms by (subst takeWhile_append2) auto
  then show ?thesis by (simp add: partition_on_def)
qed

lemma strip_id: "list_all (\<lambda>c. \<not> is_space c) s \<Longrightarrow> strip s = s"
proof -
  have keep: "list_all (\<lambda>c. \<not> is_space c) t \<Longrightarrow> dropWhile is_space t = t" for t by (cases t) auto
  assume s: "list_all (\<lambda>c. \<not> is_space c) s"
  then have "list_all (\<lambda>c. \<not> is_space c) (rev s)" by (simp add: list_all_iff)
  with s show ?thesis by (simp add: strip_def keep)
qed

text \<open>The characters of an entry: none is a space or a comma, and none before the colon is one.\<close>

definition plain_char :: "char \<Rightarrow> bool" where
  "plain_char c \<longleftrightarrow> \<not> is_space c \<and> c \<noteq> CHR '',''"

lemma plain_char_simps [simp]: "plain_char CHR '':''" "plain_char CHR ''=''" "plain_char CHR ''-''"
  by (simp_all add: plain_char_def is_space_def)

lemma plain_digit: "is_digit c \<Longrightarrow> plain_char c \<and> c \<noteq> CHR '':''"
  by (auto simp: plain_char_def is_space_def is_digit_def Let_def)

lemma plain_b64 [simp]: "n < 64 \<Longrightarrow> plain_char (b64_char n)"
proof -
  assume n: "n < 64"
  have "of_char (b64_char n) \<noteq> (44 :: nat)" using n by (simp add: of_char_less_64) arith
  then have "b64_char n \<noteq> CHR '',''" by auto
  moreover have "\<not> is_space (b64_char n)" using n by (simp add: is_space_def of_char_less_64 Let_def) arith
  ultimately show ?thesis by (simp add: plain_char_def)
qed

lemma plain_b64_encode: "list_all plain_char (b64_encode bs)"
  by (induction bs rule: b64_encode.induct)
    (simp_all only: b64_encode.simps append.simps list.pred_inject plain_b64 byte_bounds plain_char_simps simp_thms)

lemma plain_int: "list_all (\<lambda>c. plain_char c \<and> c \<noteq> CHR '':'') (string_of_int n)"
proof -
  have "list_all (\<lambda>c. plain_char c \<and> c \<noteq> CHR '':'') (string_of_nat m)" for m
    using string_of_nat_digits plain_digit by (rule list.pred_mono_strong)
  then show ?thesis by (simp add: string_of_int_def)
qed

lemma plain_key_entry: "list_all plain_char (key_entry vk)"
  using plain_int [of "fst vk"] plain_b64_encode [of "snd vk"] by (auto simp: key_entry_def list_all_iff)

lemma ungroup_digits: "list_all is_digit s \<Longrightarrow> s \<noteq> [] \<or> b \<Longrightarrow> ungroup b s = Some s"
  by (induction s arbitrary: b) auto

lemma python_int_string [simp]: "python_int (string_of_int n) = Some n"
proof -
  have digits: "list_all is_digit (string_of_nat m)" "string_of_nat m \<noteq> []" for m
    by (simp_all add: string_of_nat_digits string_of_nat_nonempty)
  then have head: "take 1 (string_of_nat m) \<noteq> ''-''" "take 1 (string_of_nat m) \<noteq> ''+''" for m
    using digits [of m] by (cases "string_of_nat m"; force simp: is_digit_def)+
  have "strip (string_of_int n) = string_of_int n"
    using plain_int [of n] by (intro strip_id) (auto simp: list_all_iff plain_char_def)
  then show ?thesis
    using digits head by (auto simp: python_int_def string_of_int_def ungroup_digits Let_def)
qed

lemma master_key_entry:
  assumes "length (snd vk) = 32" "fst vk \<notin> fst ` set keys"
  shows "master_key (key_entry vk) keys = Inr (keys @ [vk])"
proof -
  have "strip (key_entry vk) = key_entry vk"
    using plain_key_entry [of vk] by (intro strip_id) (auto simp: list_all_iff plain_char_def)
  moreover have "partition_on CHR '':'' (key_entry vk) = (string_of_int (fst vk), True, b64_encode (snd vk))"
    unfolding key_entry_def using plain_int [of "fst vk"] by (intro partition_on_append) (auto simp: list_all_iff)
  ultimately show ?thesis using assms by (simp add: master_key_def MASTER_KEY_BYTES_def)
qed

lemma master_keys_from_entries:
  "dict_ok (keys @ ks) \<Longrightarrow> list_all (\<lambda>vk. length (snd vk) = 32) ks \<Longrightarrow>
     master_keys_from (map key_entry ks) keys = Inr (keys @ ks)"
  by (induction ks arbitrary: keys) (auto simp: master_key_entry dict_ok_def)

section \<open>What a loaded configuration guarantees\<close>

lemma gives_positive [gives_rules]:
  "0 < d \<Longrightarrow> gives (positive environ name (Some d)) (\<lambda>n. 0 < n)"
  "gives (positive environ name None) (\<lambda>n. 0 < n)"
  by (auto simp: gives_def positive_def Let_def split: if_splits option.splits)

lemma gives_duration [gives_rules]: "0 < n \<Longrightarrow> 0 < unit \<Longrightarrow> gives (duration unit n) (\<lambda>d. 0 < d)"
  by (auto simp: gives_def duration_def)

lemma master_key_Inr:
  "master_key entry keys = Inr keys' \<Longrightarrow> \<exists>v k. keys' = keys @ [(v, k)] \<and> length k = 32 \<and> v \<notin> fst ` set keys"
  by (auto simp: master_key_def MASTER_KEY_BYTES_def split: prod.splits if_splits option.splits)

definition keys_ok :: "(int \<times> 8 word list) list \<Rightarrow> bool" where
  "keys_ok keys \<longleftrightarrow> dict_ok keys \<and> list_all (\<lambda>(v, k). length k = 32) keys"

lemma master_keys_from_ok: "master_keys_from entries keys = Inr keys' \<Longrightarrow> keys_ok keys \<Longrightarrow> keys_ok keys'"
proof (induction entries arbitrary: keys)
  case (Cons entry entries)
  then show ?case
    by (auto simp: result_simps keys_ok_def dict_ok_def dest!: master_key_Inr)
qed simp

lemma master_keys_ok [gives_rules]: "gives (master_keys raw) keys_ok"
  unfolding master_keys_def gives_def using master_keys_from_ok [of _ "[]"] by (auto simp: keys_ok_def)

text \<open>What the scheduler relies on: it looks at some user, and time passes between two runs.\<close>

definition scheduler_ok :: "scheduler_config \<Rightarrow> bool" where
  "scheduler_ok c \<longleftrightarrow> 0 < sc_tick c \<and> 0 < sc_batch c \<and> 0 < sc_workers c \<and> 0 < sc_min_cadence c \<and>
     0 < sc_window c \<and> 0 < sc_alert_streak c \<and> 0 < sc_sessions_retention c"

lemma load_scheduler_ok [gives_rules]: "gives (load_scheduler environ) scheduler_ok"
  unfolding load_scheduler_def Let_def
  by (rule gives_rules gives_rbind gives_if gives_Inr gives_any | assumption | simp add: default_scheduler_config_def whole_seconds_def SECOND_def DAY_def scheduler_ok_def)+

definition config_ok :: "app_config \<Rightarrow> bool" where
  "config_ok c \<longleftrightarrow> keys_ok (cf_credential_keys c) \<and>
     cf_credential_key_version c \<in> fst ` set (cf_credential_keys c) \<and>
     MIN_JWT_SECRET_CHARS \<le> length (cf_jwt_secret c) \<and> 0 < cf_jwt_ttl c \<and> 0 < cf_refresh_ttl c \<and>
     scheduler_ok (cf_scheduler c)"

lemma load_config_gives: "gives (load_config environ) config_ok"
  unfolding load_config_def
  by (rule gives_rules gives_rbind gives_if gives_Inr gives_any | assumption
      | simp add: config_ok_def DEFAULT_JWT_TTL_MINUTES_def DEFAULT_REFRESH_TTL_DAYS_def SECOND_def DAY_def)+

lemma load_config_loads:
  assumes "load_config environ = Inr c"
  shows "keys_ok (cf_credential_keys c)" "cf_credential_key_version c \<in> fst ` set (cf_credential_keys c)"
    "MIN_JWT_SECRET_CHARS \<le> length (cf_jwt_secret c)" "0 < cf_jwt_ttl c" "0 < cf_refresh_ttl c"
    "scheduler_ok (cf_scheduler c)"
  using load_config_gives [of environ] assms by (simp_all add: gives_def config_ok_def)

text \<open>
  The master keys an operator writes are the keys the service reads, every version with
  its own bytes, in the order they were written.
\<close>

theorem master_keys_roundtrip:
  assumes "keys \<noteq> []" "keys_ok keys"
  shows "master_keys (join_on CHR '','' (map key_entry keys)) = Inr keys"
proof -
  have "split_on CHR '','' (join_on CHR '','' (map key_entry keys)) = map key_entry keys"
    using assms(1) plain_key_entry by (intro split_on_join) (auto simp: list_all_iff plain_char_def)
  then show ?thesis
    using assms(2) master_keys_from_entries [of "[]" keys]
    by (simp add: master_keys_def keys_ok_def case_prod_unfold)
qed

definition sample_keys :: "(int \<times> 8 word list) list" where
  "sample_keys = [(1, replicate 32 7), (2, replicate 32 255)]"

lemma sample_keys_ok: "sample_keys \<noteq> []" "keys_ok sample_keys"
  by code_simp+

theorem master_keys_roundtrip_witness:
  "master_keys (join_on CHR '','' (map key_entry sample_keys)) = Inr sample_keys"
  by (rule master_keys_roundtrip [OF sample_keys_ok])

text \<open>
  A configuration that loads is one the rest may rely on. The active master key is one of
  those listed, every key has its 32 bytes under a version of its own, the token secret is
  long enough, and every count and every duration is positive.
\<close>

theorem load_config_sound:
  assumes "load_config environ = Inr c"
  shows "keys_ok (cf_credential_keys c) \<and> cf_credential_key_version c \<in> fst ` set (cf_credential_keys c) \<and>
    MIN_JWT_SECRET_CHARS \<le> length (cf_jwt_secret c) \<and> 0 < cf_jwt_ttl c \<and> 0 < cf_refresh_ttl c \<and>
    scheduler_ok (cf_scheduler c)"
  using load_config_loads [OF assms] by simp

definition sample_environ :: environ where
  "sample_environ = [''JWT_SECRET'' \<mapsto> replicate 32 CHR ''s'',
     ''CREDENTIAL_KEYS'' \<mapsto> join_on CHR '','' (map key_entry sample_keys),
     ''CREDENTIAL_KEY_VERSION'' \<mapsto> ''2'', ''DATABASE_URL'' \<mapsto> ''postgresql://localhost'',
     ''GOOGLE_CLIENT_ID'' \<mapsto> ''id'', ''GOOGLE_CLIENT_SECRET'' \<mapsto> ''secret'',
     ''GOOGLE_REDIRECT_URI'' \<mapsto> ''https://localhost'', ''JWT_TTL_MINUTES'' \<mapsto> '' 1_0 '']"

lemma sample_load:
  "map_option (\<lambda>c. (cf_credential_key_version c, cf_jwt_ttl c)) (case load_config sample_environ of Inl _ \<Rightarrow> None | Inr c \<Rightarrow> Some c)
     = Some (2, 10 * 60 * SECOND)"
  by code_simp

theorem load_config_sound_witness:
  "\<exists>c. load_config sample_environ = Inr c \<and> cf_jwt_ttl c = 10 * 60 * SECOND \<and> scheduler_ok (cf_scheduler c)"
proof -
  obtain c where c: "load_config sample_environ = Inr c" "cf_jwt_ttl c = 10 * 60 * SECOND"
    using sample_load by (auto split: sum.splits)
  then show ?thesis using load_config_sound [OF c(1)] by blast
qed

end
