(* ===== verification/Crypto.thy ===== *)
theory Crypto
  imports Sample_Account Config
begin

text \<open>
  Kraken keys at rest: the cipher (\<open>core/crypto.py\<close>) and the rotation of its master key
  (\<open>core/rotation.py\<close>). AES-GCM is a parameter, a pair of functions of which the theorems
  assume only that what it encrypts it decrypts under the same key, nonce and associated
  data; None is its \<open>InvalidTag\<close>. The random nonces are arguments. The payload is JSON,
  written and read as \<open>json.dumps\<close> and \<open>json.loads\<close> do on characters of one byte; of the texts
  \<open>json.loads\<close> takes, those that are not an object of texts count as malformed.
\<close>

section \<open>The payload\<close>

definition hex_value :: "char \<Rightarrow> nat option" where
  "hex_value c = (let n = of_char c :: nat in
     if 48 \<le> n \<and> n < 58 then Some (n - 48) else if 97 \<le> n \<and> n < 103 then Some (n - 87)
     else if 65 \<le> n \<and> n < 71 then Some (n - 55) else None)"

definition escape_char :: "char \<Rightarrow> string" where
  "escape_char c = (let n = of_char c :: nat in
     if n = 34 then [CHR 0x5C, CHR 0x22] else if n = 92 then [CHR 0x5C, CHR 0x5C]
     else if n = 10 then CHR 0x5C # ''n'' else if n = 13 then CHR 0x5C # ''r''
     else if n = 9 then CHR 0x5C # ''t'' else if n = 12 then CHR 0x5C # ''f''
     else if n = 8 then CHR 0x5C # ''b''
     else if 32 \<le> n \<and> n < 127 then [c]
     else CHR 0x5C # ''u00'' @ [hex_digit (n div 16), hex_digit (n mod 16)])"

definition json_string :: "string \<Rightarrow> string" where
  "json_string s = CHR 0x22 # concat (map escape_char s) @ [CHR 0x22]"

definition payload_text :: "credentials \<Rightarrow> string" where
  "payload_text c = ''{'' @ json_string ''key'' @ '': '' @ json_string (api_key c) @ '', '' @
     json_string ''secret'' @ '': '' @ json_string (api_secret c) @ ''}''"

text \<open>The character a one-letter escape stands for.\<close>

definition unescape :: "char \<Rightarrow> char option" where
  "unescape e = map_of [(CHR 0x22, CHR 0x22), (CHR 0x5C, CHR 0x5C), (CHR ''/'', CHR ''/''), (CHR ''n'', CHR 0x0A),
     (CHR ''r'', CHR 0x0D), (CHR ''t'', CHR 0x09), (CHR ''f'', CHR 0x0C), (CHR ''b'', CHR 0x08)] e"

text \<open>The rest of a text after its opening quote: its characters, and what follows its closing quote.\<close>

fun read_text :: "string \<Rightarrow> (string \<times> string) option" where
  "read_text [] = None"
| "read_text (c # cs) =
     (if c = CHR 0x22 then Some ([], cs)
      else if c \<noteq> CHR 0x5C
      then (if of_char c < (32 :: nat) then None else map_option (\<lambda>(s, r). (c # s, r)) (read_text cs))
      else (case cs of
              [] \<Rightarrow> None
            | e # r \<Rightarrow>
                if e \<noteq> CHR ''u''
                then (case unescape e of None \<Rightarrow> None | Some x \<Rightarrow> map_option (\<lambda>(s, r'). (x # s, r')) (read_text r))
                else (case r of
                        w # x # y # z # r' \<Rightarrow>
                          (case (hex_value w, hex_value x, hex_value y, hex_value z) of
                             (Some 0, Some 0, Some h, Some l) \<Rightarrow>
                               map_option (\<lambda>(s, r''). (char_of (16 * h + l) # s, r'')) (read_text r')
                           | _ \<Rightarrow> None)
                      | _ \<Rightarrow> None)))"

definition json_space :: "char \<Rightarrow> bool" where
  "json_space c \<longleftrightarrow> c \<in> {CHR '' '', CHR 0x09, CHR 0x0A, CHR 0x0D}"

definition skip :: "string \<Rightarrow> string" where
  "skip s = dropWhile json_space s"

text \<open>One \<open>"name": "value"\<close>.\<close>

definition read_member :: "string \<Rightarrow> ((string \<times> string) \<times> string) option" where
  "read_member s =
     (if take 1 (skip s) \<noteq> [CHR 0x22] then None
      else (case read_text (drop 1 (skip s)) of
              None \<Rightarrow> None
            | Some (k, r) \<Rightarrow>
                if take 1 (skip r) \<noteq> '':'' \<or> take 1 (skip (drop 1 (skip r))) \<noteq> [CHR 0x22] then None
                else map_option (\<lambda>(v, r'). ((k, v), skip r')) (read_text (drop 1 (skip (drop 1 (skip r)))))))"

text \<open>The members up to the closing brace; the fuel is the length of the text, which each member shortens.\<close>

fun read_members :: "nat \<Rightarrow> string \<Rightarrow> (string \<times> string) list option" where
  "read_members 0 s = None"
| "read_members (Suc n) s =
     (case read_member s of
        None \<Rightarrow> None
      | Some (kv, r) \<Rightarrow>
          if take 1 r = '','' then map_option (Cons kv) (read_members n (drop 1 r))
          else if take 1 r = ''}'' \<and> skip (drop 1 r) = [] then Some [kv] else None)"

definition read_object :: "string \<Rightarrow> (string \<times> string) list option" where
  "read_object s =
     (let t = skip s
      in if take 1 t \<noteq> ''{'' then None
         else if take 1 (skip (drop 1 t)) = ''}''
         then (if skip (drop 1 (skip (drop 1 t))) = [] then Some [] else None)
         else read_members (length s) (drop 1 t))"

definition read_payload :: "string \<Rightarrow> credentials result" where
  "read_payload text =
     (case read_object text of
        None \<Rightarrow> Inl (ValueError ''malformed JSON'')
      | Some kvs \<Rightarrow>
          rbind (get_item (map_of (rev kvs)) ''key'') (\<lambda>key.
          rbind (get_item (map_of (rev kvs)) ''secret'') (\<lambda>secret.
            Inr \<lparr>api_key = key, api_secret = secret\<rparr>)))"

section \<open>core/crypto.py\<close>

type_synonym bytes = "8 word list"

definition NONCE_BYTES :: nat where "NONCE_BYTES = 12"
definition KEY_BYTES :: nat where "KEY_BYTES = 32"

text \<open>AES-GCM: key, nonce, text and associated data.\<close>

record aead =
  ae_encrypt :: "bytes \<Rightarrow> bytes \<Rightarrow> bytes \<Rightarrow> bytes \<Rightarrow> bytes"
  ae_decrypt :: "bytes \<Rightarrow> bytes \<Rightarrow> bytes \<Rightarrow> bytes \<Rightarrow> bytes option"

definition opens_own :: "aead \<Rightarrow> bool" where
  "opens_own ae \<longleftrightarrow> (\<forall>k n p a. ae_decrypt ae k n (ae_encrypt ae k n p a) a = Some p)"

record cipher =
  ci_keys :: "(int \<times> bytes) list"
  ci_active :: int

definition new_cipher :: "(int \<times> bytes) list \<Rightarrow> int \<Rightarrow> cipher result" where
  "new_cipher keys active =
     (case find (\<lambda>(version, key). length key \<noteq> KEY_BYTES) keys of
        Some (version, key) \<Rightarrow> Inl (ValueError (''master key version '' @ string_of_int version @ '' is not 32 bytes''))
      | None \<Rightarrow>
          if active \<notin> set (map fst keys)
          then Inl (ValueError (''the active version '' @ string_of_int active @ '' has no key''))
          else Inr \<lparr>ci_keys = keys, ci_active = active\<rparr>)"

definition text_bytes :: "string \<Rightarrow> bytes" where
  "text_bytes s = map (\<lambda>c. of_nat (of_char c)) s"

definition bytes_text :: "bytes \<Rightarrow> string" where
  "bytes_text bs = map (\<lambda>b. char_of (unat b)) bs"

definition seal :: "aead \<Rightarrow> cipher \<Rightarrow> bytes \<Rightarrow> uuid \<Rightarrow> credentials \<Rightarrow> sealed result" where
  "seal ae c new_nonce user creds =
     (case map_of (ci_keys c) (ci_active c) of
        None \<Rightarrow> Inl (KeyError (string_of_int (ci_active c)))
      | Some key \<Rightarrow>
          Inr \<lparr>ciphertext = ae_encrypt ae key new_nonce (text_bytes (payload_text creds)) (bytes_of user),
               nonce = new_nonce, key_version = ci_active c\<rparr>)"

definition unseal :: "aead \<Rightarrow> cipher \<Rightarrow> uuid \<Rightarrow> sealed \<Rightarrow> credentials result" where
  "unseal ae c user s =
     (case map_of (ci_keys c) (key_version s) of
        None \<Rightarrow> Inl CredentialsUnreadable
      | Some key \<Rightarrow>
          (case ae_decrypt ae key (nonce s) (ciphertext s) (bytes_of user) of
             None \<Rightarrow> Inl CredentialsUnreadable
           | Some payload \<Rightarrow> read_payload (bytes_text payload)))"

section \<open>core/rotation.py\<close>

datatype outcome = RESEALED | CURRENT | GONE | UNREADABLE

record rotation_report =
  rp_resealed :: "uuid list"
  rp_unreadable :: "uuid list"

definition report_ok :: "rotation_report \<Rightarrow> bool" where
  "report_ok r \<longleftrightarrow> rp_unreadable r = []"

definition reseal :: "aead \<Rightarrow> cipher \<Rightarrow> bytes \<Rightarrow> uuid \<Rightarrow> outcome tx" where
  "reseal ae c new_nonce user =
     bind (get_credentials user) (\<lambda>record. case record of
       None \<Rightarrow> ret GONE
     | Some row \<Rightarrow>
         if key_version (cr_sealed row) = ci_active c then ret CURRENT
         else (case unseal ae c user (cr_sealed row) of
                 Inl exc \<Rightarrow> if exc = CredentialsUnreadable then ret UNREADABLE else throw exc
               | Inr creds \<Rightarrow>
                   bind (lift_result (seal ae c new_nonce user creds)) (\<lambda>s.
                   seq (modify (\<lambda>d. d\<lparr>t_credentials := AList.update user (row\<lparr>cr_sealed := s\<rparr>) (t_credentials d)\<rparr>))
                     (ret RESEALED))))"

definition rotate_one :: "env \<Rightarrow> aead \<Rightarrow> cipher \<Rightarrow> (uuid \<Rightarrow> bytes) \<Rightarrow> uuid \<Rightarrow> rotation_report \<Rightarrow> rotation_report io" where
  "rotate_one e ae c nonces user report =
     bind (transaction e (reseal ae c (nonces user) user)) (\<lambda>result. ret
       (if result = RESEALED then report\<lparr>rp_resealed := rp_resealed report @ [user]\<rparr>
        else if result = UNREADABLE then report\<lparr>rp_unreadable := rp_unreadable report @ [user]\<rparr>
        else report))"

definition rotate_keys :: "env \<Rightarrow> aead \<Rightarrow> cipher \<Rightarrow> (uuid \<Rightarrow> bytes) \<Rightarrow> rotation_report io" where
  "rotate_keys e ae c nonces =
     bind (transaction e (credential_owners_not_at (ci_active c))) (\<lambda>owners.
       for_fold owners \<lparr>rp_resealed = [], rp_unreadable = []\<rparr> (rotate_one e ae c nonces))"

text \<open>\<open>scripts/rotate_master_key.py\<close>: what is left, and the exit status.\<close>

definition rotation_left :: "env \<Rightarrow> cipher \<Rightarrow> nat io" where
  "rotation_left e c = bind (transaction e (credential_owners_not_at (ci_active c))) (\<lambda>left. ret (length left))"

definition rotate_main :: "env \<Rightarrow> aead \<Rightarrow> environ \<Rightarrow> (uuid \<Rightarrow> bytes) \<Rightarrow> string list \<Rightarrow> int io" where
  "rotate_main e ae environ nonces argv =
     bind (lift_result (load_config environ)) (\<lambda>config.
     bind (lift_result (new_cipher (cf_credential_keys config) (cf_credential_key_version config))) (\<lambda>c.
       if argv = [''--check''] then bind (rotation_left e c) (\<lambda>n. ret (if n = 0 then 0 else 1))
       else if argv \<noteq> [] then ret 2
       else bind (rotate_keys e ae c nonces) (\<lambda>report. ret (if report_ok report then 0 else 1))))"


section \<open>A sealed payload reads back\<close>

lemma bytes_text_text [simp]: "bytes_text (text_bytes s) = s"
proof -
  have "char_of (unat (of_nat (of_char c) :: 8 word)) = c" for c
  proof -
    have "(of_char c :: nat) < 256" by (rule nat_of_char_less_256)
    then show ?thesis by (simp add: unat_of_nat)
  qed
  then show ?thesis by (simp add: bytes_text_def text_bytes_def comp_def)
qed

lemma hex_value_digit [simp]: "n < 16 \<Longrightarrow> hex_value (hex_digit n) = Some n"
  by (auto simp: hex_value_def hex_digit_def Let_def)

lemma char_eq_iff: "c = d \<longleftrightarrow> (of_char c :: nat) = of_char d"
  by (metis char_of_char)

lemma read_text_escape: "read_text (escape_char c @ t) = map_option (\<lambda>(s, r). (c # s, r)) (read_text t)"
proof -
  let ?n = "of_char c :: nat"
  have n: "?n < 256" by (rule nat_of_char_less_256)
  consider (named) "?n \<in> {34, 92, 10, 13, 9, 12, 8}" | (plain) "32 \<le> ?n" "?n < 127" "?n \<noteq> 34" "?n \<noteq> 92"
    | (hex) "?n \<notin> {34, 92, 10, 13, 9, 12, 8}" "\<not> (32 \<le> ?n \<and> ?n < 127)" by fastforce
  then show ?thesis
  proof cases
    case named
    then have "c \<in> {CHR 0x22, CHR 0x5C, CHR 0x0A, CHR 0x0D, CHR 0x09, CHR 0x0C, CHR 0x08}"
      by (simp add: char_eq_iff)
    then show ?thesis by (auto simp: escape_char_def unescape_def)
  next
    case plain
    then show ?thesis by (auto simp: escape_char_def char_eq_iff)
  next
    case hex
    then have "escape_char c = CHR 0x5C # ''u00'' @ [hex_digit (?n div 16), hex_digit (?n mod 16)]"
      by (auto simp: escape_char_def Let_def)
    moreover have "?n div 16 < 16" using n by (simp add: less_mult_imp_div_less)
    moreover have "hex_value CHR ''0'' = Some 0" by (simp add: hex_value_def)
    ultimately show ?thesis by simp
  qed
qed

lemma read_text_json [simp]: "read_text (concat (map escape_char s) @ CHR 0x22 # t) = Some (s, t)"
  by (induction s) (simp_all add: read_text_escape)

lemma skip_simps [simp]:
  "skip (CHR '' '' # s) = skip s" "skip (CHR '':'' # s) = CHR '':'' # s" "skip (CHR '','' # s) = CHR '','' # s"
  "skip (CHR 0x22 # s) = CHR 0x22 # s" "skip (CHR ''}'' # s) = CHR ''}'' # s" "skip (CHR ''{'' # s) = CHR ''{'' # s" "skip [] = []"
  by (simp_all add: skip_def json_space_def)

lemma read_member_json:
  "read_member (json_string k @ '': '' @ json_string v @ t) = Some ((k, v), skip t)"
  "read_member (CHR '' '' # json_string k @ '': '' @ json_string v @ t) = Some ((k, v), skip t)"
  by (simp_all add: read_member_def json_string_def)

lemma read_payload_text [simp]: "read_payload (payload_text c) = Inr c"
proof -
  let ?m = "json_string ''key'' @ '': '' @ json_string (api_key c) @ '', '' @
     json_string ''secret'' @ '': '' @ json_string (api_secret c) @ ''}''"
  have eq: "payload_text c = CHR ''{'' # ?m" by (simp add: payload_text_def)
  obtain n where n: "length (payload_text c) = Suc (Suc n)"
    by (metis eq json_string_def length_Cons append_Cons)
  have "read_members (Suc (Suc n)) ?m = Some [(''key'', api_key c), (''secret'', api_secret c)]"
    using read_member_json(1) [of "''key''" "api_key c" "'', '' @ json_string ''secret'' @ '': '' @ json_string (api_secret c) @ ''}''"]
      read_member_json(2) [of "''secret''" "api_secret c" "''}''"] by simp
  moreover have "take (Suc 0) (skip ?m) = [CHR 0x22]" by (simp add: json_string_def)
  ultimately have "read_object (payload_text c) = Some [(''key'', api_key c), (''secret'', api_secret c)]"
    unfolding read_object_def n by (simp add: eq Let_def del: read_members.simps)
  then show ?thesis by (simp add: read_payload_def)
qed


section \<open>What was sealed opens\<close>

lemma unseal_seal:
  assumes "opens_own ae" "seal ae c n user creds = Inr s"
  shows "unseal ae c user s = Inr creds"
  using assms by (auto simp: seal_def unseal_def opens_own_def split: option.splits)

lemma seal_version: "seal ae c n user creds = Inr s \<Longrightarrow> key_version s = ci_active c"
  by (auto simp: seal_def split: option.splits)

lemma new_cipher_Inr: "new_cipher keys active = Inr c \<Longrightarrow> c = \<lparr>ci_keys = keys, ci_active = active\<rparr> \<and> active \<in> fst ` set keys"
  by (auto simp: new_cipher_def split: option.splits if_splits intro: rev_image_eqI)

lemma seal_total:
  assumes "new_cipher keys active = Inr c"
  shows "\<exists>s. seal ae c n user creds = Inr s"
proof -
  obtain key where "map_of (ci_keys c) (ci_active c) = Some key"
    using new_cipher_Inr [OF assms] map_of_in_keys by fastforce
  then show ?thesis by (simp add: seal_def)
qed

text \<open>A loaded configuration always makes a cipher.\<close>

lemma new_cipher_of_config:
  assumes "load_config environ = Inr config"
  shows "new_cipher (cf_credential_keys config) (cf_credential_key_version config) =
    Inr \<lparr>ci_keys = cf_credential_keys config, ci_active = cf_credential_key_version config\<rparr>"
proof -
  note ok = load_config_loads [OF assms]
  then have "find (\<lambda>(version, key). length key \<noteq> KEY_BYTES) (cf_credential_keys config) = None"
    by (auto simp: find_None_iff keys_ok_def list_all_iff KEY_BYTES_def)
  then show ?thesis using ok by (simp add: new_cipher_def)
qed

section \<open>A rotation, row by row\<close>

text \<open>What becomes of a row.\<close>

definition resealed :: "aead \<Rightarrow> cipher \<Rightarrow> (uuid \<Rightarrow> bytes) \<Rightarrow> uuid \<Rightarrow> credentials_row \<Rightarrow> credentials_row" where
  "resealed ae c nonces user row =
     (if key_version (cr_sealed row) = ci_active c then row
      else (case unseal ae c user (cr_sealed row) of
              Inl _ \<Rightarrow> row
            | Inr creds \<Rightarrow> (case seal ae c (nonces user) user creds of Inl _ \<Rightarrow> row | Inr s \<Rightarrow> row\<lparr>cr_sealed := s\<rparr>)))"

lemma resealed_twice [simp]: "resealed ae c nonces user (resealed ae c nonces user row) = resealed ae c nonces user row"
  by (auto simp: resealed_def dest: seal_version split: sum.splits)

lemma resealed_fields [simp]: "cr_validated_at (resealed ae c nonces user row) = cr_validated_at row"
  by (simp add: resealed_def split: sum.splits)

lemma unseal_resealed:
  "opens_own ae \<Longrightarrow> unseal ae c user (cr_sealed (resealed ae c nonces user row)) = unseal ae c user (cr_sealed row)"
  by (auto simp: resealed_def unseal_seal split: sum.splits)

text \<open>
  A record under a key the cipher does not hold, or altered, does not open; any other reads as
  a key, as everything the platform sealed does.
\<close>

definition opens :: "aead \<Rightarrow> cipher \<Rightarrow> uuid \<times> credentials_row \<Rightarrow> bool" where
  "opens ae c = (\<lambda>(user, row). case unseal ae c user (cr_sealed row) of Inl _ \<Rightarrow> False | Inr _ \<Rightarrow> True)"

definition well_formed :: "aead \<Rightarrow> cipher \<Rightarrow> uuid \<times> credentials_row \<Rightarrow> bool" where
  "well_formed ae c = (\<lambda>(user, row). opens ae c (user, row) \<or>
     unseal ae c user (cr_sealed row) = Inl CredentialsUnreadable)"

text \<open>What a rotation leaves behind: under another version, and closed.\<close>

definition stuck :: "aead \<Rightarrow> cipher \<Rightarrow> (uuid \<rightharpoonup> credentials_row) \<Rightarrow> uuid \<Rightarrow> bool" where
  "stuck ae c T user = (case T user of None \<Rightarrow> False
     | Some row \<Rightarrow> key_version (cr_sealed row) \<noteq> ci_active c \<and> \<not> opens ae c (user, row))"

definition turned :: "aead \<Rightarrow> cipher \<Rightarrow> (uuid \<Rightarrow> bytes) \<Rightarrow> uuid \<Rightarrow> (uuid \<rightharpoonup> credentials_row) \<Rightarrow> (uuid \<rightharpoonup> credentials_row)" where
  "turned ae c nonces user T = T(user := map_option (resealed ae c nonces user) (T user))"

abbreviation keys_of :: "world \<Rightarrow> uuid \<rightharpoonup> credentials_row" where
  "keys_of w \<equiv> map_of (t_credentials (w_db w))"

lemma resealed_stuck: "\<not> opens ae c (user, row) \<Longrightarrow> resealed ae c nonces user row = row"
  by (simp add: opens_def resealed_def split: sum.splits)

lemma resealed_version:
  assumes "new_cipher keys active = Inr c" "opens ae c (user, row)"
  shows "key_version (cr_sealed (resealed ae c nonces user row)) = ci_active c"
proof -
  obtain creds where "unseal ae c user (cr_sealed row) = Inr creds"
    using assms(2) by (auto simp: opens_def split: sum.splits)
  moreover obtain s where "seal ae c (nonces user) user creds = Inr s" using seal_total [OF assms(1)] by blast
  ultimately show ?thesis by (simp add: resealed_def seal_version)
qed

lemma rotate_one_run:
  assumes c: "new_cipher keys active = Inr c"
    and ok: "\<And>row. keys_of w user = Some row \<Longrightarrow> well_formed ae c (user, row)"
  shows "\<exists>w'. rotate_one e ae c nonces user report w =
      (Inr (if stuck ae c (keys_of w) user then report\<lparr>rp_unreadable := rp_unreadable report @ [user]\<rparr>
            else if (case keys_of w user of None \<Rightarrow> True | Some row \<Rightarrow> key_version (cr_sealed row) = ci_active c) then report
            else report\<lparr>rp_resealed := rp_resealed report @ [user]\<rparr>), w') \<and>
      keys_of w' = turned ae c nonces user (keys_of w)"
proof (cases "keys_of w user")
  case None
  then show ?thesis
    by (simp add: rotate_one_def transaction_def session_scope_def reseal_def get_credentials_def act_defs stuck_def turned_def fun_upd_idem)
next
  case (Some row)
  show ?thesis
  proof (cases "key_version (cr_sealed row) = ci_active c")
    case True
    then have "resealed ae c nonces user row = row" by (simp add: resealed_def)
    then show ?thesis using Some True
      by (simp add: rotate_one_def transaction_def session_scope_def reseal_def get_credentials_def act_defs stuck_def turned_def fun_upd_idem)
  next
    case False
    note run = Some False rotate_one_def transaction_def session_scope_def reseal_def get_credentials_def act_defs
      stuck_def turned_def opens_def resealed_def
    from ok [OF Some] consider "unseal ae c user (cr_sealed row) = Inl CredentialsUnreadable"
      | creds where "unseal ae c user (cr_sealed row) = Inr creds"
      by (auto simp: well_formed_def opens_def split: sum.splits)
    then show ?thesis
    proof cases
      case 1
      then show ?thesis by (simp add: run fun_upd_idem)
    next
      case 2
      moreover obtain s where "seal ae c (nonces user) user creds = Inr s" using seal_total [OF c] by blast
      ultimately show ?thesis by (simp add: run update_conv' fun_eq_iff)
    qed
  qed
qed


lemma stuck_turned [simp]:
  assumes "opens_own ae"
  shows "stuck ae c (turned ae c nonces v T) u = stuck ae c T u"
proof (cases "T u")
  case (Some row)
  have "opens ae c (u, resealed ae c nonces u row) = opens ae c (u, row)"
    using assms by (simp add: opens_def unseal_resealed)
  then show ?thesis
    using Some resealed_stuck [of ae c u row nonces]
    by (cases "u = v"; cases "opens ae c (u, row)") (simp_all add: stuck_def turned_def)
qed (cases "u = v"; simp add: stuck_def turned_def)

lemma fold_turned:
  "fold (turned ae c nonces) users T u = (if u \<in> set users then map_option (resealed ae c nonces u) (T u) else T u)"
  by (induction users arbitrary: T) (auto simp: turned_def option.map_comp comp_def)

lemma rotate_each_run:
  assumes c: "new_cipher keys active = Inr c" and ae: "opens_own ae"
    and "\<And>u row. u \<in> set users \<Longrightarrow> keys_of w u = Some row \<Longrightarrow> well_formed ae c (u, row)"
  shows "\<exists>report' w'. for_fold users report (rotate_one e ae c nonces) w = (Inr report', w') \<and>
    keys_of w' = fold (turned ae c nonces) users (keys_of w) \<and>
    set (rp_unreadable report') = set (rp_unreadable report) \<union> {u \<in> set users. stuck ae c (keys_of w) u}"
  using assms(3)
proof (induction users arbitrary: report w)
  case Nil
  then show ?case by (simp add: ret_def)
next
  case (Cons user users)
  let ?report = "if stuck ae c (keys_of w) user then report\<lparr>rp_unreadable := rp_unreadable report @ [user]\<rparr>
    else if (case keys_of w user of None \<Rightarrow> True | Some row \<Rightarrow> key_version (cr_sealed row) = ci_active c) then report
    else report\<lparr>rp_resealed := rp_resealed report @ [user]\<rparr>"
  obtain w1 where one: "rotate_one e ae c nonces user report w = (Inr ?report, w1)"
    "keys_of w1 = turned ae c nonces user (keys_of w)"
    using rotate_one_run [OF c, where w = w and user = user and e = e and ae = ae and nonces = nonces and report = report]
      Cons.prems by auto
  have left: "set (rp_unreadable ?report) = set (rp_unreadable report) \<union> {u \<in> {user}. stuck ae c (keys_of w) u}"
    by auto
  have "well_formed ae c (u, row)" if u: "u \<in> set users" and T1: "keys_of w1 u = Some row" for u row
  proof -
    obtain row0 where row0: "keys_of w u = Some row0" "row = row0 \<or> row = resealed ae c nonces u row0"
      using T1 one(2) by (auto simp: turned_def split: if_splits)
    then have "well_formed ae c (u, row0)" using Cons.prems u by simp
    then show ?thesis using row0(2) by (auto simp: well_formed_def opens_def unseal_resealed [OF ae])
  qed
  from Cons.IH [OF this] obtain report2 w2 where
    "for_fold users ?report (rotate_one e ae c nonces) w1 = (Inr report2, w2)"
    "keys_of w2 = fold (turned ae c nonces) users (keys_of w1)"
    "set (rp_unreadable report2) = set (rp_unreadable ?report) \<union> {u \<in> set users. stuck ae c (keys_of w1) u}"
    by blast
  then show ?case
    unfolding left using one ae by (intro exI [of _ report2] exI [of _ w2]) (auto simp: bind_def)
qed

lemma owners_run:
  "transaction e (credential_owners_not_at version) w = (r, w') \<Longrightarrow>
     r = Inr (sort (map fst (filter (\<lambda>(user, row). key_version (cr_sealed row) \<noteq> version) (t_credentials (w_db w))))) \<and>
     t_credentials (w_db w') = t_credentials (w_db w)"
  by (auto simp: transaction_def session_scope_def credential_owners_not_at_def gets_def)

text \<open>A row after a rotation: the same key, under the active version unless it was left closed.\<close>

definition rotated_row :: "aead \<Rightarrow> cipher \<Rightarrow> bool \<Rightarrow> uuid \<Rightarrow> credentials_row \<Rightarrow> credentials_row \<Rightarrow> bool" where
  "rotated_row ae c left user row row' \<longleftrightarrow>
     unseal ae c user (cr_sealed row') = unseal ae c user (cr_sealed row) \<and>
     cr_validated_at row' = cr_validated_at row \<and>
     (if left then row' = row \<and> \<not> opens ae c (user, row) else key_version (cr_sealed row') = ci_active c)"

text \<open>
  C16: rotating the master key loses no key. It always finishes; every stored record still
  opens as the very key it held, with the time it was validated, and is now under the active
  version, except those that did not open before, which are the ones it reports and which it
  left exactly as they were.
\<close>

theorem rotation_keeps_keys:
  assumes "opens_own ae" "new_cipher keys active = Inr c"
    and "dict_ok (t_credentials (w_db w))" "list_all (well_formed ae c) (t_credentials (w_db w))"
  shows "\<exists>report w'. rotate_keys e ae c nonces w = (Inr report, w') \<and>
    (\<forall>user row. keys_of w user = Some row \<longrightarrow> (\<exists>row'. keys_of w' user = Some row' \<and>
       rotated_row ae c (user \<in> set (rp_unreadable report)) user row row'))"
proof -
  let ?owners = "sort (map fst (filter (\<lambda>(user, row). key_version (cr_sealed row) \<noteq> ci_active c) (t_credentials (w_db w))))"
  obtain w0 where w0: "transaction e (credential_owners_not_at (ci_active c)) w = (Inr ?owners, w0)"
    "keys_of w0 = keys_of w"
    using owners_run [of e "ci_active c" w] by (metis prod.exhaust)
  have "well_formed ae c (u, row)" if "keys_of w0 u = Some row" for u row
    using that assms(4) w0(2) by (auto simp: list_all_iff dest: map_of_SomeD)
  then obtain report w' where run: "rotate_keys e ae c nonces w = (Inr report, w')"
    and T: "keys_of w' = fold (turned ae c nonces) ?owners (keys_of w)"
    and left: "set (rp_unreadable report) = {u \<in> set ?owners. stuck ae c (keys_of w) u}"
    using rotate_each_run [OF assms(2,1), where users = ?owners and w = w0 and e = e and nonces = nonces
      and report = "\<lparr>rp_resealed = [], rp_unreadable = []\<rparr>"] w0
    by (auto simp: rotate_keys_def bind_def)
  have owner: "user \<in> set ?owners \<longleftrightarrow> key_version (cr_sealed row) \<noteq> ci_active c" if "keys_of w user = Some row" for user row
    using that assms(3) by (auto simp: dict_ok_map_of dest: dict_ok_unique intro: rev_image_eqI)
  show ?thesis
  proof (intro exI [of _ report] exI [of _ w'] conjI run allI impI)
    fix user row assume row: "keys_of w user = Some row"
    let ?row = "if user \<in> set ?owners then resealed ae c nonces user row else row"
    show "\<exists>row'. keys_of w' user = Some row' \<and> rotated_row ae c (user \<in> set (rp_unreadable report)) user row row'"
      by (rule exI [of _ ?row])
        (use row owner [OF row] T left assms(1,2) in
          \<open>auto simp: rotated_row_def fold_turned unseal_resealed stuck_def resealed_stuck resealed_version\<close>)
  qed
qed


text \<open>A cipher that writes the key and the associated data before the text, and a key under an old version.\<close>

definition sample_aead :: aead where
  "sample_aead = \<lparr>ae_encrypt = (\<lambda>k n p a. k @ a @ p),
     ae_decrypt = (\<lambda>k n c a. if take (length (k @ a)) c = k @ a then Some (drop (length (k @ a)) c) else None)\<rparr>"

lemma sample_aead_opens: "opens_own sample_aead"
  by (simp add: opens_own_def sample_aead_def)

definition sample_cipher :: cipher where
  "sample_cipher = \<lparr>ci_keys = sample_keys, ci_active = 2\<rparr>"

lemma sample_new_cipher: "new_cipher sample_keys 2 = Inr sample_cipher"
  by (simp add: new_cipher_def sample_cipher_def sample_keys_def KEY_BYTES_def)

lemma sample_active: "ci_active sample_cipher = 2"
  by (simp add: sample_cipher_def)

definition sample_creds :: credentials where
  "sample_creds = \<lparr>api_key = ''key'', api_secret = ''c2Vj''\<rparr>"

definition sample_row :: credentials_row where
  "sample_row = \<lparr>cr_sealed = \<lparr>ciphertext = replicate 32 7 @ bytes_of 7 @ text_bytes (payload_text sample_creds),
     nonce = replicate 12 1, key_version = 1\<rparr>, cr_validated_at = 5\<rparr>"

lemma sample_row_unseal: "unseal sample_aead sample_cipher 7 (cr_sealed sample_row) = Inr sample_creds"
  by (simp add: unseal_def sample_cipher_def sample_keys_def sample_row_def sample_aead_def)

definition sample_vault :: world where
  "sample_vault = sample_world\<lparr>w_db := sample_db\<lparr>t_credentials := [(7, sample_row)]\<rparr>\<rparr>"

theorem rotation_keeps_keys_witness:
  "\<exists>report w' row. rotate_keys sample_env sample_aead sample_cipher (\<lambda>_. replicate 12 9) sample_vault = (Inr report, w') \<and>
     keys_of w' 7 = Some row \<and> unseal sample_aead sample_cipher 7 (cr_sealed row) = Inr sample_creds \<and>
     key_version (cr_sealed row) = 2"
proof -
  have rows: "t_credentials (w_db sample_vault) = [(7, sample_row)]" by (simp add: sample_vault_def)
  have open_row: "opens sample_aead sample_cipher (7, sample_row)" by (simp add: opens_def sample_row_unseal)
  have ok: "dict_ok (t_credentials (w_db sample_vault))"
    "list_all (well_formed sample_aead sample_cipher) (t_credentials (w_db sample_vault))"
    by (simp_all add: rows well_formed_def open_row)
  from rotation_keeps_keys [OF sample_aead_opens sample_new_cipher ok, of sample_env "\<lambda>_. replicate 12 9"]
  obtain report w' where run: "rotate_keys sample_env sample_aead sample_cipher (\<lambda>_. replicate 12 9) sample_vault = (Inr report, w')"
    and kept: "\<And>user row. keys_of sample_vault user = Some row \<Longrightarrow> \<exists>row'. keys_of w' user = Some row' \<and>
       rotated_row sample_aead sample_cipher (user \<in> set (rp_unreadable report)) user row row'"
    by blast
  moreover obtain row where "keys_of w' 7 = Some row"
      "rotated_row sample_aead sample_cipher (7 \<in> set (rp_unreadable report)) 7 sample_row row"
    using kept [of 7 sample_row] by (auto simp: rows)
  ultimately show ?thesis
    using open_row by (auto simp: rotated_row_def sample_row_unseal sample_active split: if_splits)
qed

text \<open>
  A key that was sealed opens again, for the user it was sealed for, with any cipher that
  still holds the version it was sealed under: the key and the secret come back unchanged,
  whatever characters they hold.
\<close>

theorem seal_roundtrip:
  assumes "opens_own ae" "seal ae c new_nonce user creds = Inr s"
    and "map_of (ci_keys c') (ci_active c) = map_of (ci_keys c) (ci_active c)"
  shows "unseal ae c' user s = Inr creds"
  using assms by (auto simp: seal_def unseal_def opens_own_def split: option.splits)

theorem seal_roundtrip_witness:
  "\<exists>s. seal sample_aead sample_cipher (replicate 12 3) 7 \<lparr>api_key = [CHR 0x22, CHR 0x0A], api_secret = [CHR 0xE9]\<rparr> = Inr s \<and>
     unseal sample_aead (sample_cipher\<lparr>ci_active := 1\<rparr>) 7 s = Inr \<lparr>api_key = [CHR 0x22, CHR 0x0A], api_secret = [CHR 0xE9]\<rparr>"
proof -
  obtain s where s: "seal sample_aead sample_cipher (replicate 12 3) 7 \<lparr>api_key = [CHR 0x22, CHR 0x0A], api_secret = [CHR 0xE9]\<rparr> = Inr s"
    using seal_total [OF sample_new_cipher] by blast
  show ?thesis
    using s seal_roundtrip [OF sample_aead_opens s, of "sample_cipher\<lparr>ci_active := 1\<rparr>"] by simp
qed

end
