(* ===== verification/Url.thy ===== *)
theory Url
  imports Crypto
begin

text \<open>
  \<open>urllib.parse\<close>, as far as the code uses it: \<open>quote\<close> for the reason of a refused login, and
  \<open>urlencode\<close> for the body of every signed call and the query of the login at Google. A text
  holds code points up to 255 and is written in UTF-8. What reads a form back is the receiver's;
  it is here to state that nothing in a value can be read as another field.
\<close>

section \<open>UTF-8\<close>

definition utf8_char :: "char \<Rightarrow> bytes" where
  "utf8_char c = (let n = of_char c :: nat in
     if n < 128 then [of_nat n] else [of_nat (192 + n div 64), of_nat (128 + n mod 64)])"

definition utf8 :: "string \<Rightarrow> bytes" where
  "utf8 s = concat (map utf8_char s)"

text \<open>The reverse, for the same code points.\<close>

fun of_utf8 :: "bytes \<Rightarrow> string option" where
  "of_utf8 [] = Some []"
| "of_utf8 [b] = (if unat b < 128 then Some [char_of (unat b)] else None)"
| "of_utf8 (b # c # bs) =
     (if unat b < 128 then map_option (Cons (char_of (unat b))) (of_utf8 (c # bs))
      else map_option (Cons (char_of ((unat b - 192) * 64 + (unat c - 128)))) (of_utf8 bs))"

section \<open>quote, quote_plus and urlencode\<close>

definition hex_upper :: "nat \<Rightarrow> char" where
  "hex_upper n = char_of (if n < 10 then 48 + n else 55 + n)"

definition percent :: "8 word \<Rightarrow> string" where
  "percent b = [CHR ''%'', hex_upper (unat b div 16), hex_upper (unat b mod 16)]"

definition unreserved :: "char \<Rightarrow> bool" where
  "unreserved c \<longleftrightarrow> (let n = of_char c :: nat in
     48 \<le> n \<and> n < 58 \<or> 65 \<le> n \<and> n < 91 \<or> 97 \<le> n \<and> n < 123 \<or> c \<in> set ''_.-~'')"

definition quote :: "string \<Rightarrow> string \<Rightarrow> string" where
  "quote safe s = concat (map (\<lambda>c. if unreserved c \<or> c \<in> set safe then [c] else concat (map percent (utf8_char c))) s)"

definition quote_plus :: "string \<Rightarrow> string" where
  "quote_plus s = map (\<lambda>c. if c = CHR '' '' then CHR ''+'' else c) (quote '' '' s)"

definition urlencode :: "(string \<times> string) list \<Rightarrow> string" where
  "urlencode kvs = join_on CHR ''&'' (map (\<lambda>(k, v). quote_plus k @ ''='' @ quote_plus v) kvs)"

section \<open>What a receiver reads\<close>

fun unquote_bytes :: "string \<Rightarrow> bytes option" where
  "unquote_bytes [] = Some []"
| "unquote_bytes (c # cs) =
     (if c = CHR ''%'' then
        (case cs of
           h # l # rest \<Rightarrow>
             (case (hex_value h, hex_value l) of
                (Some x, Some y) \<Rightarrow> map_option (Cons (of_nat (16 * x + y))) (unquote_bytes rest)
              | _ \<Rightarrow> None)
         | _ \<Rightarrow> None)
      else map_option (Cons (of_nat (of_char (if c = CHR ''+'' then CHR '' '' else c)))) (unquote_bytes cs))"

definition unquote_plus :: "string \<Rightarrow> string option" where
  "unquote_plus s = Option.bind (unquote_bytes s) of_utf8"

definition read_field :: "string \<Rightarrow> (string \<times> string) option" where
  "read_field w = (case partition_on CHR ''='' w of (k, found, v) \<Rightarrow>
     if \<not> found then None
     else (case (unquote_plus k, unquote_plus v) of (Some k', Some v') \<Rightarrow> Some (k', v') | _ \<Rightarrow> None))"

definition read_form :: "string \<Rightarrow> (string \<times> string) list option" where
  "read_form s = (if s = [] then Some [] else those (map read_field (split_on CHR ''&'' s)))"

section \<open>What was written reads back\<close>

lemma of_char_bound [simp]: "(of_char (c :: char) :: nat) < 256"
  by (metis of_char_of of_char_mod_256 mod_less_divisor zero_less_numeral)

lemma of_utf8_utf8: "of_utf8 (utf8 s) = Some s"
proof (induction s)
  case (Cons c s)
  show ?case
  proof (cases "(of_char c :: nat) < 128")
    case True
    then have "utf8 (c # s) = of_nat (of_char c) # utf8 s" by (simp add: utf8_def utf8_char_def)
    moreover have "unat (of_nat (of_char c) :: 8 word) = of_char c" by (simp add: unat_of_nat)
    ultimately show ?thesis using Cons True by (cases "utf8 s") auto
  next
    case False
    let ?n = "of_char c :: nat"
    have c: "?n < 256" "?n div 64 < 4" "?n mod 64 < 64"
      using of_char_bound [of c] by (simp_all add: less_mult_imp_div_less)
    then have "unat (of_nat (192 + ?n div 64) :: 8 word) = 192 + ?n div 64" "unat (of_nat (128 + ?n mod 64) :: 8 word) = 128 + ?n mod 64"
      by (simp_all only: unat_of_nat) simp_all
    moreover have "char_of (?n div 64 * 64 + ?n mod 64) = c" by (simp add: mod_mult_div_eq)
    ultimately show ?thesis using False Cons by (simp add: utf8_def utf8_char_def Let_def)
  qed
qed (simp add: utf8_def)

lemma hex_value_upper: "n < 16 \<Longrightarrow> hex_value (hex_upper n) = Some n"
  by (simp add: hex_value_def hex_upper_def)

lemma unquote_percent: "unquote_bytes (percent b @ s) = map_option (Cons b) (unquote_bytes s)"
proof -
  have "unat b < 256" by simp
  then have "hex_value (hex_upper (unat b div 16)) = Some (unat b div 16)" "hex_value (hex_upper (unat b mod 16)) = Some (unat b mod 16)"
    by (simp_all add: hex_value_upper less_mult_imp_div_less)
  then show ?thesis by (simp add: percent_def)
qed

text \<open>What \<open>quote_plus\<close> writes for one character.\<close>

definition quoted :: "char \<Rightarrow> string" where
  "quoted c = (if c = CHR '' '' then ''+'' else if unreserved c then [c] else concat (map percent (utf8_char c)))"

lemma hex_upper_unreserved: "n < 16 \<Longrightarrow> unreserved (hex_upper n)"
  by (simp add: unreserved_def hex_upper_def)

lemma percent_chars: "c \<in> set (percent b) \<Longrightarrow> c = CHR ''%'' \<or> unreserved c"
proof -
  have "unat b < 256" by simp
  then show "c \<in> set (percent b) \<Longrightarrow> c = CHR ''%'' \<or> unreserved c"
    by (auto simp: percent_def hex_upper_unreserved less_mult_imp_div_less)
qed

lemma quoted_chars: "x \<in> set (quoted c) \<Longrightarrow> x \<in> {CHR ''%'', CHR ''+''} \<or> unreserved x"
  using percent_chars by (auto simp: quoted_def split: if_splits)

lemma reserved [simp]: "\<not> unreserved CHR '' ''" "\<not> unreserved CHR ''%''" "\<not> unreserved CHR ''+''" "\<not> unreserved CHR ''&''"
    "\<not> unreserved CHR ''=''"
  by (simp_all add: unreserved_def)

lemma quote_plus_quoted: "quote_plus s = concat (map quoted s)"
proof -
  have "map (\<lambda>c. if c = CHR '' '' then CHR ''+'' else c) s = s" if "\<And>c. c \<in> set s \<Longrightarrow> c = CHR ''%'' \<or> unreserved c" for s
    using that [of "CHR '' ''"] by (intro map_idI) auto
  then show ?thesis
    using percent_chars by (auto simp: quote_plus_def quote_def map_concat quoted_def intro!: arg_cong [where f = concat])
qed

lemma unquote_quoted: "unquote_bytes (quoted c @ s) = map_option (\<lambda>bs. utf8_char c @ bs) (unquote_bytes s)"
proof -
  have percents: "unquote_bytes (concat (map percent bs) @ s) = map_option (\<lambda>r. bs @ r) (unquote_bytes s)" for bs
    by (induction bs) (auto simp: unquote_percent option.map_comp comp_def option.map_ident)
  show ?thesis
  proof (cases "unreserved c")
    case True
    then have "(of_char c :: nat) < 128" "c \<noteq> CHR ''%''" "c \<noteq> CHR ''+''" "c \<noteq> CHR '' ''"
      by (auto simp: unreserved_def Let_def)
    with True show ?thesis by (simp add: quoted_def utf8_char_def)
  next
    case False
    then show ?thesis using percents by (auto simp: quoted_def utf8_char_def)
  qed
qed

lemma unquote_plus_quote_plus [simp]: "unquote_plus (quote_plus s) = Some s"
proof -
  have "unquote_bytes (concat (map quoted s)) = Some (utf8 s)"
    by (induction s) (simp_all add: unquote_quoted utf8_def)
  then show ?thesis by (simp add: unquote_plus_def quote_plus_quoted of_utf8_utf8)
qed

lemma quote_plus_plain: "CHR ''&'' \<notin> set (quote_plus s)" "CHR ''='' \<notin> set (quote_plus s)"
  using quoted_chars by (fastforce simp: quote_plus_quoted)+

lemma read_field_written: "read_field (quote_plus k @ CHR ''='' # quote_plus v) = Some (k, v)"
  by (simp add: read_field_def partition_on_append quote_plus_plain)

lemma read_urlencode [simp]: "read_form (urlencode kvs) = Some kvs"
proof (cases kvs)
  case (Cons kv kvs')
  let ?w = "\<lambda>(k, v). quote_plus k @ ''='' @ quote_plus v"
  have "split_on CHR ''&'' (urlencode kvs) = map ?w kvs"
    unfolding urlencode_def using Cons by (intro split_on_join) (auto simp: list_all_iff quote_plus_plain)
  moreover have "urlencode kvs \<noteq> []" using Cons by (cases kvs') (auto simp: urlencode_def split: prod.splits)
  moreover have "those (map (read_field \<circ> ?w) kvs) = Some kvs"
    by (induction kvs) (auto simp: read_field_written)
  ultimately show ?thesis by (simp add: read_form_def)
qed (simp add: urlencode_def read_form_def)

end
