(* ===== verification/Tokens.thy ===== *)
theory Tokens
  imports Crypto
begin

text \<open>
  Access tokens and the state that carries a login across Google's redirect
  (\<open>core/tokens.py\<close>). The JWT library is a parameter: it encodes claims under a secret, and
  decodes a token it can verify, with the algorithm, the audience, the issuer and the claims
  it is told to require. The clock is an argument.
\<close>

section \<open>The text of an identifier\<close>

text \<open>\<open>str(user_id)\<close>.\<close>

definition uuid_text :: "uuid \<Rightarrow> string" where
  "uuid_text u = (let h = hex u in take 8 h @ ''-'' @ take 4 (drop 8 h) @ ''-'' @ take 4 (drop 12 h) @ ''-'' @
     take 4 (drop 16 h) @ ''-'' @ drop 20 h)"

fun hex_digits :: "bool \<Rightarrow> string \<Rightarrow> nat list option" where
  "hex_digits after_digit [] = (if after_digit then Some [] else None)"
| "hex_digits after_digit (c # cs) =
     (case hex_value c of
        Some d \<Rightarrow> map_option (Cons d) (hex_digits True cs)
      | None \<Rightarrow> if c = CHR ''_'' \<and> after_digit then hex_digits False cs else None)"

definition of_hex_digits :: "nat list \<Rightarrow> nat" where
  "of_hex_digits ds = foldl (\<lambda>n d. 16 * n + d) 0 ds"

text \<open>\<open>int(text, 16)\<close>, with its sign, its prefix and its underscores.\<close>

definition python_int16 :: "string \<Rightarrow> int option" where
  "python_int16 text =
     (let t = strip text;
          neg = take 1 t = ''-'';
          u = (if neg \<or> take 1 t = ''+'' then drop 1 t else t);
          prefixed = take 2 u = ''0x'' \<or> take 2 u = ''0X'';
          digits = (if prefixed then (if take 1 (drop 2 u) = ''_'' then drop 3 u else drop 2 u) else u)
      in map_option (\<lambda>ds. (if neg then -1 else 1) * int (of_hex_digits ds)) (hex_digits False digits))"

text \<open>\<open>text.replace(part, '')\<close> and \<open>text.strip('{}')\<close>.\<close>

function without :: "string \<Rightarrow> string \<Rightarrow> string" where
  "without part s =
     (if s = [] then [] else if part \<noteq> [] \<and> take (length part) s = part then without part (drop (length part) s)
      else hd s # without part (tl s))"
  by pat_completeness auto
termination by (relation "measure (length \<circ> snd)") (auto simp: length_greater_0_conv)

declare without.simps [simp del]

definition unbraced :: "string \<Rightarrow> string" where
  "unbraced s = (let brace = (\<lambda>c. c = CHR ''{'' \<or> c = CHR ''}'')
     in rev (dropWhile brace (rev (dropWhile brace s))))"

text \<open>\<open>uuid.UUID(text)\<close>; None is its \<open>ValueError\<close>.\<close>

definition uuid_of_text :: "string \<Rightarrow> uuid option" where
  "uuid_of_text text =
     (let h = without ''-'' (unbraced (without ''uuid:'' (without ''urn:'' text)))
      in if length h \<noteq> 32 then None
         else (case python_int16 h of
                 None \<Rightarrow> None
               | Some n \<Rightarrow> if 0 \<le> n \<and> n < 2 ^ 128 then Some (word_of_int n) else None))"

section \<open>core/tokens.py\<close>

definition ALGORITHM :: string where "ALGORITHM = ''HS256''"
definition ISSUER :: string where "ISSUER = ''coinpilot''"
definition AUDIENCE :: string where "AUDIENCE = ''coinpilot-api''"
definition ACCESS :: string where "ACCESS = ''access''"
definition LOGIN_STATE :: string where "LOGIN_STATE = ''login-state''"
definition REFRESH_TOKEN_BYTES :: nat where "REFRESH_TOKEN_BYTES = 32"
definition LOGIN_STATE_TTL :: timedelta where "LOGIN_STATE_TTL = 600 * SECOND"
definition REQUIRED_CLAIMS :: "string list" where
  "REQUIRED_CLAIMS = [''exp'', ''iat'', ''iss'', ''aud'', ''typ'']"

text \<open>
  The library: \<open>encode\<close> takes claims, secret and algorithm; \<open>decode\<close> takes token, secret,
  algorithms, audience, issuer and required claims, and gives None for a \<open>PyJWTError\<close>.
\<close>

record jwt =
  jw_encode :: "(string \<times> json) list \<Rightarrow> string \<Rightarrow> string \<Rightarrow> string"
  jw_decode :: "string \<Rightarrow> string \<Rightarrow> string list \<Rightarrow> string \<Rightarrow> string \<Rightarrow> string list \<Rightarrow> (string \<times> json) list option"

text \<open>
  What the library documents of claims that are texts and numbers: it decodes what it encoded,
  when the claims are those it is told to check.
\<close>

fun flat :: "json \<Rightarrow> bool" where
  "flat (JStr s) = True"
| "flat (JInt n) = True"
| "flat _ = False"

definition decodes_own :: "jwt \<Rightarrow> bool" where
  "decodes_own j \<longleftrightarrow> (\<forall>claims secret alg algs aud iss req.
     list_all (\<lambda>(k, v). flat v) claims \<and> alg \<in> set algs \<and> map_of claims ''aud'' = Some (JStr aud) \<and> map_of claims ''iss'' = Some (JStr iss) \<and>
     set req \<subseteq> fst ` set claims \<longrightarrow>
     jw_decode j (jw_encode j claims secret alg) secret algs aud iss req = Some claims)"

record issued_token =
  it_value :: string
  it_expires_at :: datetime

record login_state =
  ls_state :: string
  ls_verifier :: string

record token_signer =
  sg_secret :: string
  sg_ttl :: timedelta

text \<open>The library writes a time as its whole seconds.\<close>

definition encode :: "jwt \<Rightarrow> token_signer \<Rightarrow> (string \<times> json) list \<Rightarrow> datetime \<Rightarrow> datetime \<Rightarrow> string" where
  "encode j sg claims issued expires =
     jw_encode j (claims @ [(''iss'', JStr ISSUER), (''aud'', JStr AUDIENCE),
       (''iat'', JInt (issued div SECOND)), (''exp'', JInt (expires div SECOND))]) (sg_secret sg) ALGORITHM"

text \<open>A number of seconds a claim holds, when it is a number.\<close>

fun number_of :: "json \<Rightarrow> rat option" where
  "number_of (JInt n) = Some (of_int n)"
| "number_of (JBool b) = Some (if b then 1 else 0)"
| "number_of (JFloat t) = (case read_decimal t of Inl _ \<Rightarrow> None | Inr x \<Rightarrow> Some x)"
| "number_of _ = None"

definition decode :: "jwt \<Rightarrow> token_signer \<Rightarrow> datetime \<Rightarrow> string \<Rightarrow> string \<Rightarrow> (string \<times> json) list result" where
  "decode j sg moment token expected_type =
     (case jw_decode j token (sg_secret sg) [ALGORITHM] AUDIENCE ISSUER REQUIRED_CLAIMS of
        None \<Rightarrow> Inl (TokenInvalid ''the token does not verify'')
      | Some claims \<Rightarrow>
          rbind (get_item (map_of claims) ''exp'') (\<lambda>expires.
            if (case number_of expires of None \<Rightarrow> True | Some x \<Rightarrow> x * of_int SECOND \<le> of_int moment)
            then Inl (TokenInvalid ''the token has expired'')
            else if map_of claims ''typ'' \<noteq> Some (JStr expected_type)
            then Inl (TokenInvalid ''the token is meant for something else'')
            else Inr claims))"

definition issue_token :: "jwt \<Rightarrow> token_signer \<Rightarrow> datetime \<Rightarrow> uuid \<Rightarrow> issued_token" where
  "issue_token j sg moment user =
     \<lparr>it_value = encode j sg [(''sub'', JStr (uuid_text user)), (''typ'', JStr ACCESS)] moment (moment + sg_ttl sg),
      it_expires_at = moment + sg_ttl sg\<rparr>"

definition verify :: "jwt \<Rightarrow> token_signer \<Rightarrow> datetime \<Rightarrow> string \<Rightarrow> uuid result" where
  "verify j sg moment token =
     rbind (decode j sg moment token ACCESS) (\<lambda>claims.
       case Option.bind (map_of claims ''sub'') (\<lambda>v. uuid_of_text (str_json v)) of
         None \<Rightarrow> Inl (TokenInvalid ''the subject is not a user id'')
       | Some user \<Rightarrow> Inr user)"

definition issue_login_state :: "jwt \<Rightarrow> token_signer \<Rightarrow> datetime \<Rightarrow> login_state \<Rightarrow> string" where
  "issue_login_state j sg moment login =
     encode j sg [(''state'', JStr (ls_state login)), (''verifier'', JStr (ls_verifier login)), (''typ'', JStr LOGIN_STATE)]
       moment (moment + LOGIN_STATE_TTL)"

definition verify_login_state :: "jwt \<Rightarrow> token_signer \<Rightarrow> datetime \<Rightarrow> string \<Rightarrow> login_state result" where
  "verify_login_state j sg moment token =
     rbind (decode j sg moment token LOGIN_STATE) (\<lambda>claims.
       case (map_of claims ''state'', map_of claims ''verifier'') of
         (Some state, Some verifier) \<Rightarrow> Inr \<lparr>ls_state = str_json state, ls_verifier = str_json verifier\<rparr>
       | _ \<Rightarrow> Inl (TokenInvalid ''the login state is incomplete''))"

section \<open>An identifier reads back\<close>

lemma of_hex_digits_snoc: "of_hex_digits (ds @ [d]) = 16 * of_hex_digits ds + d"
  by (simp add: of_hex_digits_def)

lemma of_hex_digits_nat:
  "of_hex_digits (map (\<lambda>i. n div 16 ^ (k - 1 - i) mod 16) [0..<k]) = n mod 16 ^ k"
proof (induction k arbitrary: n)
  case (Suc k)
  have front: "map (\<lambda>i. n div 16 ^ (Suc k - 1 - i) mod 16) [0..<k] = map (\<lambda>i. n div 16 div 16 ^ (k - 1 - i) mod 16) [0..<k]"
  proof (rule map_cong [OF refl])
    fix i assume "i \<in> set [0..<k]"
    then have "Suc k - 1 - i = Suc (k - 1 - i)" by auto
    then show "n div 16 ^ (Suc k - 1 - i) mod 16 = n div 16 div 16 ^ (k - 1 - i) mod 16"
      by (simp add: div_mult2_eq)
  qed
  have "of_hex_digits (map (\<lambda>i. n div 16 ^ (Suc k - 1 - i) mod 16) [0..<Suc k]) =
      16 * of_hex_digits (map (\<lambda>i. n div 16 ^ (Suc k - 1 - i) mod 16) [0..<k]) + n mod 16"
    by (simp add: of_hex_digits_snoc)
  also have "\<dots> = 16 * (n div 16 mod 16 ^ k) + n mod 16" unfolding front Suc ..
  also have "\<dots> = n mod 16 ^ Suc k" by (simp add: mod_mult2_eq)
  finally show ?case .
qed (simp add: of_hex_digits_def)

lemma hex_nat: "hex u = map hex_digit (map (\<lambda>i. unat u div 16 ^ (31 - i) mod 16) [0..<32])"
proof -
  have "unat (take_bit 4 (drop_bit (4 * j) u)) = unat u div 16 ^ j mod 16" for j
  proof -
    have "unat u < 2 ^ 128" using unsigned_less [of u] by simp
    then show ?thesis
      by (simp only: unsigned_take_bit_eq unsigned_drop_bit_eq)
        (simp only: take_bit_eq_mod drop_bit_eq_div power_mult, simp)
  qed
  then show ?thesis by (simp only: hex_def map_map comp_def)
qed

lemma hex_digits_hex: "list_all (\<lambda>d. d < 16) ds \<Longrightarrow> ds \<noteq> [] \<or> b \<Longrightarrow> hex_digits b (map hex_digit ds) = Some ds"
  by (induction ds arbitrary: b) auto

lemma hex_plain: "list_all (\<lambda>c. hex_value c \<noteq> None) (hex u)"
  by (simp add: hex_nat list_all_iff)

lemma not_hex [simp]: "hex_value CHR ''-'' = None" "hex_value CHR ''u'' = None"
  "hex_value CHR ''{'' = None" "hex_value CHR ''}'' = None" "hex_value CHR ''+'' = None"
  "hex_value CHR ''x'' = None" "hex_value CHR ''X'' = None"
  by (simp_all add: hex_value_def)

lemma hex_not_space: "hex_value c \<noteq> None \<Longrightarrow> \<not> is_space c"
  by (auto simp: hex_value_def is_space_def Let_def split: if_splits)

lemma without_absent:
  assumes "c \<in> set part" "c \<notin> set s"
  shows "without part s = s"
  using assms(2)
proof (induction s)
  case Nil
  then show ?case by (simp add: without.simps)
next
  case (Cons x s)
  have "take (length part) (x # s) \<noteq> part"
    using assms(1) Cons.prems by (metis in_set_takeD)
  then show ?case using Cons by (subst without.simps) simp
qed

lemma without_dash: "without ''-'' s = filter (\<lambda>c. c \<noteq> CHR ''-'') s"
  by (induction s) (auto simp: without.simps [of "''-''"])

text \<open>What \<open>hex\<close> and dashes are made of.\<close>

lemma uuid_text_chars: "c \<in> set (uuid_text u) \<Longrightarrow> c = CHR ''-'' \<or> hex_value c \<noteq> None"
  using hex_plain [of u] by (auto simp: uuid_text_def Let_def list_all_iff dest: in_set_takeD in_set_dropD)

lemma length_hex [simp]: "length (hex u) = 32"
  by (simp add: hex_def)

lemma unbraced_id: "list_all (\<lambda>c. c \<noteq> CHR ''{'' \<and> c \<noteq> CHR ''}'') s \<Longrightarrow> unbraced s = s"
proof -
  let ?brace = "\<lambda>c. c = CHR ''{'' \<or> c = CHR ''}''"
  have keep: "list_all (\<lambda>c. c \<noteq> CHR ''{'' \<and> c \<noteq> CHR ''}'') t \<Longrightarrow> dropWhile ?brace t = t" for t by (cases t) auto
  assume s: "list_all (\<lambda>c. c \<noteq> CHR ''{'' \<and> c \<noteq> CHR ''}'') s"
  then have "list_all (\<lambda>c. c \<noteq> CHR ''{'' \<and> c \<noteq> CHR ''}'') (rev s)" by (simp add: list_all_iff)
  with s show ?thesis by (simp add: unbraced_def keep)
qed

lemma take_drop_join: "n + m = k \<Longrightarrow> take m (drop n h) @ drop k h = drop n h"
  by (metis add.commute append_take_drop_id drop_drop)

lemma uuid_text_digits: "filter (\<lambda>c. c \<noteq> CHR ''-'') (uuid_text u) = hex u"
proof -
  let ?h = "hex u" and ?keep = "filter (\<lambda>c. c \<noteq> CHR ''-'')"
  have "CHR ''-'' \<notin> set ?h" using hex_plain [of u] by (auto simp: list_all_iff)
  then have id: "?keep s = s" if "set s \<subseteq> set ?h" for s
    using that by (auto simp: filter_id_conv)
  have parts: "?keep (take n (drop m ?h)) = take n (drop m ?h)" "?keep (take n ?h) = take n ?h"
    "?keep (drop m ?h) = drop m ?h" for n m
    by (rule id, meson set_take_subset set_drop_subset subset_trans)+
  have "?keep ''-'' = []" by simp
  then have "?keep (uuid_text u) = take 8 ?h @ take 4 (drop 8 ?h) @ take 4 (drop 12 ?h) @ take 4 (drop 16 ?h) @ drop 20 ?h"
    unfolding uuid_text_def Let_def by (simp only: filter_append parts append_Nil)
  also have "\<dots> = take 8 ?h @ drop 8 ?h"
    by (simp only: take_drop_join arith_simps)
  finally show ?thesis by (simp only: append_take_drop_id)
qed

lemma uuid_of_text_text [simp]: "uuid_of_text (uuid_text u) = Some u"
proof -
  let ?ds = "map (\<lambda>i. unat u div 16 ^ (31 - i) mod 16) [0..<32]"
  have chars: "CHR ''u'' \<notin> set (uuid_text u)" "list_all (\<lambda>c. c \<noteq> CHR ''{'' \<and> c \<noteq> CHR ''}'') (uuid_text u)"
    using uuid_text_chars [of "CHR ''u''" u] uuid_text_chars [of "CHR ''{''" u] uuid_text_chars [of "CHR ''}''" u]
    by (auto simp: list_all_iff)
  have "without ''-'' (unbraced (without ''uuid:'' (without ''urn:'' (uuid_text u)))) = hex u"
    using chars by (simp add: without_absent [of "CHR ''u''"] unbraced_id without_dash uuid_text_digits)
  moreover have "python_int16 (hex u) = Some (int (unat u))"
  proof -
    have h: "hex u = map hex_digit ?ds" by (rule hex_nat)
    have "hex_digits False (hex u) = Some ?ds" unfolding h by (rule hex_digits_hex) (simp_all add: list_all_iff)
    moreover have "strip (hex u) = hex u"
      using hex_plain [of u] hex_not_space by (intro strip_id) (auto simp: list_all_iff)
    moreover have "take 1 (hex u) \<noteq> ''-''" "take 1 (hex u) \<noteq> ''+''" "take 2 (hex u) \<noteq> ''0x''" "take 2 (hex u) \<noteq> ''0X''"
      using hex_plain [of u] not_hex unfolding list_all_iff
      by (metis in_set_takeD list.set_intros)+
    moreover have "of_hex_digits ?ds = unat u"
    proof -
      have "unat u < 2 ^ 128" using unsigned_less [of u] by simp
      then show ?thesis using of_hex_digits_nat [of "unat u" 32] by simp
    qed
    ultimately show ?thesis by (simp add: python_int16_def)
  qed
  moreover have "int (unat u) < 2 ^ 128" using unsigned_less [of u] by simp
  ultimately show ?thesis by (simp add: uuid_of_text_def)
qed

section \<open>Tokens read back\<close>

lemma decode_encode:
  assumes "decodes_own j" "map_of claims ''typ'' = Some (JStr kind)" "list_all (\<lambda>(k, v). flat v) claims"
    and "fst ` set claims \<inter> {''iss'', ''aud'', ''iat'', ''exp''} = {}"
  shows "decode j sg moment (encode j sg claims issued expires) expected =
    (if expires div SECOND * SECOND \<le> moment then Inl (TokenInvalid ''the token has expired'')
     else if kind \<noteq> expected then Inl (TokenInvalid ''the token is meant for something else'')
     else Inr (claims @ [(''iss'', JStr ISSUER), (''aud'', JStr AUDIENCE),
       (''iat'', JInt (issued div SECOND)), (''exp'', JInt (expires div SECOND))]))"
proof -
  let ?more = "[(''iss'', JStr ISSUER), (''aud'', JStr AUDIENCE), (''iat'', JInt (issued div SECOND)), (''exp'', JInt (expires div SECOND))]"
  have absent: "map_of claims k = None" if "k \<in> {''iss'', ''aud'', ''iat'', ''exp''}" for k
  proof -
    have "k \<notin> fst ` set claims" using assms(4) that by blast
    then show ?thesis by (simp only: map_of_eq_None_iff not_False_eq_True)
  qed
  have claims: "map_of (claims @ ?more) ''aud'' = Some (JStr AUDIENCE)" "map_of (claims @ ?more) ''iss'' = Some (JStr ISSUER)"
    "map_of (claims @ ?more) ''exp'' = Some (JInt (expires div SECOND))" "map_of (claims @ ?more) ''typ'' = Some (JStr kind)"
    using absent assms(2) by (simp_all add: map_add_def)
  have "''typ'' \<in> fst ` set claims" using assms(2) by (metis map_of_eq_None_iff option.distinct(1))
  then have "jw_decode j (jw_encode j (claims @ ?more) (sg_secret sg) ALGORITHM) (sg_secret sg) [ALGORITHM] AUDIENCE ISSUER REQUIRED_CLAIMS
      = Some (claims @ ?more)"
    using assms(1,3) claims(1,2) by (simp add: decodes_own_def REQUIRED_CLAIMS_def del: map_of_append)
  moreover have "(of_int (expires div SECOND) * of_int SECOND \<le> (of_int moment :: rat)) = (expires div SECOND * SECOND \<le> moment)"
    by (metis of_int_le_iff of_int_mult)
  ultimately show ?thesis
    by (simp add: decode_def encode_def claims(3,4) get_item_def del: map_of_append)
qed

text \<open>A library that writes the secret, the algorithm and the claims one after another.\<close>

definition write_claim :: "string \<times> json \<Rightarrow> string" where
  "write_claim kv = json_string (fst kv) @
     (case snd kv of JInt n \<Rightarrow> CHR ''i'' # json_string (string_of_int n) | v \<Rightarrow> CHR ''s'' # json_string (str_json v))"

fun read_claims :: "nat \<Rightarrow> string \<Rightarrow> (string \<times> json) list option" where
  "read_claims n [] = Some []"
| "read_claims 0 (c # s) = None"
| "read_claims (Suc n) (c # s) =
     (case read_text s of
        None \<Rightarrow> None
      | Some (k, r) \<Rightarrow>
          (case read_text (drop 2 r) of
             None \<Rightarrow> None
           | Some (v, rest) \<Rightarrow> map_option (Cons (k, if take 1 r = ''i'' then JInt (the (python_int v)) else JStr v)) (read_claims n rest)))"

lemma read_write_claims:
  "list_all (\<lambda>(k, v). flat v) claims \<Longrightarrow> length claims \<le> n \<Longrightarrow> read_claims n (concat (map write_claim claims)) = Some claims"
proof (induction claims arbitrary: n)
  case (Cons kv claims)
  obtain m where n: "n = Suc m" "length claims \<le> m" using Cons.prems(2) by (cases n) auto
  obtain k v where kv: "kv = (k, v)" by (cases kv)
  with Cons n show ?case
    by (cases v) (simp_all add: write_claim_def json_string_def)
qed simp

definition sample_jwt :: jwt where
  "sample_jwt = \<lparr>
     jw_encode = (\<lambda>claims secret alg. json_string secret @ json_string alg @ concat (map write_claim claims)),
     jw_decode = (\<lambda>token secret algs aud iss req.
       case read_text (drop 1 token) of
         None \<Rightarrow> None
       | Some (s, r) \<Rightarrow>
           (case read_text (drop 1 r) of
              None \<Rightarrow> None
            | Some (a, text) \<Rightarrow>
                if s \<noteq> secret \<or> a \<notin> set algs then None
                else (case read_claims (length text) text of
                        None \<Rightarrow> None
                      | Some claims \<Rightarrow>
                          if map_of claims ''aud'' = Some (JStr aud) \<and> map_of claims ''iss'' = Some (JStr iss) \<and>
                             list_all (\<lambda>k. k \<in> set (map fst claims)) req
                          then Some claims else None)))\<rparr>"

lemma sample_jwt_decodes: "decodes_own sample_jwt"
proof -
  have long: "length claims \<le> length (concat (map write_claim claims))" for claims
    by (induction claims) (simp_all add: write_claim_def json_string_def)
  show ?thesis
    unfolding decodes_own_def sample_jwt_def
    by (auto simp: json_string_def read_write_claims long list_all_iff)
qed

definition sample_signer :: token_signer where
  "sample_signer = \<lparr>sg_secret = replicate 32 CHR ''s'', sg_ttl = 900 * SECOND\<rparr>"

lemma verify_login_state_own:
  assumes "decodes_own j"
  shows "verify_login_state j sg moment (issue_login_state j sg issued login) =
    (if moment < (issued + LOGIN_STATE_TTL) div SECOND * SECOND then Inr login else Inl (TokenInvalid ''the token has expired''))"
  using assms by (simp add: verify_login_state_def issue_login_state_def decode_encode not_le LOGIN_STATE_def)

lemma verify_own: "decodes_own j \<Longrightarrow> verify j sg moment (it_value (issue_token j sg issued user)) =
    (if moment < (issued + sg_ttl sg) div SECOND * SECOND then Inr user else Inl (TokenInvalid ''the token has expired''))"
  by (simp add: verify_def issue_token_def decode_encode not_le)

text \<open>
  C37: an access token is accepted, as the user it was issued to, until the whole second its
  lifetime ends in, and refused from then on.
\<close>

theorem token_roundtrip:
  assumes "decodes_own j"
  shows "verify j sg moment (it_value (issue_token j sg issued user)) =
    (if moment < (issued + sg_ttl sg) div SECOND * SECOND then Inr user else Inl (TokenInvalid ''the token has expired''))"
  using assms by (rule verify_own)

theorem token_roundtrip_witness:
  "verify sample_jwt sample_signer (900 * SECOND - 1) (it_value (issue_token sample_jwt sample_signer 999999 7)) = Inr 7 \<and>
   verify sample_jwt sample_signer (900 * SECOND) (it_value (issue_token sample_jwt sample_signer 999999 7)) =
     Inl (TokenInvalid ''the token has expired'')"
  by (simp add: token_roundtrip [OF sample_jwt_decodes] sample_signer_def SECOND_def)

text \<open>
  Neither kind of token passes for the other. The state of a login is refused as an access
  token and an access token as the state of a login, whenever they are presented.
\<close>

theorem token_kinds:
  assumes "decodes_own j"
  shows "(\<exists>why. verify j sg moment (issue_login_state j sg issued login) = Inl (TokenInvalid why)) \<and>
    (\<exists>why. verify_login_state j sg moment (it_value (issue_token j sg issued user)) = Inl (TokenInvalid why)) \<and>
    verify_login_state j sg issued (issue_login_state j sg issued login) = Inr login"
  using assms
  by (simp add: verify_def verify_login_state_def issue_token_def issue_login_state_def decode_encode
      ACCESS_def LOGIN_STATE_def LOGIN_STATE_TTL_def SECOND_def)

theorem token_kinds_witness:
  "verify_login_state sample_jwt sample_signer 5 (issue_login_state sample_jwt sample_signer 5 \<lparr>ls_state = ''a'', ls_verifier = ''b''\<rparr>)
     = Inr \<lparr>ls_state = ''a'', ls_verifier = ''b''\<rparr>"
  using token_kinds [OF sample_jwt_decodes, where sg = sample_signer and issued = 5] by simp

end
