(* ===== verification/Google.thy ===== *)
theory Google
  imports Url Tokens
begin

text \<open>
  Sign-in with Google (\<open>core/google.py\<close>): the page a login is sent to, and the two requests
  after the redirect. SHA-256, the random texts and Google's answers are parameters.
\<close>

definition AUTHORIZE_URL :: string where "AUTHORIZE_URL = ''https://accounts.google.com/o/oauth2/v2/auth''"
definition TOKEN_URL :: string where "TOKEN_URL = ''https://oauth2.googleapis.com/token''"
definition USERINFO_URL :: string where "USERINFO_URL = ''https://openidconnect.googleapis.com/v1/userinfo''"
definition SCOPE :: string where "SCOPE = ''openid email''"

record google_identity =
  gi_subject :: string
  gi_email :: string

section \<open>The way there\<close>

text \<open>\<open>secrets.token_urlsafe(bytes)\<close> of the random bits drawn for it.\<close>

definition new_login :: "(nat \<Rightarrow> uuid \<Rightarrow> string) \<Rightarrow> uuid \<Rightarrow> uuid \<Rightarrow> login_state" where
  "new_login token_urlsafe u v = \<lparr>ls_state = token_urlsafe 32 u, ls_verifier = token_urlsafe 64 v\<rparr>"

definition urlsafe_char :: "char \<Rightarrow> char" where
  "urlsafe_char c = (if c = CHR ''+'' then CHR ''-'' else if c = CHR ''/'' then CHR ''_'' else c)"

text \<open>A verifier is ASCII, so its bytes are its characters.\<close>

definition code_challenge :: "(bytes \<Rightarrow> bytes) \<Rightarrow> string \<Rightarrow> string" where
  "code_challenge sha256 verifier =
     (let encoded = map urlsafe_char (b64_encode (sha256 (text_bytes verifier)))
      in rev (dropWhile (\<lambda>c. c = CHR ''='') (rev encoded)))"

definition authorization_query :: "(bytes \<Rightarrow> bytes) \<Rightarrow> google_config \<Rightarrow> login_state \<Rightarrow> (string \<times> string) list" where
  "authorization_query sha256 config login =
     [(''client_id'', gc_client_id config), (''redirect_uri'', gc_redirect_uri config), (''response_type'', ''code''),
      (''scope'', SCOPE), (''state'', ls_state login), (''code_challenge'', code_challenge sha256 (ls_verifier login)),
      (''code_challenge_method'', ''S256'')]"

definition authorization_url :: "(bytes \<Rightarrow> bytes) \<Rightarrow> google_config \<Rightarrow> login_state \<Rightarrow> string" where
  "authorization_url sha256 config login = AUTHORIZE_URL @ ''?'' @ urlencode (authorization_query sha256 config login)"

section \<open>The way back\<close>

text \<open>
  What a request to Google comes to: no answer (\<open>httpx.HTTPError\<close>), a value that cannot be sent
  (\<open>ValueError\<close>), or a status with a body, which is JSON or not.
\<close>

datatype google_answer = Unreachable | Unsendable | Replied int "json option"

text \<open>The two requests: a form posted to a page, and a page read with an access token.\<close>

record google_http =
  gh_post :: "string \<Rightarrow> (string \<times> string) list \<Rightarrow> google_answer"
  gh_get :: "string \<Rightarrow> json \<Rightarrow> google_answer"

text \<open>\<open>_object\<close>; None is its \<open>ValueError\<close>.\<close>

fun object_of :: "json option \<Rightarrow> (string \<times> json) list option" where
  "object_of (Some (JObj kvs)) = Some kvs"
| "object_of _ = None"

definition present :: "(string \<times> json) list \<Rightarrow> string \<Rightarrow> json option" where
  "present body key = (case map_of body key of None \<Rightarrow> None | Some v \<Rightarrow> if truthy v then Some v else None)"

text \<open>A \<open>GoogleLoginFailed\<close> is its message.\<close>

definition object_answered :: "google_answer \<Rightarrow> string \<Rightarrow> string + (string \<times> json) list" where
  "object_answered answer why =
     (case answer of
        Unreachable \<Rightarrow> Inl ''google could not be reached''
      | Unsendable \<Rightarrow> Inl ''google returned something that is not a JSON object''
      | Replied status body \<Rightarrow>
          if status \<noteq> 200 then Inl why
          else (case object_of body of
                  None \<Rightarrow> Inl ''google returned something that is not a JSON object''
                | Some kvs \<Rightarrow> Inr kvs))"

definition identity_in :: "(string \<times> json) list \<Rightarrow> string + google_identity" where
  "identity_in body =
     (case (present body ''sub'', present body ''email'') of
        (Some subject, Some email) \<Rightarrow>
          if map_of body ''email_verified'' \<noteq> Some (JBool True) then Inl ''the google account has no verified email''
          else Inr \<lparr>gi_subject = str_json subject, gi_email = str_json email\<rparr>
      | _ \<Rightarrow> Inl ''google returned no account id or email'')"

definition exchange_code :: "google_http \<Rightarrow> google_config \<Rightarrow> string \<Rightarrow> string \<Rightarrow> string + google_identity" where
  "exchange_code http config code verifier =
     (case object_answered (gh_post http TOKEN_URL
              [(''code'', code), (''client_id'', gc_client_id config), (''client_secret'', gc_client_secret config),
               (''redirect_uri'', gc_redirect_uri config), (''grant_type'', ''authorization_code''), (''code_verifier'', verifier)])
            ''google refused the authorization code'' of
        Inl why \<Rightarrow> Inl why
      | Inr granted \<Rightarrow>
          (case present granted ''access_token'' of
             None \<Rightarrow> Inl ''google returned no access token''
           | Some access \<Rightarrow>
               (case object_answered (gh_get http USERINFO_URL access) ''google did not return the account'' of
                  Inl why \<Rightarrow> Inl why
                | Inr body \<Rightarrow> identity_in body)))"

section \<open>What an identity rests on\<close>

text \<open>Google vouched for an identity: it answered with that account and says its email is verified.\<close>

definition vouched :: "google_http \<Rightarrow> google_config \<Rightarrow> string \<Rightarrow> string \<Rightarrow> google_identity \<Rightarrow> bool" where
  "vouched http config code verifier identity \<longleftrightarrow>
     (\<exists>granted access body subject email.
        gh_post http TOKEN_URL
          [(''code'', code), (''client_id'', gc_client_id config), (''client_secret'', gc_client_secret config),
           (''redirect_uri'', gc_redirect_uri config), (''grant_type'', ''authorization_code''), (''code_verifier'', verifier)]
          = Replied 200 (Some (JObj granted)) \<and>
        map_of granted ''access_token'' = Some access \<and> truthy access \<and>
        gh_get http USERINFO_URL access = Replied 200 (Some (JObj body)) \<and>
        map_of body ''sub'' = Some subject \<and> truthy subject \<and> map_of body ''email'' = Some email \<and> truthy email \<and>
        map_of body ''email_verified'' = Some (JBool True) \<and>
        identity = \<lparr>gi_subject = str_json subject, gi_email = str_json email\<rparr>)"

lemma object_answered_Inr: "object_answered answer why = Inr kvs \<longleftrightarrow> answer = Replied 200 (Some (JObj kvs))"
  by (auto simp: object_answered_def split: google_answer.splits option.splits elim: object_of.elims)

lemma present_Some: "present body key = Some v \<longleftrightarrow> map_of body key = Some v \<and> truthy v"
  by (auto simp: present_def split: option.splits)

lemma identity_in_Inr:
  "identity_in body = Inr i \<longleftrightarrow> (\<exists>subject email. present body ''sub'' = Some subject \<and> present body ''email'' = Some email \<and>
     map_of body ''email_verified'' = Some (JBool True) \<and> i = \<lparr>gi_subject = str_json subject, gi_email = str_json email\<rparr>)"
  by (auto simp: identity_in_def split: option.splits)

lemma case_sum_Inr: "(case m of Inl why \<Rightarrow> Inl why | Inr a \<Rightarrow> f a) = Inr b \<longleftrightarrow> (\<exists>a. m = Inr a \<and> f a = Inr b)"
  and case_option_Inr: "(case n of None \<Rightarrow> Inl why' | Some c \<Rightarrow> g c) = Inr b \<longleftrightarrow> (\<exists>c. n = Some c \<and> g c = Inr b)"
  by (auto split: sum.splits option.splits)

lemma exchange_code_Inr: "exchange_code http config code verifier = Inr i \<longleftrightarrow> vouched http config code verifier i"
  unfolding exchange_code_def vouched_def case_sum_Inr case_option_Inr object_answered_Inr present_Some identity_in_Inr by blast

end
