(* ===== verification/Api.thy ===== *)
theory Api
  imports Rebalance Google
begin

text \<open>
  What every route shares (\<open>api/deps.py\<close>, \<open>api/evaluation.py\<close>, \<open>api/context.py\<close>) and the routes
  that run an evaluation (\<open>api/routes/invest.py\<close>, \<open>api/routes/proposal.py\<close>).

  A route is an action of the process that answers or raises. FastAPI gives a route one
  transaction for its session; it is modelled as the part that reads, before the calls to
  Kraken or Google, and the part that writes, after them: no route writes before its last
  call, so a rollback loses the same. An \<open>HTTPException\<close> is an exception of the model, and a
  refusal that is returned, so that the transaction commits, is a value.
\<close>

section \<open>The context and the request\<close>

text \<open>
  \<open>AppContext\<close>, beyond the environment: the configuration, the libraries that are parameters,
  the texts and the bytes that random bits are made into, and what Google answers.
\<close>

record app_context =
  cx_config :: app_config
  cx_jwt :: jwt
  cx_signer :: token_signer
  cx_aead :: aead
  cx_cipher :: cipher
  cx_sha256 :: "bytes \<Rightarrow> bytes"
  cx_hash :: "string \<Rightarrow> string"
  cx_token :: "nat \<Rightarrow> uuid \<Rightarrow> string"
  cx_nonce :: "uuid \<Rightarrow> bytes"
  cx_google :: google_http

record http_request =
  rq_authorization :: "string option"
  rq_cookies :: "string dict"
  rq_refresh_token :: "string option"

datatype 'a reply =
    Answer 'a
  | Refusal int string
  | Stale proposal_state
  | Superseded "proposal_state option" "string list"

section \<open>api/deps.py\<close>

definition ACCESS_COOKIE :: string where
  "ACCESS_COOKIE = ''coinpilot_token''"

definition presented_token :: "http_request \<Rightarrow> string option" where
  "presented_token rq =
     (case partition_on (CHR '' '') (case rq_authorization rq of None \<Rightarrow> [] | Some h \<Rightarrow> h) of (scheme, _, val) \<Rightarrow>
        if lower scheme = ''bearer'' \<and> strip val \<noteq> [] then Some (strip val)
        else map_of (rq_cookies rq) ACCESS_COOKIE)"

definition unauthenticated :: exn where
  "unauthenticated = HTTPException 401 (Detail ''not signed in'')"

definition current_user :: "env \<Rightarrow> app_context \<Rightarrow> http_request \<Rightarrow> user_row io" where
  "current_user e cx rq =
     (case presented_token rq of
        None \<Rightarrow> throw unauthenticated
      | Some token \<Rightarrow>
          bind (now e) (\<lambda>t.
          bind (lift_result (case verify (cx_jwt cx) (cx_signer cx) t token of
                  Inl (TokenInvalid why) \<Rightarrow> Inl unauthenticated | r \<Rightarrow> r)) (\<lambda>user_id.
          bind (transaction e (get_user user_id)) (\<lambda>found. case found of
            None \<Rightarrow> throw unauthenticated
          | Some user \<Rightarrow>
              if u_status user \<noteq> ACTIVE then throw (HTTPException 403 (Detail ''this account is disabled''))
              else ret user))))"

section \<open>api/evaluation.py\<close>

record leg_out =
  lo_asset :: string
  lo_pair :: string
  lo_side :: string
  lo_amount_fiat :: string
  lo_minimum_fiat :: "string option"
  lo_status :: string
  lo_cl_ord_id :: "string option"
  lo_txid :: "string option"
  lo_cost :: "string option"
  lo_executed_volume :: "string option"
  lo_executed_price :: "string option"
  lo_fee :: "string option"
  lo_error :: "string option"
  lo_note :: "string option"
  lo_volume :: "string option"

definition plain :: "dec option \<Rightarrow> string option" where
  "plain x = map_option plain_amount x"

definition leg_out :: "leg_result \<Rightarrow> leg_out" where
  "leg_out r =
     \<lparr>lo_asset = lr_asset r, lo_pair = lr_pair r, lo_side = side_value (lr_side r),
      lo_amount_fiat = plain_amount (lr_amount_fiat r), lo_minimum_fiat = plain (lr_minimum_fiat r),
      lo_status = leg_status_name (lr_status r), lo_cl_ord_id = lr_cl_ord_id r, lo_txid = lr_txid r,
      lo_cost = plain (lr_cost r), lo_executed_volume = plain (lr_executed_volume r),
      lo_executed_price = plain (lr_executed_price r), lo_fee = plain (lr_fee r), lo_error = lr_error r,
      lo_note = lr_note r, lo_volume = plain (lr_volume r)\<rparr>"

text \<open>\<open>with evaluation_errors(user_id)\<close>: the evaluations that never started.\<close>

definition evaluation_errors :: "'a io \<Rightarrow> 'a io" where
  "evaluation_errors m = try_except m (\<lambda>exc. case exc of
     EvaluationBusy \<Rightarrow> Some (throw (HTTPException 409
       (Detail ''an evaluation of this account is already running; try again shortly'')))
   | NotReady why \<Rightarrow> Some (throw (HTTPException 409 (Detail why)))
   | CredentialsUnreadable \<Rightarrow> Some (throw (HTTPException 500
       (Detail ''the stored key cannot be read; register it again'')))
   | _ \<Rightarrow> None)"

text \<open>The answer for an evaluation that ran, was recorded, and could not compute.\<close>

definition unfinished :: "evaluation_result \<Rightarrow> (int \<times> string) option" where
  "unfinished result =
     (if er_status result = UNRESOLVED
      then Some (409, ''an earlier order is still unresolved; try again in a few minutes'')
      else if er_status result = KRAKEN_UNAVAILABLE
      then Some (503, ''kraken could not be read; nothing was sent'')
      else None)"

section \<open>api/routes/invest.py\<close>

record invest_out =
  io_status :: string
  io_preview :: bool
  io_legs :: "leg_out list"
  io_messages :: "string list"

definition invest_now :: "env \<Rightarrow> app_context \<Rightarrow> http_request \<Rightarrow> bool \<Rightarrow> invest_out reply io" where
  "invest_now e cx rq is_preview =
     bind (current_user e cx rq) (\<lambda>user.
     bind (evaluation_errors (invest e (market e) (u_id user) is_preview API)) (\<lambda>result. ret
       (case unfinished result of
          Some (code, why) \<Rightarrow> Refusal code why
        | None \<Rightarrow> Answer \<lparr>io_status = status_name (er_status result), io_preview = er_preview result,
            io_legs = map leg_out (er_legs result), io_messages = er_messages result\<rparr>)))"

section \<open>api/routes/proposal.py\<close>

record rebalance_out =
  ro_status :: string
  ro_legs :: "leg_out list"
  ro_proposal :: "proposal_state option"
  ro_messages :: "string list"

definition NO_PROPOSAL :: exn where
  "NO_PROPOSAL = HTTPException 404 (Detail ''there is no live proposal'')"

definition rebalance_answer :: "rebalance_result \<Rightarrow> rebalance_out" where
  "rebalance_answer r =
     \<lparr>ro_status = status_name (er_status (rr_evaluation r)), ro_legs = map leg_out (er_legs (rr_evaluation r)),
      ro_proposal = rr_proposal r, ro_messages = er_messages (rr_evaluation r)\<rparr>"

definition rebalance_route :: "env \<Rightarrow> app_context \<Rightarrow> http_request \<Rightarrow> rebalance_out reply io" where
  "rebalance_route e cx rq =
     bind (current_user e cx rq) (\<lambda>user.
     bind (evaluation_errors (propose e (market e) (u_id user) API)) (\<lambda>result. ret
       (case unfinished (rr_evaluation result) of
          Some (code, why) \<Rightarrow> Refusal code why
        | None \<Rightarrow> Answer (rebalance_answer result))))"

definition read_proposal :: "env \<Rightarrow> app_context \<Rightarrow> http_request \<Rightarrow> proposal_state io" where
  "read_proposal e cx rq =
     bind (current_user e cx rq) (\<lambda>user.
     bind (current e (u_id user)) (\<lambda>state. case state of None \<Rightarrow> throw NO_PROPOSAL | Some s \<Rightarrow> ret s))"

text \<open>What an approval that came back answers.\<close>

definition approval_answer :: "rebalance_result \<Rightarrow> rebalance_out reply" where
  "approval_answer result =
     (case unfinished (rr_evaluation result) of
        Some (code, why) \<Rightarrow> Refusal code why
      | None \<Rightarrow>
          if er_status (rr_evaluation result) = SUPERSEDED
          then Superseded (rr_proposal result) (er_messages (rr_evaluation result))
          else Answer (rebalance_answer result))"

definition approve_proposal :: "env \<Rightarrow> app_context \<Rightarrow> http_request \<Rightarrow> int \<Rightarrow> rebalance_out reply io" where
  "approve_proposal e cx rq version =
     bind (current_user e cx rq) (\<lambda>user.
       if version < 1 then throw (HTTPException 422 (Field_detail [''version'']))
       else try_except
         (bind (evaluation_errors (approve e (market e) (u_id user) version)) (\<lambda>result. ret (approval_answer result)))
         (\<lambda>exc. case exc of
            NoProposal \<Rightarrow> Some (throw NO_PROPOSAL)
          | StaleVersion live \<Rightarrow> Some (ret (Stale live))
          | _ \<Rightarrow> None))"

definition withdraw_proposal :: "env \<Rightarrow> app_context \<Rightarrow> http_request \<Rightarrow> int \<Rightarrow> unit reply io" where
  "withdraw_proposal e cx rq version =
     bind (current_user e cx rq) (\<lambda>user.
       if version < 1 then throw (HTTPException 422 (Field_detail [''version'']))
       else try_except
         (bind (withdraw e (u_id user) version) (\<lambda>withdrawn.
            if withdrawn then ret (Answer ()) else throw NO_PROPOSAL))
         (\<lambda>exc. case exc of StaleVersion live \<Rightarrow> Some (ret (Stale live)) | _ \<Rightarrow> None))"

end
