(* ===== verification/Api_Config.thy ===== *)
theory Api_Config
  imports Api Schedule
begin

text \<open>
  A user's settings (\<open>api/routes/config.py\<close>) and the body of their PATCH (\<open>ConfigPatch\<close> of
  \<open>api/schemas.py\<close>). A field of the body is absent, null or given. The two readings of the
  clock a PATCH may make are taken before its transaction.
\<close>

section \<open>The body\<close>

datatype 'a patch_field = Absent | Null | Given 'a

record config_patch =
  cp_fiat :: "string patch_field"
  cp_invest_cash_enabled :: "bool patch_field"
  cp_cash_rebalance_enabled :: "bool patch_field"
  cp_auto_rebalance_enabled :: "bool patch_field"
  cp_paused :: "bool patch_field"
  cp_min_drift_pct :: "dec patch_field"
  cp_min_order_fiat :: "dec patch_field"
  cp_invest_cadence_mode :: "cadence_mode patch_field"
  cp_invest_interval_days :: "int patch_field"
  cp_invest_interval_months :: "int patch_field"
  cp_invest_cadence_anchor :: "datetime patch_field"
  cp_rebalance_cadence_mode :: "cadence_mode patch_field"
  cp_rebalance_interval_days :: "int patch_field"
  cp_rebalance_interval_months :: "int patch_field"
  cp_rebalance_cadence_anchor :: "datetime patch_field"
  cp_onboarded :: "bool patch_field"

fun given :: "('a \<Rightarrow> bool) \<Rightarrow> 'a patch_field \<Rightarrow> bool" where
  "given P (Given x) = P x"
| "given P _ = True"

text \<open>A decimal in a range, with at most so many places.\<close>

definition decimal_within :: "dec \<Rightarrow> int \<Rightarrow> dec \<Rightarrow> bool" where
  "decimal_within limit places x \<longleftrightarrow> 0 \<le> x \<and> x \<le> limit \<and> on_grid places x"

definition int_within :: "int \<Rightarrow> int \<Rightarrow> bool" where
  "int_within limit n \<longleftrightarrow> 0 \<le> n \<and> n \<le> limit"

text \<open>The fields whose value the schema refuses, and those cleared that may not be.\<close>

definition bad_fields :: "config_patch \<Rightarrow> string list" where
  "bad_fields p = map fst (filter (\<lambda>(name, ok). \<not> ok)
     [(''min_drift_pct'', given (decimal_within 100 1) (cp_min_drift_pct p)),
      (''min_order_fiat'', given (decimal_within (9999999999 / 10) 1) (cp_min_order_fiat p)),
      (''invest_interval_days'', given (int_within 3650) (cp_invest_interval_days p)),
      (''invest_interval_months'', given (int_within 120) (cp_invest_interval_months p)),
      (''rebalance_interval_days'', given (int_within 3650) (cp_rebalance_interval_days p)),
      (''rebalance_interval_months'', given (int_within 120) (cp_rebalance_interval_months p)),
      (''onboarded'', given (\<lambda>b. b) (cp_onboarded p))])"

definition cleared_fields :: "config_patch \<Rightarrow> string list" where
  "cleared_fields p = map fst (filter (\<lambda>(name, cleared). cleared)
     [(''invest_cash_enabled'', cp_invest_cash_enabled p = Null),
      (''cash_rebalance_enabled'', cp_cash_rebalance_enabled p = Null),
      (''auto_rebalance_enabled'', cp_auto_rebalance_enabled p = Null),
      (''paused'', cp_paused p = Null),
      (''min_drift_pct'', cp_min_drift_pct p = Null),
      (''min_order_fiat'', cp_min_order_fiat p = Null),
      (''invest_cadence_mode'', cp_invest_cadence_mode p = Null),
      (''rebalance_cadence_mode'', cp_rebalance_cadence_mode p = Null)])"

definition validated :: "config_patch \<Rightarrow> config_patch result" where
  "validated p =
     (if bad_fields p \<noteq> [] then Inl (HTTPException 422 (Field_detail (bad_fields p)))
      else if cleared_fields p \<noteq> [] then Inl (HTTPException 422 (Field_detail (cleared_fields p)))
      else Inr p)"

lemma validated_Inr: "validated p = Inr q \<longleftrightarrow> q = p \<and> bad_fields p = [] \<and> cleared_fields p = []"
  by (auto simp: validated_def)

section \<open>The changes of a body\<close>

text \<open>\<open>body.model_dump(exclude_unset=True)\<close> without \<open>fiat\<close> and \<open>onboarded\<close>: the names and what they set.\<close>

fun value_of :: "string \<Rightarrow> ('a \<Rightarrow> setting) \<Rightarrow> 'a patch_field \<Rightarrow> (string \<times> setting) list" where
  "value_of name f (Given x) = [(name, f x)]"
| "value_of name f _ = []"

fun option_of :: "string \<Rightarrow> ('a option \<Rightarrow> setting) \<Rightarrow> 'a patch_field \<Rightarrow> (string \<times> setting) list" where
  "option_of name f Absent = []"
| "option_of name f Null = [(name, f None)]"
| "option_of name f (Given x) = [(name, f (Some x))]"

definition changes_of :: "config_patch \<Rightarrow> (string \<times> setting) list" where
  "changes_of p =
     value_of ''invest_cash_enabled'' Set_invest_cash_enabled (cp_invest_cash_enabled p) @
     value_of ''cash_rebalance_enabled'' Set_cash_rebalance_enabled (cp_cash_rebalance_enabled p) @
     value_of ''auto_rebalance_enabled'' Set_auto_rebalance_enabled (cp_auto_rebalance_enabled p) @
     value_of ''paused'' Set_paused (cp_paused p) @
     value_of ''min_drift_pct'' Set_min_drift_pct (cp_min_drift_pct p) @
     value_of ''min_order_fiat'' Set_min_order_fiat (cp_min_order_fiat p) @
     value_of ''invest_cadence_mode'' Set_invest_cadence_mode (cp_invest_cadence_mode p) @
     option_of ''invest_interval_days'' Set_invest_interval_days (cp_invest_interval_days p) @
     option_of ''invest_interval_months'' Set_invest_interval_months (cp_invest_interval_months p) @
     option_of ''invest_cadence_anchor'' Set_invest_cadence_anchor (cp_invest_cadence_anchor p) @
     value_of ''rebalance_cadence_mode'' Set_rebalance_cadence_mode (cp_rebalance_cadence_mode p) @
     option_of ''rebalance_interval_days'' Set_rebalance_interval_days (cp_rebalance_interval_days p) @
     option_of ''rebalance_interval_months'' Set_rebalance_interval_months (cp_rebalance_interval_months p) @
     option_of ''rebalance_cadence_anchor'' Set_rebalance_cadence_anchor (cp_rebalance_cadence_anchor p)"

section \<open>The cadences\<close>

definition run_name :: "run \<Rightarrow> string" where
  "run_name k = (if k = INVEST_RUN then ''invest'' else ''rebalance'')"

definition cadence_problem :: "run \<Rightarrow> cadence \<Rightarrow> string option" where
  "cadence_problem k c =
     (if cad_mode c \<noteq> INTERVAL then None
      else let days = (case cad_interval_days c of None \<Rightarrow> 0 | Some n \<Rightarrow> n);
               months = (case cad_interval_months c of None \<Rightarrow> 0 | Some n \<Rightarrow> n)
           in if days + months = 0
              then Some (''an INTERVAL '' @ run_name k @ '' cadence needs interval_days or interval_months'')
              else if cad_anchor c = None
              then Some (''an INTERVAL '' @ run_name k @ '' cadence needs a cadence_anchor'')
              else None)"

text \<open>\<open>_merged\<close>: the cadences as the row has them, under what the body gives.\<close>

fun cadence_setting :: "setting \<Rightarrow> bool" where
  "cadence_setting (Set_min_drift_pct x) = False"
| "cadence_setting (Set_min_order_fiat x) = False"
| "cadence_setting _ = True"

definition merged :: "settings_row \<Rightarrow> (string \<times> setting) list \<Rightarrow> run \<Rightarrow> cadence" where
  "merged s changes k =
     (case set_fields (filter cadence_setting (map snd changes)) s of
        Inl _ \<Rightarrow> run_cadence k s
      | Inr s' \<Rightarrow> run_cadence k s')"

section \<open>The routes\<close>

definition read_config :: "env \<Rightarrow> app_context \<Rightarrow> http_request \<Rightarrow> settings_row io" where
  "read_config e cx rq =
     bind (current_user e cx rq) (\<lambda>user.
     bind (transaction e (get_settings (u_id user))) (\<lambda>settings. case settings of
       None \<Rightarrow> throw (HTTPException 404 (Detail ''no settings yet; PATCH /api/config with a fiat to create them''))
     | Some s \<Rightarrow> ret s))"

text \<open>The row a PATCH works on, and whether it was created.\<close>

definition chosen_fiat :: "config_patch \<Rightarrow> string option" where
  "chosen_fiat p = (case cp_fiat p of Given f \<Rightarrow> Some (upper (strip f)) | _ \<Rightarrow> None)"

definition settings_for_patch :: "uuid \<Rightarrow> string option \<Rightarrow> (settings_row \<times> bool) tx" where
  "settings_for_patch user fiat =
     bind (get_settings user) (\<lambda>settings. case settings of
       None \<Rightarrow>
         (case fiat of
            None \<Rightarrow> throw (HTTPException 409 (Detail ''the first PATCH /api/config must choose a fiat''))
          | Some f \<Rightarrow>
              if f \<notin> set SUPPORTED_FIATS
              then throw (HTTPException 422 (Detail ''supported fiats are AUD, CAD, CHF, EUR, GBP, JPY, USD''))
              else bind (create_settings user f) (\<lambda>s. ret (s, True)))
     | Some s \<Rightarrow>
         if fiat \<noteq> None \<and> fiat \<noteq> Some (st_fiat s)
         then throw (HTTPException 422 (Detail ''the fiat cannot be changed''))
         else ret (s, False))"

text \<open>An update that leaves the row, which is there, and gives it back.\<close>

definition updated :: "uuid \<Rightarrow> setting list \<Rightarrow> settings_row \<Rightarrow> settings_row tx" where
  "updated user changes s =
     (if changes = [] then ret s
      else bind (update_settings user changes) (\<lambda>row. case row of None \<Rightarrow> throw AttributeError | Some s' \<Rightarrow> ret s'))"

definition patch_tx ::
  "uuid \<Rightarrow> config_patch \<Rightarrow> scheduler_config \<Rightarrow> datetime \<Rightarrow> datetime \<Rightarrow> settings_row tx" where
  "patch_tx user p config moment later =
     bind (settings_for_patch user (chosen_fiat p)) (\<lambda>(s, created).
       let changes = changes_of p in
       seq (for_each [INVEST_RUN, REBALANCE_RUN] (\<lambda>k. case cadence_problem k (merged s changes k) of
              None \<Rightarrow> ret () | Some problem \<Rightarrow> throw (HTTPException 422 (Detail problem))))
       (bind (updated user (map snd changes) s) (\<lambda>s1.
        bind (lift_result (rescheduled user s1
                (if created then SOURCES INVEST_RUN @ SOURCES REBALANCE_RUN else map fst changes) moment config)) (\<lambda>moves.
        bind (updated user moves s1) (\<lambda>s2.
        updated user (if cp_onboarded p = Given True \<and> st_onboarded_at s2 = None
                      then [Set_onboarded_at (Some later)] else []) s2)))))"

definition patch_config :: "env \<Rightarrow> app_context \<Rightarrow> http_request \<Rightarrow> config_patch \<Rightarrow> settings_row io" where
  "patch_config e cx rq body =
     bind (current_user e cx rq) (\<lambda>user.
       case validated body of
         Inl exc \<Rightarrow> throw exc
       | Inr p \<Rightarrow>
           bind (now e) (\<lambda>moment.
           bind (now e) (\<lambda>later.
           transaction e (patch_tx (u_id user) p (cf_scheduler (cx_config cx)) moment later))))"

end
