(* ===== verification/Api_Assets.thy ===== *)
theory Api_Assets
  imports Api
begin

text \<open>
  The target weights (\<open>api/routes/assets.py\<close>): an asset is accepted only when Kraken trades it
  against the fiat, and only while the weights sum to 100 at most. The text of a refused sum is written without the
  trailing zeros Python may keep.
\<close>

record asset_out =
  asn_asset :: string
  asn_pair :: string
  asn_target_pct :: dec
  asn_kraken_min_fiat :: "string option"

record assets_out =
  aso_assets :: "asset_out list"
  aso_cash_target_pct :: dec

definition kraken_down :: exn where
  "kraken_down = HTTPException 503 (Detail ''kraken could not be reached; nothing was changed'')"

text \<open>\<open>_minimums\<close>: per pair, empty when Kraken cannot be read.\<close>

definition minimums :: "env \<Rightarrow> string list \<Rightarrow> dec dict io" where
  "minimums e pairs =
     (if pairs = [] then ret []
      else bind (catalog_pairs e) (\<lambda>metas.
           bind (ticker (kraken e None) (sort (remdups pairs))) (\<lambda>prices. ret
             (case (metas, prices) of
                (Some ms, Some ps) \<Rightarrow> dict_of (List.map_filter (\<lambda>pair.
                  case (map_of ms pair, map_of ps pair) of
                    (Some meta, Some price) \<Rightarrow> Some (pair, minimum_fiat meta price) | _ \<Rightarrow> None) pairs)
              | _ \<Rightarrow> []))))"

definition list_assets_route :: "env \<Rightarrow> app_context \<Rightarrow> http_request \<Rightarrow> assets_out io" where
  "list_assets_route e cx rq =
     bind (current_user e cx rq) (\<lambda>user.
     bind (transaction e (list_assets (u_id user))) (\<lambda>rows.
     bind (minimums e (map as_pair rows)) (\<lambda>mins. ret
       \<lparr>aso_assets = map (\<lambda>row. \<lparr>asn_asset = as_asset row, asn_pair = as_pair row, asn_target_pct = as_target_pct row,
          asn_kraken_min_fiat = map_option plain_amount (map_of mins (as_pair row))\<rparr>) rows,
        aso_cash_target_pct = dsub HUNDRED (dsum (map as_target_pct rows))\<rparr>)))"

text \<open>The asset and its pair, or why it is refused; nothing was written yet.\<close>

definition resolve_asset :: "env \<Rightarrow> string \<Rightarrow> string \<Rightarrow> (string \<times> string) io" where
  "resolve_asset e fiat asset =
     bind (catalog_names e) (\<lambda>listed. case listed of
       None \<Rightarrow> throw kraken_down
     | Some names \<Rightarrow>
         (case short_name asset names of
            None \<Rightarrow> throw (HTTPException 422 (Detail (''kraken lists no asset called '' @ asset)))
          | Some code \<Rightarrow>
              if code = fiat then throw (HTTPException 422 (Detail ''the fiat is the cash target; it cannot also be an asset''))
              else bind (catalog_pairs e) (\<lambda>found. case found of
                     None \<Rightarrow> throw kraken_down
                   | Some pairs \<Rightarrow>
                       (case resolve_pair code fiat names pairs of
                          None \<Rightarrow> throw (HTTPException 422 (Detail (''kraken has no tradable '' @ code @ ''/'' @ fiat @ '' pair'')))
                        | Some meta \<Rightarrow> ret (code, pm_pair meta)))))"

text \<open>The sum check and the write, which the lock of the settings row serialises.\<close>

definition put_tx :: "uuid \<Rightarrow> string \<Rightarrow> string \<Rightarrow> dec \<Rightarrow> unit tx" where
  "put_tx user code pair pct =
     bind (list_assets user) (\<lambda>rows.
       let others = dsum (map as_target_pct (filter (\<lambda>row. as_asset row \<noteq> code) rows)) in
       if HUNDRED < dadd others pct
       then throw (HTTPException 422 (Detail (''the weights would sum to '' @ plain_amount (dadd others pct) @ ''; the limit is 100'')))
       else upsert_asset user code pair pct)"

text \<open>\<open>AssetIn\<close>: a percentage with two decimals at most.\<close>

definition pct_ok :: "dec \<Rightarrow> bool" where
  "pct_ok pct \<longleftrightarrow> 0 \<le> pct \<and> pct \<le> 100 \<and> on_grid 2 pct"

definition put_asset :: "env \<Rightarrow> app_context \<Rightarrow> http_request \<Rightarrow> string \<Rightarrow> dec \<Rightarrow> asset_out io" where
  "put_asset e cx rq asset pct =
     bind (current_user e cx rq) (\<lambda>user.
       if \<not> pct_ok pct then throw (HTTPException 422 (Field_detail [''target_pct'']))
       else bind (transaction e (get_settings (u_id user))) (\<lambda>settings. case settings of
         None \<Rightarrow> throw (HTTPException 409 (Detail ''choose a fiat with PATCH /api/config first''))
       | Some s \<Rightarrow>
           bind (resolve_asset e (st_fiat s) asset) (\<lambda>(code, pair).
           seq (transaction e (put_tx (u_id user) code pair pct))
             (ret \<lparr>asn_asset = code, asn_pair = pair, asn_target_pct = pct, asn_kraken_min_fiat = None\<rparr>))))"

definition delete_asset_route :: "env \<Rightarrow> app_context \<Rightarrow> http_request \<Rightarrow> string \<Rightarrow> unit io" where
  "delete_asset_route e cx rq asset =
     bind (current_user e cx rq) (\<lambda>user.
     bind (catalog_names e) (\<lambda>names.
       let code = (case Option.bind names (short_name asset) of None \<Rightarrow> upper (strip asset)
                   | Some c \<Rightarrow> if c = [] then upper (strip asset) else c)
       in bind (transaction e (delete_asset (u_id user) code)) (\<lambda>found.
            if found then ret () else throw (HTTPException 404 (Detail ''that asset has no weight'')))))"

end
