(* ===== verification/Api_Accounts.thy ===== *)
theory Api_Accounts
  imports Api
begin

text \<open>
  A user's Kraken key (\<open>api/routes/credentials.py\<close>), portfolio (\<open>api/routes/portfolio.py\<close>) and
  history (\<open>api/routes/history.py\<close>). A listed order or evaluation is its row; the response
  models copy the fields they name.
\<close>

section \<open>api/routes/credentials.py\<close>

record key_accepted =
  ka_validated_at :: datetime
  ka_permissions :: "string list"
  ka_ip_allowlist :: "string list"
  ka_unnecessary :: "string list"

record credential_status =
  cs_registered :: bool
  cs_validated_at :: "datetime option"
  cs_key_version :: "int option"

text \<open>\<open>CredentialsIn\<close>: whitespace goes wherever it is, and what is left has a length.\<close>

definition without_whitespace :: "string \<Rightarrow> string" where
  "without_whitespace s = filter (\<lambda>c. \<not> is_space c) s"

definition length_within :: "nat \<Rightarrow> string \<Rightarrow> bool" where
  "length_within n s \<longleftrightarrow> 1 \<le> length s \<and> length s \<le> n"

definition credentials_in :: "string \<Rightarrow> string \<Rightarrow> credentials result" where
  "credentials_in key secret =
     (let k = without_whitespace key; s = without_whitespace secret;
          bad = (if length_within 256 k then [] else [''api_key'']) @ (if length_within 512 s then [] else [''api_secret''])
      in if bad = [] then Inr \<lparr>api_key = k, api_secret = s\<rparr> else Inl (HTTPException 422 (Field_detail bad)))"

fun rejection_name :: "key_rejection \<Rightarrow> string" where
  "rejection_name FORBIDDEN_PERMISSIONS = ''FORBIDDEN_PERMISSIONS''"
| "rejection_name INVALID_KEY = ''INVALID_KEY''"
| "rejection_name LOCKED_OUT = ''LOCKED_OUT''"
| "rejection_name MISSING_PERMISSIONS = ''MISSING_PERMISSIONS''"
| "rejection_name UNREACHABLE = ''UNREACHABLE''"

text \<open>What a validation that is not an acceptance answers.\<close>

definition refused_key :: "key_validation \<Rightarrow> exn option" where
  "refused_key r =
     (if kv_rejection r = Some UNREACHABLE
      then Some (HTTPException 503 (Detail ''kraken could not be reached; the key was not stored''))
      else if kv_rejection r = Some LOCKED_OUT
      then Some (HTTPException 429 (Detail (''kraken has locked the account out after repeated invalid keys; wait a few '' @
             ''minutes before trying again, since every attempt restarts the lockout'')))
      else if \<not> kv_accepted r
      then (case kv_rejection r of
              None \<Rightarrow> Some AttributeError
            | Some why \<Rightarrow> Some (HTTPException 422 (Key_detail (rejection_name why) (kv_missing r) (kv_forbidden r) (kv_unnecessary r))))
      else None)"

definition register :: "env \<Rightarrow> app_context \<Rightarrow> http_request \<Rightarrow> string \<Rightarrow> string \<Rightarrow> key_accepted io" where
  "register e cx rq key secret =
     bind (current_user e cx rq) (\<lambda>user.
     bind (lift_result (credentials_in key secret)) (\<lambda>creds.
     bind (validate_key (kraken e (Some creds))) (\<lambda>result. case refused_key result of
       Some exc \<Rightarrow> throw exc
     | None \<Rightarrow>
         bind (fresh e) (\<lambda>random.
         bind (lift_result (seal (cx_aead cx) (cx_cipher cx) (cx_nonce cx random) (u_id user) creds)) (\<lambda>s.
         bind (now e) (\<lambda>validated_at.
         seq (transaction e (save_credentials (u_id user) s validated_at))
           (ret \<lparr>ka_validated_at = validated_at, ka_permissions = kv_permissions result,
                 ka_ip_allowlist = kv_ip_allowlist result, ka_unnecessary = kv_unnecessary result\<rparr>)))))))"

definition remove_key :: "env \<Rightarrow> app_context \<Rightarrow> http_request \<Rightarrow> unit io" where
  "remove_key e cx rq =
     bind (current_user e cx rq) (\<lambda>user.
     bind (transaction e (delete_credentials (u_id user))) (\<lambda>found.
       if found then ret () else throw (HTTPException 404 (Detail ''no key is registered''))))"

definition key_status :: "env \<Rightarrow> app_context \<Rightarrow> http_request \<Rightarrow> credential_status io" where
  "key_status e cx rq =
     bind (current_user e cx rq) (\<lambda>user.
     bind (transaction e (get_credentials (u_id user))) (\<lambda>record. ret
       (case record of
          None \<Rightarrow> \<lparr>cs_registered = False, cs_validated_at = None, cs_key_version = None\<rparr>
        | Some row \<Rightarrow> \<lparr>cs_registered = True, cs_validated_at = Some (cr_validated_at row),
            cs_key_version = Some (key_version (cr_sealed row))\<rparr>)))"

section \<open>api/routes/portfolio.py\<close>

record portfolio_out =
  po_as_of :: datetime
  po_fiat :: string
  po_total_value :: string
  po_cash :: string
  po_cash_target_pct :: json
  po_cash_weight_pct :: json
  po_holdings :: "(string \<times> json) list"

text \<open>The order of the stored holdings: managed, then unmanaged, then locked, by asset in each.\<close>

definition holding_key :: "string \<times> json \<Rightarrow> bool \<times> bool \<times> string" where
  "holding_key h = (field (snd h) ''locked'' = JBool True, field (snd h) ''managed'' \<noteq> JBool True, fst h)"

definition stored_holdings :: "json \<Rightarrow> (string \<times> json) list" where
  "stored_holdings stored = (case field stored ''assets'' of JObj kvs \<Rightarrow> kvs | _ \<Rightarrow> [])"

definition portfolio_answer :: "datetime \<Rightarrow> string \<Rightarrow> dec \<Rightarrow> dec \<Rightarrow> json \<Rightarrow> portfolio_out" where
  "portfolio_answer as_of fiat tv cash stored =
     \<lparr>po_as_of = as_of, po_fiat = fiat, po_total_value = plain_amount tv, po_cash = plain_amount cash,
      po_cash_target_pct = field stored ''cash_target_pct'', po_cash_weight_pct = field stored ''cash_weight_pct'',
      po_holdings = sort_key holding_key (stored_holdings stored)\<rparr>"

definition read_portfolio_route :: "env \<Rightarrow> app_context \<Rightarrow> http_request \<Rightarrow> portfolio_out io" where
  "read_portfolio_route e cx rq =
     bind (current_user e cx rq) (\<lambda>user.
     bind (transaction e (latest_snapshot (u_id user))) (\<lambda>snapshot. case snapshot of
       None \<Rightarrow> throw (HTTPException 404 (Detail ''no snapshot yet; POST /api/portfolio/refresh to take one''))
     | Some row \<Rightarrow> ret (portfolio_answer (sn_as_of row) (sn_fiat row) (sn_total_value row) (sn_cash row) (sn_holdings row))))"

definition refresh_portfolio :: "env \<Rightarrow> app_context \<Rightarrow> http_request \<Rightarrow> portfolio_out io" where
  "refresh_portfolio e cx rq =
     bind (current_user e cx rq) (\<lambda>user.
     bind (transaction e (get_settings (u_id user))) (\<lambda>settings. case settings of
       None \<Rightarrow> throw (HTTPException 409 (Detail ''choose a fiat with PATCH /api/config first''))
     | Some s \<Rightarrow>
         bind (transaction e (get_credentials (u_id user))) (\<lambda>record. case record of
           None \<Rightarrow> throw (HTTPException 409 (Detail ''register a Kraken key with POST /api/credentials first''))
         | Some row \<Rightarrow>
             bind (lift_result (case env_unseal e (u_id user) (cr_sealed row) of
                     Inl CredentialsUnreadable \<Rightarrow>
                       Inl (HTTPException 500 (Detail ''the stored key cannot be read; register it again''))
                   | r \<Rightarrow> r)) (\<lambda>creds.
             bind (transaction e (list_assets (u_id user))) (\<lambda>rows.
             bind (try_except
                (read_portfolio (market e) (kraken e (Some creds)) (st_fiat s)
                  (map (\<lambda>row. \<lparr>ca_asset = as_asset row, ca_pair = as_pair row, ca_target_pct = as_target_pct row\<rparr>) rows))
                (\<lambda>exc. case exc of
                   PortfolioUnavailable what \<Rightarrow>
                     Some (throw (HTTPException 503 (Detail (''kraken did not return '' @ what @ ''; nothing was recorded''))))
                 | _ \<Rightarrow> None)) (\<lambda>view.
             bind (now e) (\<lambda>t.
             bind (fresh e) (\<lambda>new_id.
             bind (lift_result (snapshot_json view)) (\<lambda>holdings.
             bind (transaction e (keep_snapshot new_id (u_id user) t (st_fiat s) (pv_managed_value view) (pv_cash view) holdings)) (\<lambda>_.
             ret (portfolio_answer t (st_fiat s) (pv_managed_value view) (pv_cash view) holdings)))))))))))"

section \<open>api/routes/history.py\<close>

definition limit_ok :: "nat \<Rightarrow> bool" where
  "limit_ok n \<longleftrightarrow> 1 \<le> n \<and> n \<le> 200"

definition orders_route :: "env \<Rightarrow> app_context \<Rightarrow> http_request \<Rightarrow> nat \<Rightarrow> uuid option \<Rightarrow> order_row list io" where
  "orders_route e cx rq limit session_id =
     bind (current_user e cx rq) (\<lambda>user.
       if \<not> limit_ok limit then throw (HTTPException 422 (Field_detail [''limit'']))
       else transaction e (list_orders (u_id user) limit session_id))"

definition sessions_route :: "env \<Rightarrow> app_context \<Rightarrow> http_request \<Rightarrow> nat \<Rightarrow> uuid option \<Rightarrow> evaluation_row list io" where
  "sessions_route e cx rq limit before =
     bind (current_user e cx rq) (\<lambda>user.
       if \<not> limit_ok limit then throw (HTTPException 422 (Field_detail [''limit'']))
       else try_except (transaction e (list_evaluations (u_id user) limit False before))
         (\<lambda>exc. case exc of
            LookupError \<Rightarrow> Some (throw (HTTPException 404 (Detail ''that session no longer exists'')))
          | _ \<Rightarrow> None))"

end
