(* ===== verification/Api_Auth.thy ===== *)
theory Api_Auth
  imports Api Refresh
begin

text \<open>
  Sign-in, its refresh and its end (\<open>api/routes/auth.py\<close>). A refusal that must keep what was
  written on the way to it, such as the revocation of a family, is a value and not an
  exception. What a response sets or deletes of the two session cookies is part of it.
\<close>

section \<open>The answers\<close>

definition PROVIDER :: string where "PROVIDER = ''google''"
definition LOGIN_COOKIE :: string where "LOGIN_COOKIE = ''coinpilot_login''"
definition REFRESH_COOKIE :: string where "REFRESH_COOKIE = ''coinpilot_refresh''"
definition START_AGAIN :: string where
  "START_AGAIN = ''the login expired or was not started here; start again''"

text \<open>\<open>_set_session\<close>: the two cookies with their ages, in seconds.\<close>

record session_cookies =
  se_access :: string
  se_access_max_age :: int
  se_refresh :: string
  se_refresh_max_age :: int

definition set_session :: "app_context \<Rightarrow> datetime \<Rightarrow> issued_token \<Rightarrow> issued_refresh \<Rightarrow> session_cookies" where
  "set_session cx t access refresh =
     \<lparr>se_access = it_value access, se_access_max_age = whole_seconds (cf_jwt_ttl (cx_config cx)),
      se_refresh = ir_value refresh, se_refresh_max_age = whole_seconds (ir_expires_at refresh - t)\<rparr>"

datatype callback_reply = Login_refused string | Signed_in session_cookies

record token_pair =
  tp_access_token :: string
  tp_expires_at :: datetime
  tp_refresh_token :: string
  tp_refresh_expires_at :: datetime

datatype refresh_reply = Signed_out int string | Refreshed token_pair session_cookies

fun refresh_failure_value :: "refresh_failure \<Rightarrow> string" where
  "refresh_failure_value UNKNOWN_TOKEN = ''unknown''"
| "refresh_failure_value EXPIRED = ''expired''"
| "refresh_failure_value REVOKED = ''revoked''"
| "refresh_failure_value REUSED = ''reused''"

section \<open>The routes\<close>

definition presented_refresh :: "http_request \<Rightarrow> string option" where
  "presented_refresh rq =
     (case rq_refresh_token rq of Some v \<Rightarrow> Some v | None \<Rightarrow> map_of (rq_cookies rq) REFRESH_COOKIE)"

text \<open>The page a login is sent to and the login state's cookie, for a state and a verifier drawn at random.\<close>

definition login :: "env \<Rightarrow> app_context \<Rightarrow> string \<Rightarrow> (string \<times> string) io" where
  "login e cx provider =
     (if provider \<noteq> PROVIDER then throw (HTTPException 404 (Detail ''unknown provider''))
      else bind (fresh e) (\<lambda>u.
           bind (fresh e) (\<lambda>v.
           let started = new_login (cx_token cx) u v in
           bind (now e) (\<lambda>t. ret
             (authorization_url (cx_sha256 cx) (cf_google (cx_config cx)) started,
              issue_login_state (cx_jwt cx) (cx_signer cx) t started)))))"

text \<open>The identity behind a callback, or the reason to start again.\<close>

definition callback_identity ::
  "env \<Rightarrow> app_context \<Rightarrow> http_request \<Rightarrow> string option \<Rightarrow> string option \<Rightarrow> string option \<Rightarrow> (string + google_identity) io" where
  "callback_identity e cx rq code state error =
     (if error \<noteq> None \<and> error \<noteq> Some [] then ret (Inl ''google did not grant the login'')
      else (case (map_of (rq_cookies rq) LOGIN_COOKIE, code, state) of
              (Some cookie, Some c, Some st) \<Rightarrow>
                if cookie = [] \<or> c = [] \<or> st = [] then ret (Inl START_AGAIN)
                else bind (now e) (\<lambda>t. case verify_login_state (cx_jwt cx) (cx_signer cx) t cookie of
                       Inl (TokenInvalid why) \<Rightarrow> ret (Inl START_AGAIN)
                     | Inl exc \<Rightarrow> throw exc
                     | Inr expected \<Rightarrow>
                         if ls_state expected \<noteq> st then ret (Inl ''the login state does not match; start again'')
                         else ret (exchange_code (cx_google cx) (cf_google (cx_config cx)) c (ls_verifier expected)))
            | _ \<Rightarrow> ret (Inl START_AGAIN)))"

text \<open>The account of an identity, created at its first sign-in, and the family of a new sign-in.\<close>

definition sign_in_tx ::
  "app_context \<Rightarrow> google_identity \<Rightarrow> uuid \<Rightarrow> uuid \<Rightarrow> string \<Rightarrow> datetime \<Rightarrow> (user_row \<times> issued_refresh) option tx" where
  "sign_in_tx cx identity new_user new_family new_value t =
     bind (get_user_by_identity PROVIDER (gi_subject identity)) (\<lambda>found.
     bind (case found of
             Some user \<Rightarrow> ret user
           | None \<Rightarrow> create_user new_user PROVIDER (gi_subject identity) (gi_email identity)) (\<lambda>user.
       if u_status user \<noteq> ACTIVE then ret None
       else bind (start_family (cx_hash cx) new_value new_family (u_id user) t (cf_refresh_ttl (cx_config cx))) (\<lambda>refresh.
            ret (Some (user, refresh)))))"

definition callback ::
  "env \<Rightarrow> app_context \<Rightarrow> http_request \<Rightarrow> string \<Rightarrow> string option \<Rightarrow> string option \<Rightarrow> string option \<Rightarrow> callback_reply io" where
  "callback e cx rq provider code state error =
     (if provider \<noteq> PROVIDER then throw (HTTPException 404 (Detail ''unknown provider''))
      else bind (callback_identity e cx rq code state error) (\<lambda>answer. case answer of
        Inl why \<Rightarrow> ret (Login_refused why)
      | Inr identity \<Rightarrow>
          bind (fresh e) (\<lambda>new_user.
          bind (fresh e) (\<lambda>new_family.
          bind (fresh e) (\<lambda>random.
          bind (now e) (\<lambda>t.
          bind (transaction e (sign_in_tx cx identity new_user new_family (cx_token cx REFRESH_TOKEN_BYTES random) t)) (\<lambda>signed. case signed of
            None \<Rightarrow> ret (Login_refused ''this account is disabled'')
          | Some (user, refresh) \<Rightarrow>
              bind (now e) (\<lambda>t2.
              bind (now e) (\<lambda>t3.
              ret (Signed_in (set_session cx t3 (issue_token (cx_jwt cx) (cx_signer cx) t2 (u_id user)) refresh)))))))))))"

text \<open>The transaction of a refresh: a pair for the user, or the status and the reason to sign in again.\<close>

definition refresh_tx :: "app_context \<Rightarrow> string \<Rightarrow> string \<Rightarrow> datetime \<Rightarrow> ((int \<times> string) + issued_refresh) tx" where
  "refresh_tx cx new_value presented t =
     bind (rotate (cx_hash cx) new_value presented t) (\<lambda>outcome. case outcome of
       Inl failure \<Rightarrow> ret (Inl (401, ''the refresh token is '' @ refresh_failure_value failure @ ''; sign in again''))
     | Inr refresh \<Rightarrow>
         bind (get_user (ir_user refresh)) (\<lambda>user.
           if (case user of None \<Rightarrow> True | Some u \<Rightarrow> u_status u \<noteq> ACTIVE)
           then bind (revoke_family (ir_family refresh) t) (\<lambda>_. ret (Inl (403, ''this account is disabled'')))
           else ret (Inr refresh)))"

definition refresh_route :: "env \<Rightarrow> app_context \<Rightarrow> http_request \<Rightarrow> refresh_reply io" where
  "refresh_route e cx rq =
     (case presented_refresh rq of
        None \<Rightarrow> ret (Signed_out 401 ''no refresh token'')
      | Some presented \<Rightarrow>
          bind (now e) (\<lambda>t.
          bind (fresh e) (\<lambda>random.
          bind (transaction e (refresh_tx cx (cx_token cx REFRESH_TOKEN_BYTES random) presented t)) (\<lambda>outcome. case outcome of
            Inl (code, why) \<Rightarrow> ret (Signed_out code why)
          | Inr refresh \<Rightarrow>
              bind (now e) (\<lambda>t2.
              bind (now e) (\<lambda>t3.
                let access = issue_token (cx_jwt cx) (cx_signer cx) t2 (ir_user refresh) in
                ret (Refreshed \<lparr>tp_access_token = it_value access, tp_expires_at = it_expires_at access,
                       tp_refresh_token = ir_value refresh, tp_refresh_expires_at = ir_expires_at refresh\<rparr>
                     (set_session cx t3 access refresh)))))))) "

definition logout :: "env \<Rightarrow> app_context \<Rightarrow> http_request \<Rightarrow> unit io" where
  "logout e cx rq =
     (case presented_refresh rq of
        None \<Rightarrow> ret ()
      | Some presented \<Rightarrow>
          bind (now e) (\<lambda>t. bind (transaction e (revoke (cx_hash cx) presented t)) (\<lambda>_. ret ())))"

definition me :: "env \<Rightarrow> app_context \<Rightarrow> http_request \<Rightarrow> user_row io" where
  "me e cx rq = current_user e cx rq"

end
