(* ===== verification/Application.thy ===== *)
theory Application
  imports Executor Api_Config Api_Assets Api_Accounts Api_Auth
begin

text \<open>
  Every route of the API, and the rotation of the master key, under the invariants of the
  service: an invariant of the service is one of the whole application once the transactions
  on the accounts keep it. One that looks at none of the tables of the accounts does.
\<close>

section \<open>What the routes share\<close>

context transacting_invariant
begin

lemma safe_users [safe_intros]:
  "safe (get_user u)" "safe (get_user_by_identity p s)" "safe (latest_snapshot u)" "safe (list_orders u n i)"
  "safe (list_evaluations u n idle b)" "safe (credential_owners_not_at v)"
  unfolding get_user_def get_user_by_identity_def latest_snapshot_def list_orders_def list_evaluations_def
    credential_owners_not_at_def Let_def
  by (intro safe_intros)+

lemma keeps_current_user [keeps_intros]: "keeps holds (current_user e cx rq)"
  unfolding current_user_def by (intro keeps_intros safe_intros)

lemma keeps_evaluation_errors [keeps_intros]: "keeps holds m \<Longrightarrow> keeps holds (evaluation_errors m)"
  unfolding evaluation_errors_def by (auto intro!: keeps_intros split: exn.splits)

lemma keeps_validate_key [keeps_intros]: "keeps holds (validate_key (kraken e who))"
  unfolding validate_key_def api_key_info_def
  by (auto intro!: keeps_intros split: exn.splits sum.splits option.splits)

end

section \<open>Invariants blind to a table\<close>

text \<open>An invariant that does not look at a table survives every transaction on it.\<close>

locale account_blind_invariant = transacting_invariant +
  assumes account_tables:
    "J d tr \<Longrightarrow> J (d\<lparr>t_users := us\<rparr>) tr" "J d tr \<Longrightarrow> J (d\<lparr>t_credentials := cs\<rparr>) tr"
    "J d tr \<Longrightarrow> J (d\<lparr>t_tokens := ks\<rparr>) tr"
begin

lemma safe_tables [safe_intros]:
  "safe (modify (\<lambda>d. d\<lparr>t_users := f1 d\<rparr>))" "safe (modify (\<lambda>d. d\<lparr>t_credentials := f2 d\<rparr>))"
  "safe (modify (\<lambda>d. d\<lparr>t_tokens := f3 d\<rparr>))"
  by (intro safe_modify account_tables, assumption)+

lemma safe_credentials: "safe (save_credentials u s t)" "safe (delete_credentials u)" "safe (reseal ae c n u)"
  unfolding save_credentials_def delete_credentials_def reseal_def
  by (auto intro!: safe_intros split: sum.splits)

lemma safe_families: "safe (revoke_family f t)" "safe (start_family h v f u t ttl)" "safe (rotate h v s t)" "safe (revoke h s t)"
  "safe (delete_expired_refresh_tokens t)"
  unfolding revoke_def rotate_def start_family_def revoke_family_def issue_def add_refresh_token_def
    get_refresh_token_for_update_def mark_refresh_token_used_def delete_expired_refresh_tokens_def
  by (intro safe_intros)+

lemma safe_signs: "safe (sign_in_tx cx g u f v t)" "safe (refresh_tx cx v s t)"
  unfolding sign_in_tx_def refresh_tx_def create_user_def Let_def
  by (auto intro!: safe_intros safe_families split: sum.splits)

end

locale target_blind_invariant = transacting_invariant +
  assumes target_table: "J d tr \<Longrightarrow> J (d\<lparr>t_assets := ts\<rparr>) tr"
begin

lemma safe_assets: "safe (put_tx u c p x)" "safe (delete_asset u c)"
  unfolding put_tx_def upsert_asset_def delete_asset_def Let_def
  by (intro safe_intros safe_modify target_table, assumption?)+

end

locale setting_blind_invariant = transacting_invariant +
  assumes setting_table: "J d tr \<Longrightarrow> J (d\<lparr>t_settings := ss\<rparr>) tr"
begin

lemma safe_settings: "safe (update_settings u cs)" "safe (create_settings u f)"
  unfolding update_settings_def create_settings_def by (intro safe_intros safe_modify setting_table, assumption?)+

lemma safe_patch: "safe (patch_tx u p config t t')"
  unfolding patch_tx_def settings_for_patch_def updated_def Let_def
  by (auto intro!: safe_intros safe_settings split: prod.splits)

lemma safe_schedules:
  "safe (advance_tx config user k t)" "safe (count_tx user failed)" "safe (backfill t config)"
  unfolding advance_tx_def count_tx_def backfill_def Let_def
  by (auto intro!: safe_intros safe_settings split: prod.splits)

end

locale proposal_blind_invariant = transacting_invariant +
  assumes proposal_table: "J d tr \<Longrightarrow> J (d\<lparr>t_proposals := ps\<rparr>) tr"
begin

lemma safe_slot: "safe (save_proposal u doc trg v)" "safe (set_status u st)" "safe (withdraw_slot u)"
  unfolding save_proposal_def set_status_def withdraw_slot_def
  by (intro safe_intros safe_modify proposal_table, assumption?)+

lemma safe_decisions: "safe (keep_proposal u doc trg)" "safe (withdraw_tx u v)" "safe (approve_tx u v doc)" "safe (automatic_tx u)"
proof -
  show keep: "safe (keep_proposal u doc trg)" for u doc trg
    unfolding keep_proposal_def Let_def by (auto intro!: safe_intros safe_slot split: prod.splits)
  show "safe (withdraw_tx u v)" "safe (approve_tx u v doc)" "safe (automatic_tx u)"
    unfolding withdraw_tx_def approve_tx_def automatic_tx_def by (auto intro!: safe_intros safe_slot keep)
qed

end

section \<open>The application\<close>

locale application_invariant = service_invariant +
  assumes put_tx [safe_intros]: "pct_ok x \<Longrightarrow> safe (put_tx u c p x)"
    and delete_asset [safe_intros]: "safe (delete_asset u c)"
    and save_credentials [safe_intros]: "safe (save_credentials u sk t)"
    and delete_credentials [safe_intros]: "safe (delete_credentials u)"
    and reseal [safe_intros]: "safe (reseal ae ci n u)"
    and patch_tx [safe_intros]: "validated b = Inr b' \<Longrightarrow> safe (patch_tx u b' config t t')"
    and sign_in_tx [safe_intros]: "safe (sign_in_tx cx g u f v t)"
    and refresh_tx [safe_intros]: "safe (refresh_tx cx v s t)"
    and revoke [safe_intros]: "safe (revoke h s t)"
begin

lemma keeps_evaluation_routes [keeps_intros]:
  "keeps holds (invest_now e cx rq p)" "keeps holds (rebalance_route e cx rq)"
  "keeps holds (approve_proposal e cx rq v)"
  unfolding invest_now_def rebalance_route_def approve_proposal_def NO_PROPOSAL_def
  by (auto intro!: keeps_intros safe_market split: exn.splits)

lemma keeps_proposal_routes [keeps_intros]:
  "keeps holds (read_proposal e cx rq)" "keeps holds (withdraw_proposal e cx rq v)"
  unfolding read_proposal_def withdraw_proposal_def NO_PROPOSAL_def
  by (auto intro!: keeps_intros split: exn.splits)

lemma keeps_config_routes [keeps_intros]: "keeps holds (read_config e cx rq)" "keeps holds (patch_config e cx rq b)"
  unfolding read_config_def patch_config_def by (auto intro!: keeps_intros safe_intros split: sum.splits)

lemma keeps_asset_routes [keeps_intros]:
  "keeps holds (list_assets_route e cx rq)" "keeps holds (put_asset e cx rq a x)" "keeps holds (delete_asset_route e cx rq a)"
  unfolding list_assets_route_def minimums_def put_asset_def resolve_asset_def delete_asset_route_def Let_def
  by (cases "pct_ok x"; auto intro!: keeps_intros safe_intros split: prod.splits)+

lemma keeps_key_routes [keeps_intros]:
  "keeps holds (register e cx rq k s)" "keeps holds (remove_key e cx rq)" "keeps holds (key_status e cx rq)"
  unfolding register_def remove_key_def key_status_def by (auto intro!: keeps_intros safe_intros)

lemma keeps_portfolio_routes [keeps_intros]:
  "keeps holds (read_portfolio_route e cx rq)" "keeps holds (refresh_portfolio e cx rq)"
  unfolding read_portfolio_route_def refresh_portfolio_def
  by (auto intro!: keeps_intros keeps_read_portfolio safe_market safe_intros split: exn.splits)

lemma keeps_history_routes [keeps_intros]:
  "keeps holds (orders_route e cx rq n i)" "keeps holds (sessions_route e cx rq n b)"
  unfolding orders_route_def sessions_route_def by (auto intro!: keeps_intros safe_intros split: exn.splits)

lemma keeps_auth_routes [keeps_intros]:
  "keeps holds (login e cx p)" "keeps holds (callback e cx rq p c s err)" "keeps holds (refresh_route e cx rq)"
  "keeps holds (logout e cx rq)" "keeps holds (me e cx rq)"
  unfolding login_def callback_def callback_identity_def refresh_route_def logout_def me_def Let_def
  by (auto intro!: keeps_intros safe_intros split: sum.splits exn.splits prod.splits option.splits)

lemma keeps_rotation [keeps_intros]: "keeps holds (rotate_keys e ae ci nonces)"
  unfolding rotate_keys_def rotate_one_def by (auto intro!: keeps_intros safe_intros)

end

section \<open>Invariants of one table\<close>

text \<open>
  An invariant that looks only at the settings and the targets: what is left to show is that
  the transactions on those two keep it.
\<close>

locale account_invariant =
  execution_blind_invariant + proposal_blind_invariant + account_blind_invariant +
  assumes advance_tx_safe: "safe (advance_tx config user k t)"
    and count_tx_safe: "safe (count_tx user failed)"
    and backfill_safe: "safe (backfill t config)"
    and patch_tx_safe: "validated b = Inr b' \<Longrightarrow> safe (patch_tx user b' config t t')"
    and put_tx_safe: "pct_ok x \<Longrightarrow> safe (put_tx user c p x)"
    and delete_asset_safe: "safe (delete_asset user c)"

sublocale account_invariant \<subseteq> transactional_invariant
  by unfold_locales (rule safe_slot safe_decisions advance_tx_safe count_tx_safe backfill_safe safe_telemetry safe_families)+

sublocale account_invariant \<subseteq> application_invariant
  by unfold_locales (rule put_tx_safe delete_asset_safe safe_credentials patch_tx_safe safe_signs safe_families, assumption?)+

end
