(* ===== verification/Service.thy ===== *)
theory Service
  imports Ledger_Safety Application
begin

text \<open>
  The running application: any sequence of its operations, each a request some client makes of
  a route, a tick or a pass of the scheduler's loop, a start of the process or a rotation of the master key,
  under whatever the exchange, the clocks and the locks do at that step. The operations behind
  the routes are steps too, for a user a request need not have proved to be. What the ledger
  promises is proved here of every such sequence.
\<close>

inductive service_step :: "scheduler_config \<Rightarrow> world \<Rightarrow> world \<Rightarrow> bool" for config where
  step_invest: "invest e (market e) user is_preview API w = (r1, w') \<Longrightarrow> service_step config w w'"
| step_propose: "propose e (market e) user API w = (r2, w') \<Longrightarrow> service_step config w w'"
| step_approve: "approve e (market e) user version w = (r2, w') \<Longrightarrow> service_step config w w'"
| step_withdraw: "withdraw e user version w = (r3, w') \<Longrightarrow> service_step config w w'"
| step_current: "current e user w = (r4, w') \<Longrightarrow> service_step config w w'"
| step_tick: "tick e config t w = (r5, w') \<Longrightarrow> service_step config w w'"
| step_pass: "loop_pass e config w = (r5', w') \<Longrightarrow> service_step config w w'"
| step_start: "start e config w = (r6, w') \<Longrightarrow> service_step config w w'"
| route_invest: "invest_now e cx rq is_preview w = (r7, w') \<Longrightarrow> service_step config w w'"
| route_rebalance: "rebalance_route e cx rq w = (r8, w') \<Longrightarrow> service_step config w w'"
| route_approve: "approve_proposal e cx rq version w = (r8, w') \<Longrightarrow> service_step config w w'"
| route_read_proposal: "read_proposal e cx rq w = (r9, w') \<Longrightarrow> service_step config w w'"
| route_withdraw: "withdraw_proposal e cx rq version w = (r10, w') \<Longrightarrow> service_step config w w'"
| route_read_config: "read_config e cx rq w = (r11, w') \<Longrightarrow> service_step config w w'"
| route_patch_config: "patch_config e cx rq body w = (r11, w') \<Longrightarrow> service_step config w w'"
| route_list_assets: "list_assets_route e cx rq w = (r12, w') \<Longrightarrow> service_step config w w'"
| route_put_asset: "put_asset e cx rq asset pct w = (r13, w') \<Longrightarrow> service_step config w w'"
| route_delete_asset: "delete_asset_route e cx rq asset w = (r14, w') \<Longrightarrow> service_step config w w'"
| route_register: "register e cx rq key secret w = (r15, w') \<Longrightarrow> service_step config w w'"
| route_remove_key: "remove_key e cx rq w = (r14, w') \<Longrightarrow> service_step config w w'"
| route_key_status: "key_status e cx rq w = (r16, w') \<Longrightarrow> service_step config w w'"
| route_read_portfolio: "read_portfolio_route e cx rq w = (r17, w') \<Longrightarrow> service_step config w w'"
| route_refresh_portfolio: "refresh_portfolio e cx rq w = (r17, w') \<Longrightarrow> service_step config w w'"
| route_orders: "orders_route e cx rq limit session w = (r18, w') \<Longrightarrow> service_step config w w'"
| route_sessions: "sessions_route e cx rq limit session w = (r19, w') \<Longrightarrow> service_step config w w'"
| route_login: "login e cx provider w = (r20, w') \<Longrightarrow> service_step config w w'"
| route_callback: "callback e cx rq provider code state error w = (r21, w') \<Longrightarrow> service_step config w w'"
| route_refresh: "refresh_route e cx rq w = (r22, w') \<Longrightarrow> service_step config w w'"
| route_logout: "logout e cx rq w = (r14, w') \<Longrightarrow> service_step config w w'"
| route_me: "me e cx rq w = (r23, w') \<Longrightarrow> service_step config w w'"
| rotation: "rotate_keys e ae ci nonces w = (r24, w') \<Longrightarrow> service_step config w w'"

abbreviation service_steps :: "scheduler_config \<Rightarrow> world \<Rightarrow> world \<Rightarrow> bool" where
  "service_steps config \<equiv> (service_step config)\<^sup>*\<^sup>*"

context application_invariant
begin

lemma service_step_holds: "service_step config w w' \<Longrightarrow> holds w \<Longrightarrow> holds w'"
  by (induction rule: service_step.induct)
    (erule keepsD [rotated 2], (rule keeps_intros safe_market | assumption)+)+

lemma service_steps_hold: "service_steps config w w' \<Longrightarrow> holds w \<Longrightarrow> holds w'"
  by (induction rule: rtranclp_induct) (auto dest: service_step_holds)

end

text \<open>An invariant of the ledger looks at no other table.\<close>

sublocale ledger_invariant \<subseteq> account_blind_invariant "\<lambda>d. K (t_orders d)"
  by unfold_locales simp_all

sublocale ledger_invariant \<subseteq> target_blind_invariant "\<lambda>d. K (t_orders d)"
  by unfold_locales simp

sublocale ledger_invariant \<subseteq> setting_blind_invariant "\<lambda>d. K (t_orders d)"
  by unfold_locales simp

sublocale ledger_invariant \<subseteq> application_invariant "\<lambda>d. K (t_orders d)"
  by unfold_locales (rule safe_assets safe_credentials safe_patch safe_signs safe_families)+

text \<open>An investment of the sample account.\<close>

definition sample_invested :: world where
  "sample_invested = snd (invest sample_env (market sample_env) 7 False API sample_world)"

lemma sample_step: "service_steps default_scheduler_config sample_world sample_invested"
  unfolding sample_invested_def by (rule r_into_rtranclp, rule step_invest [OF surjective_pairing])

lemma sample_world_empty: "w_trace sample_world = []" "t_orders (w_db sample_world) = []"
  by (simp_all add: sample_world_def sample_db_def empty_db_def)

section \<open>The ledger only grows\<close>

interpretation ledger: ledger_invariant "\<lambda>rows tr. ledger_step before rows" for before
proof unfold_locales
  fix rows and row :: order_row assume "ledger_step before rows"
  then show more: "ledger_step before (rows @ [row])"
    using ledger_step_trans ledger_step_append [of rows rows "[row]"] by simp
  then show "ledger_step before (rows @ [row])" .
qed (auto intro: ledger_step_trans ledger_step_all2)

text \<open>
  Whatever the service does, no row of the ledger is lost or changes what it stands for,
  and no order that was resolved becomes pending again.
\<close>

theorem ledger_only_grows:
  assumes "service_steps config w w'"
  shows "ledger_step (t_orders (w_db w)) (t_orders (w_db w'))"
  using ledger.service_steps_hold [OF assms] by (simp add: ledger.holds_def)

theorem ledger_only_grows_witness:
  "ledger_step (t_orders (w_db sample_world)) (t_orders (w_db sample_invested))"
  by (rule ledger_only_grows [OF sample_step])

section \<open>Every order is written down before it leaves\<close>

definition written_down :: "event \<Rightarrow> bool" where
  "written_down ev \<longleftrightarrow> list_ex (\<lambda>row. announces row (evt_request ev)) (t_orders (evt_db ev))"

definition recorded :: "order_row list \<Rightarrow> event list \<Rightarrow> bool" where
  "recorded rows tr \<longleftrightarrow> distinct (ledger_ids rows) \<and> distinct (sent_ids tr) \<and> set (sent_ids tr) \<subseteq> set (ledger_ids rows) \<and>
     list_all written_down (sent tr)"

lemma announces_trades: "announces row r \<Longrightarrow> client_id r = o_cl_ord_id row"
  by (cases r) auto

interpretation recorded: ledger_invariant recorded
proof unfold_locales
  fix d :: db and tr r who a
  assume "recorded (t_orders d) tr" "\<not> trades r"
  then show "recorded (t_orders d) (tr @ [\<lparr>evt_who = who, evt_request = r, evt_answer = a, evt_db = d\<rparr>])"
    by (simp add: recorded_def)
next
  fix rows tr rows' assume "recorded rows tr" "list_all2 row_step rows rows'"
  then show "recorded rows' tr" by (simp add: recorded_def rows_ids)
next
  fix rows tr and row :: order_row assume "recorded rows tr" "o_cl_ord_id row \<notin> set (ledger_ids rows)"
  then show "recorded (rows @ [row]) tr" by (auto simp: recorded_def)
next
  fix rows tr r who a and row :: order_row and d :: db
  assume "recorded rows tr" "o_cl_ord_id row \<notin> set (ledger_ids rows)" "announces row r" "t_orders d = rows @ [row]"
  then show "recorded (rows @ [row]) (tr @ [\<lparr>evt_who = who, evt_request = r, evt_answer = a, evt_db = d\<rparr>])"
    using announces_trades [of row r] by (auto simp: recorded_def written_down_def)
qed

text \<open>
  C1: every order the service ever sends is in the committed ledger before it leaves, pending
  and under its own identifier; and no identifier is sent twice, whatever the random generator
  gives.
\<close>

theorem orders_recorded_first:
  assumes "service_steps config w w'" "w_trace w = []" "distinct (ledger_ids (t_orders (w_db w)))"
  shows "distinct (sent_ids (w_trace w')) \<and> set (sent_ids (w_trace w')) \<subseteq> set (ledger_ids (t_orders (w_db w'))) \<and>
    list_all written_down (sent (w_trace w'))"
proof -
  have "recorded.holds w" using assms(2,3) by (simp add: recorded.holds_def recorded_def sent_ids_def sent_def)
  from recorded.service_steps_hold [OF assms(1) this] show ?thesis by (simp add: recorded.holds_def recorded_def)
qed

theorem orders_recorded_first_witness:
  "distinct (sent_ids (w_trace sample_invested)) \<and>
    set (sent_ids (w_trace sample_invested)) \<subseteq> set (ledger_ids (t_orders (w_db sample_invested))) \<and>
    list_all written_down (sent (w_trace sample_invested))"
  by (rule orders_recorded_first [OF sample_step]) (simp_all add: sample_world_empty)

end
