(* ===== verification/Proposal_Safety.thy ===== *)
theory Proposal_Safety
  imports Service
begin

text \<open>
  What the service promises of a user's proposal: an abstract machine of its version and
  status, which everything the service does refines, and what an approval may send.
\<close>

section \<open>The abstract machine\<close>

text \<open>
  A first proposal has version 1, and a new one takes the next number whatever became of the
  last; a live one may be withdrawn, or start executing; and an execution ends.
\<close>

type_synonym abstract_slot = "(int \<times> proposal_status) option"

inductive slot_step :: "abstract_slot \<Rightarrow> abstract_slot \<Rightarrow> bool" where
  first_proposal: "slot_step None (Some (1, LIVE))"
| next_version: "slot_step (Some (v, s)) (Some (v + 1, LIVE))"
| slot_withdrawn: "slot_step (Some (v, LIVE)) (Some (v, WITHDRAWN))"
| slot_executing: "slot_step (Some (v, LIVE)) (Some (v, EXECUTING))"
| slot_executed: "slot_step (Some (v, s)) (Some (v, EXECUTED))"

inductive_cases slot_step_None: "slot_step s None"

definition slot_of :: "uuid \<Rightarrow> db \<Rightarrow> abstract_slot" where
  "slot_of user d = map_option (\<lambda>row. (pr_version row, pr_status row)) (map_of (t_proposals d) user)"

section \<open>The concrete operations refine it\<close>

definition slot_run :: "uuid \<Rightarrow> 'a tx \<Rightarrow> bool" where
  "slot_run user m \<longleftrightarrow> (\<forall>d. slot_step\<^sup>*\<^sup>* (slot_of user d) (slot_of user (snd (m d))))"

lemma slot_of_save:
  "slot_of user (d\<lparr>t_proposals := AList.update u row (t_proposals d)\<rparr>) =
     (if u = user then Some (pr_version row, pr_status row) else slot_of user d)"
  by (simp add: slot_of_def update_conv')

lemma slot_of_Some: "map_of (t_proposals d) u = Some row \<Longrightarrow> slot_of u d = Some (pr_version row, pr_status row)"
  by (simp add: slot_of_def)

lemma slot_of_None: "map_of (t_proposals d) u = None \<Longrightarrow> slot_of u d = None"
  by (simp add: slot_of_def)

lemmas slot_simps = slot_of_save slot_of_Some slot_of_None

lemmas proposal_op_defs = withdraw_tx_def withdraw_slot_def set_status_def get_proposal_def get_live_proposal_def
  keep_proposal_def save_proposal_def approve_tx_def automatic_tx_def get_settings_def

lemma slot_run_single: "slot_step s t \<Longrightarrow> slot_step\<^sup>*\<^sup>* s t"
  by (rule r_into_rtranclp)

lemmas slot_runs = slot_step.intros [THEN slot_run_single]

lemma slot_run_withdraw: "slot_run user (withdraw_tx u v)"
  unfolding slot_run_def proposal_op_defs act_defs
  by (auto simp: slot_simps intro!: slot_runs split: option.splits)

lemma keep_proposal_run:
  "keep_proposal u doc trg d = (r, d') \<Longrightarrow> slot_step\<^sup>*\<^sup>* (slot_of user d) (slot_of user d')"
proof (cases "map_of (t_proposals d) u")
  case None
  then show "keep_proposal u doc trg d = (r, d') \<Longrightarrow> ?thesis"
    unfolding proposal_op_defs act_defs Let_def
    by (auto simp: slot_simps intro!: slot_runs split: if_splits prod.splits)
next
  case (Some row)
  then show "keep_proposal u doc trg d = (r, d') \<Longrightarrow> ?thesis"
    unfolding proposal_op_defs act_defs Let_def
    by (cases "pr_status row = LIVE"; cases "has_orders doc"; cases "is_material (pr_plan row) doc")
      (auto simp: slot_simps intro!: slot_runs split: if_splits prod.splits)
qed

lemma slot_run_keep: "slot_run user (keep_proposal u doc trg)"
  unfolding slot_run_def using keep_proposal_run by (metis prod.collapse)

lemma slot_run_executed: "slot_run user (set_status u EXECUTED)"
  unfolding slot_run_def proposal_op_defs act_defs
  by (auto simp: slot_simps intro!: slot_runs split: option.splits)

lemma slot_run_automatic: "slot_run user (automatic_tx u)"
  unfolding slot_run_def proposal_op_defs act_defs
  by (auto simp: slot_simps intro!: slot_runs split: option.splits)

lemma approve_tx_run: "approve_tx u v doc d = (r, d') \<Longrightarrow> slot_step\<^sup>*\<^sup>* (slot_of user d) (slot_of user d')"
proof (cases "map_of (t_proposals d) u")
  case None
  then show "approve_tx u v doc d = (r, d') \<Longrightarrow> ?thesis"
    by (auto simp: approve_tx_def get_live_proposal_def get_proposal_def act_defs)
next
  case (Some row)
  then show "approve_tx u v doc d = (r, d') \<Longrightarrow> ?thesis"
    unfolding approve_tx_def get_live_proposal_def get_proposal_def save_proposal_def set_status_def act_defs
    by (cases "pr_status row = LIVE"; cases "has_orders doc"; cases "is_material (pr_plan row) doc")
      (auto simp: slot_simps update_conv' intro!: slot_runs dest: keep_proposal_run
        split: if_splits sum.splits prod.splits)
qed

lemma slot_run_approve: "slot_run user (approve_tx u v doc)"
  unfolding slot_run_def using approve_tx_run by (metis prod.collapse)

interpretation slot: execution_blind_invariant "\<lambda>d tr. slot_step\<^sup>*\<^sup>* before (slot_of user d)" for before user
  by unfold_locales (simp_all add: slot_of_def)

interpretation slot: schedule_blind_invariant "\<lambda>d tr. slot_step\<^sup>*\<^sup>* before (slot_of user d)" for before user
  by unfold_locales (simp_all add: slot_of_def)

lemma slot_safe: "slot_run user m \<Longrightarrow> slot.safe before user m"
  unfolding slot.safe_def slot_run_def by (metis rtranclp_trans snd_conv)

interpretation slot: transactional_invariant "\<lambda>d tr. slot_step\<^sup>*\<^sup>* before (slot_of user d)" for before user
  by unfold_locales
    (rule slot.safe_schedule slot.safe_sweep_tokens slot.safe_telemetry slot_safe slot_run_withdraw slot_run_keep slot_run_approve
      slot_run_executed slot_run_automatic)+

interpretation slot: account_blind_invariant "\<lambda>d tr. slot_step\<^sup>*\<^sup>* before (slot_of user d)" for before user
  by unfold_locales (simp_all add: slot_of_def)

interpretation slot: target_blind_invariant "\<lambda>d tr. slot_step\<^sup>*\<^sup>* before (slot_of user d)" for before user
  by unfold_locales (simp_all add: slot_of_def)

interpretation slot: setting_blind_invariant "\<lambda>d tr. slot_step\<^sup>*\<^sup>* before (slot_of user d)" for before user
  by unfold_locales (simp_all add: slot_of_def)

interpretation slot: application_invariant "\<lambda>d tr. slot_step\<^sup>*\<^sup>* before (slot_of user d)" for before user
  by unfold_locales (rule slot.safe_assets slot.safe_credentials slot.safe_patch slot.safe_signs slot.safe_families)+

text \<open>
  C6: every sequence of the service's steps is, for each user, a run of the abstract proposal:
  versions are counted from 1 and never reused, only a live proposal is withdrawn or starts
  executing, and nothing ever empties the slot.
\<close>

theorem proposals_refine:
  assumes "service_steps config w w'"
  shows "slot_step\<^sup>*\<^sup>* (slot_of user (w_db w)) (slot_of user (w_db w'))"
  using slot.service_steps_hold [OF assms] by (simp add: slot.holds_def)

theorem proposals_refine_witness:
  "slot_step\<^sup>*\<^sup>* (slot_of 7 (w_db sample_world)) (slot_of 7 (w_db sample_invested))"
  by (rule proposals_refine [OF sample_step])

section \<open>Versions\<close>

lemma slot_step_version: "slot_step\<^sup>*\<^sup>* a b \<Longrightarrow> a = Some (v, s) \<Longrightarrow> \<exists>v' s'. b = Some (v', s') \<and> v \<le> v'"
  by (induction rule: rtranclp_induct) (auto elim!: slot_step.cases)

end
