(* ===== verification/Authorisation.thy ===== *)
theory Authorisation
  imports Service
begin

text \<open>
  Who lets an order go: an investment needs no approval, but every order of a rebalance leaves
  while its user's proposal is executing, or with automatic rebalancing on and nothing paused.
  A proposal alone never sends, and what an approval sends is a plan that did not move from
  the one approved.
\<close>

section \<open>What authorises an order\<close>

definition executing :: "uuid \<Rightarrow> db \<Rightarrow> bool" where
  "executing user d \<longleftrightarrow> (case map_of (t_proposals d) user of None \<Rightarrow> False | Some row \<Rightarrow> pr_status row = EXECUTING)"

definition automatic :: "uuid \<Rightarrow> db \<Rightarrow> bool" where
  "automatic user d \<longleftrightarrow> (case map_of (t_settings d) user of None \<Rightarrow> False
     | Some s \<Rightarrow> st_auto_rebalance_enabled s \<and> \<not> st_paused s)"

definition licensed :: "uuid \<Rightarrow> order_reason \<Rightarrow> db \<Rightarrow> bool" where
  "licensed user reason d \<longleftrightarrow> reason = INVEST \<or> executing user d \<or> automatic user d"

definition authorised :: "event \<Rightarrow> bool" where
  "authorised ev \<longleftrightarrow> (case row_of ev of None \<Rightarrow> False | Some row \<Rightarrow> licensed (o_user row) (o_reason row) (evt_db ev))"

definition all_authorised :: "event list \<Rightarrow> bool" where
  "all_authorised tr \<longleftrightarrow> list_all authorised (sent tr)"

lemma licensed_frame [simp]:
  "licensed user reason (d\<lparr>t_orders := os\<rparr>) = licensed user reason d"
  "licensed user reason (d\<lparr>t_snapshots := ss\<rparr>) = licensed user reason d"
  "licensed user reason (d\<lparr>t_evaluations := es\<rparr>) = licensed user reason d"
  "licensed user reason (d\<lparr>db_now := t\<rparr>) = licensed user reason d"
  by (simp_all add: licensed_def executing_def automatic_def)

lemma all_authorised_quiet: "all_authorised tr \<Longrightarrow> \<not> trades (evt_request ev) \<Longrightarrow> all_authorised (tr @ [ev])"
  by (simp add: all_authorised_def)

lemma all_authorised_snoc: "all_authorised tr \<Longrightarrow> authorised ev \<Longrightarrow> all_authorised (tr @ [ev])"
  by (simp add: all_authorised_def)

section \<open>The phases of each operation\<close>

interpretation authorised: schedule_blind_invariant "\<lambda>_. all_authorised"
  by unfold_locales (simp_all add: all_authorised_quiet)

interpretation licensed: attributed_invariant
  "\<lambda>d tr. all_authorised tr \<and> licensed user reason d" "\<lambda>u r. u = user \<and> r = reason" for user reason
  by unfold_locales (auto simp: all_authorised_quiet authorised_def intro: all_authorised_snoc)

interpretation phases: evaluation_phases "\<lambda>_. all_authorised" "\<lambda>_. all_authorised" "licensed.holds user reason"
  "\<lambda>u r. u = user \<and> r = reason" for user reason
  by unfold_locales (auto intro: licensed.sends_after simp: licensed.holds_def authorised.holds_def)

lemma approve_tx_None: "approve_tx user v doc d = (Inr (None, ls), d') \<Longrightarrow> executing user d'"
  unfolding approve_tx_def get_live_proposal_def get_proposal_def save_proposal_def set_status_def act_defs executing_def
  by (auto simp: update_conv' split: if_splits option.splits sum.splits prod.splits)

lemma automatic_tx_None: "automatic_tx user d = (Inr (None, ls), d') \<Longrightarrow> automatic user d'"
  unfolding automatic_tx_def withdraw_slot_def get_live_proposal_def get_proposal_def set_status_def get_settings_def
    act_defs automatic_def
  by (auto split: if_splits option.splits sum.splits prod.splits)

lemma approve_decision_cases:
  assumes "approve_decision e user v planned w = (r, w')"
  shows "w_trace w' = w_trace w \<and> (r = Inr None \<longrightarrow> executing user (w_db w'))"
  using assms unfolding approve_decision_def Let_def log_lines_def log_line_def bind_def seq_def modify_def ret_def
  by (auto split: prod.splits sum.splits if_splits dest!: transaction_Inr dest: transaction_trace approve_tx_None)

lemma automatic_decision_cases:
  assumes "automatic_decision e user planned w = (r, w')"
  shows "w_trace w' = w_trace w \<and> (r = Inr None \<longrightarrow> automatic user (w_db w'))"
  using assms unfolding automatic_decision_def log_lines_def bind_def seq_def modify_def ret_def
  by (auto split: prod.splits sum.splits if_splits dest!: transaction_Inr dest: transaction_trace automatic_tx_None)

lemma propose_decision_cases:
  assumes "propose_decision e user trg planned w = (r, w')"
  shows "w_trace w' = w_trace w \<and> r \<noteq> Inr None"
  using assms unfolding propose_decision_def Let_def log_lines_def bind_def seq_def modify_def ret_def
  by (auto split: prod.splits sum.splits if_splits dest: transaction_trace)

lemma licensed_evaluation:
  assumes "authorised.safe_reads public"
    and "\<And>planned w r w'. decide planned w = (r, w') \<Longrightarrow>
      w_trace w' = w_trace w \<and> (r = Inr None \<longrightarrow> licensed user reason (w_db w'))"
  shows "keeps authorised.holds (evaluate e public user sells reason decide op_name trg)"
proof -
  have "phases.decides user reason decide"
  proof (rule phases.decidesI)
    fix planned w r w' assume "authorised.holds w" "decide planned w = (r, w')"
    then show "if r = Inr None then licensed.holds user reason w' else authorised.holds w'"
      using assms(2) by (fastforce simp: authorised.holds_def licensed.holds_def)
  qed
  from phases.triple_evaluate [OF assms(1) this] show ?thesis by (simp add: keeps_triple)
qed

lemma authorised_invest: "authorised.safe_reads public \<Longrightarrow> keeps authorised.holds (invest e public user p trg)"
proof -
  assume public: "authorised.safe_reads public"
  have "w_trace w' = w_trace w" if "still_scheduled e user planned w = (r, w')" for planned w r w'
    using that unfolding still_scheduled_def log_line_def bind_def seq_def modify_def ret_def
    by (auto split: prod.splits sum.splits if_splits dest: transaction_trace)
  then have "keeps authorised.holds (evaluate e public user False INVEST
      (if trg = SCHEDULER then still_scheduled e user else send_it) OP_INVEST trg)"
    by (intro licensed_evaluation public) (auto simp: licensed_def send_it_def ret_def split: if_splits)
  then show ?thesis
    using public unfolding invest_def
    by (auto intro!: keeps_intros safe_intros)
qed

lemma authorised_decisions:
  assumes "authorised.safe_reads public"
  shows "keeps authorised.holds (evaluate e public user True REBALANCE (propose_decision e user pt) op_name trg)"
    and "keeps authorised.holds (evaluate e public user True REBALANCE (approve_decision e user v) op_name trg)"
    and "keeps authorised.holds (evaluate e public user True REBALANCE (automatic_decision e user) op_name trg)"
  using assms propose_decision_cases approve_decision_cases automatic_decision_cases
  by (intro licensed_evaluation; fastforce simp: licensed_def)+

lemma authorised_propose: "authorised.safe_reads public \<Longrightarrow> keeps authorised.holds (propose e public user trg)"
  unfolding propose_def by (intro keeps_intros authorised_decisions)

lemma authorised_approve: "authorised.safe_reads public \<Longrightarrow> keeps authorised.holds (approve e public user v)"
proof -
  assume public: "authorised.safe_reads public"
  have executed: "authorised.safe (set_status u st)" for u st
    by (simp add: authorised.safe_def)
  show ?thesis
    unfolding approve_def
    by (intro keeps_intros authorised_decisions public authorised.keeps_frame safe_intros executed; simp)
qed

lemma authorised_automatic: "authorised.safe_reads public \<Longrightarrow> keeps authorised.holds (rebalance_now e public user)"
  unfolding rebalance_now_def by (rule authorised_decisions)

interpretation authorised: service_invariant "\<lambda>_. all_authorised"
proof (unfold_locales, goal_cases)
  case (5 user v) show ?case by (simp add: authorised.safe_def)
qed (auto intro: authorised_invest authorised_propose authorised_approve authorised_automatic
    authorised.safe_schedule authorised.safe_sweep_tokens authorised.safe_telemetry)

interpretation authorised: account_blind_invariant "\<lambda>_. all_authorised"
  by unfold_locales

interpretation authorised: target_blind_invariant "\<lambda>_. all_authorised"
  by unfold_locales

interpretation authorised: setting_blind_invariant "\<lambda>_. all_authorised"
  by unfold_locales

interpretation authorised: application_invariant "\<lambda>_. all_authorised"
  by unfold_locales (rule authorised.safe_assets authorised.safe_credentials authorised.safe_patch authorised.safe_signs
    authorised.safe_families)+

text \<open>
  C2: whatever the service does, an order of a rebalance leaves only while its user's proposal
  is executing, or with automatic rebalancing on and not paused; every other order belongs to
  an investment.
\<close>

theorem rebalances_authorised:
  assumes "service_steps config w w'" "w_trace w = []"
  shows "list_all authorised (sent (w_trace w'))"
proof -
  have "authorised.holds w" using assms(2) by (simp add: authorised.holds_def all_authorised_def sent_def)
  from authorised.service_steps_hold [OF assms(1) this] show ?thesis
    by (simp add: authorised.holds_def all_authorised_def)
qed

theorem rebalances_authorised_witness: "list_all authorised (sent (w_trace sample_invested))"
  by (rule rebalances_authorised [OF sample_step]) (rule sample_world_empty)

section \<open>What an approval sends\<close>

text \<open>
  The database while the proposals \<open>before\<close> are being executed for a user at a version: the
  proposal was live at that version, and what executes is a plan that did not move from it.
\<close>

definition execution_of :: "(uuid \<times> proposal_row) list \<Rightarrow> uuid \<Rightarrow> int \<Rightarrow> db \<Rightarrow> bool" where
  "execution_of before user version d \<longleftrightarrow>
     (case (map_of before user, map_of (t_proposals d) user) of
        (Some old, Some row) \<Rightarrow>
          pr_status old = LIVE \<and> pr_version old = version \<and> is_material (pr_plan old) (pr_plan row) = Inr False \<and>
          has_orders (pr_plan row) \<and> pr_status row = EXECUTING \<and> pr_version row = version
      | _ \<Rightarrow> False)"

definition executes :: "(uuid \<times> proposal_row) list \<Rightarrow> uuid \<Rightarrow> int \<Rightarrow> nat \<Rightarrow> event list \<Rightarrow> bool" where
  "executes before user version n tr \<longleftrightarrow>
     n \<le> length tr \<and> list_all (\<lambda>ev. execution_of before user version (evt_db ev)) (sent_since n tr)"

lemma execution_of_frame [simp]:
  "execution_of ps user v (d\<lparr>t_orders := os\<rparr>) = execution_of ps user v d"
  "execution_of ps user v (d\<lparr>t_snapshots := ss\<rparr>) = execution_of ps user v d"
  "execution_of ps user v (d\<lparr>t_evaluations := es\<rparr>) = execution_of ps user v d"
  "execution_of ps user v (d\<lparr>db_now := t\<rparr>) = execution_of ps user v d"
  by (simp_all add: execution_of_def)

interpretation waiting: telemetry_blind_invariant
  "\<lambda>d tr. t_proposals d = ps \<and> n \<le> length tr \<and> sent_since n tr = []" for ps n
  by unfold_locales auto

interpretation approved: attributed_invariant
  "\<lambda>d tr. executes ps user v n tr \<and> execution_of ps user v d" "\<lambda>_ _. True" for ps user v n
  by unfold_locales (auto simp: executes_def)

interpretation approved_after: telemetry_blind_invariant "\<lambda>_. executes ps user v n" for ps user v n
  by unfold_locales (auto simp: executes_def)

interpretation approval: evaluation_phases
  "\<lambda>d tr. t_proposals d = ps \<and> n \<le> length tr \<and> sent_since n tr = []"
  "\<lambda>_. executes ps user v n" "approved.holds ps user v n" "\<lambda>_ _. True" for ps n user v
proof unfold_locales
  show "executes ps user v n tr" if "t_proposals d = ps \<and> n \<le> length tr \<and> sent_since n tr = []" for d :: db and tr
    using that by (simp add: executes_def)
qed (auto intro: approved.sends_after simp: approved.holds_def approved_after.holds_def)

lemma approve_tx_executes:
  "approve_tx user v doc d = (Inr (None, ls), d') \<Longrightarrow> execution_of (t_proposals d) user v d'"
  unfolding approve_tx_def get_live_proposal_def get_proposal_def save_proposal_def set_status_def act_defs execution_of_def
  by (auto simp: update_conv' split: if_splits option.splits sum.splits prod.splits)

lemma approve_decision_executes:
  assumes "approve_decision e user v planned w = (Inr None, w')"
  shows "execution_of (t_proposals (w_db w)) user v (w_db w')"
  using assms unfolding approve_decision_def Let_def log_lines_def log_line_def bind_def seq_def modify_def ret_def
  by (auto split: prod.splits sum.splits if_splits dest!: transaction_Inr approve_tx_executes)

lemma approval_decides: "approval.decides ps n user v (approve_decision e user v)"
proof (rule approval.decidesI)
  fix planned w r w' assume w: "waiting.holds ps n w" and d: "approve_decision e user v planned w = (r, w')"
  have trace: "w_trace w' = w_trace w" using approve_decision_cases [OF d] by simp
  have "executes ps user v n (w_trace w')" using w trace by (simp add: waiting.holds_def executes_def)
  then show "if r = Inr None then approved.holds ps user v n w' else approved_after.holds ps user v n w'"
    using w d approve_decision_executes [of e user v planned w w']
    by (auto simp: waiting.holds_def approved.holds_def approved_after.holds_def)
qed

text \<open>
  C3: an approval sends orders only if the live proposal is the version approved, and only
  while what executes is today's plan, recorded in its place, that does not materially differ
  from the plan the user read. A stale or superseded version sends nothing.
\<close>

theorem approval_sends_what_was_approved:
  assumes "approve e (market e) user version w = (r, w')"
  shows "list_all (\<lambda>ev. execution_of (t_proposals (w_db w)) user version (evt_db ev))
    (sent_since (length (w_trace w)) (w_trace w'))"
proof -
  let ?ps = "t_proposals (w_db w)" and ?n = "length (w_trace w)"
  have executed: "approved_after.safe ?ps user version ?n (set_status u st)" for u st
    by (simp add: approved_after.safe_def)
  let ?before = "waiting.holds ?ps ?n" and ?after = "approved_after.holds ?ps user version ?n"
  have "triple ?before (try_finally (evaluate e (market e) user True REBALANCE (approve_decision e user version) OP_APPROVE API)
      (\<lambda>_. bind (gets w_executing) (\<lambda>x. if x then bind (transaction e (set_status user EXECUTED)) (\<lambda>_. ret ()) else ret ())))
      (\<lambda>_. ?after)"
    by (rule triple_finally [OF approval.triple_evaluate [OF waiting.safe_market approval_decides]])
      (auto simp: keeps_triple [symmetric] intro!: keeps_intros executed)
  then have "triple ?before (approve e (market e) user version) (\<lambda>_. ?after)"
    unfolding approve_def
    by (intro triple_keeps_seq triple_bind [where R = "\<lambda>_. ?after"])
      (auto simp: keeps_triple [symmetric] intro!: keeps_intros safe_intros waiting.keeps_frame approval.before_holds)
  moreover have "sent_since ?n (w_trace w) = []" by (simp add: sent_since_def sent_def)
  then have "waiting.holds ?ps ?n w" by (simp add: waiting.holds_def)
  ultimately have "approved_after.holds ?ps user version ?n w'" using assms by (rule tripleD)
  then show ?thesis by (simp add: approved_after.holds_def executes_def)
qed

theorem approval_sends_what_was_approved_witness:
  "list_all (\<lambda>ev. execution_of (t_proposals (w_db sample_world)) 7 1 (evt_db ev))
    (sent_since (length (w_trace sample_world)) (w_trace (snd (approve sample_env (market sample_env) 7 1 sample_world))))"
  by (rule approval_sends_what_was_approved [OF surjective_pairing])

end
