(* ===== verification/Evaluation_Safety.thy ===== *)
theory Evaluation_Safety
  imports Authorisation
begin

text \<open>
  What one evaluation promises of what it sends: a preview and a proposal send nothing, an
  unknown answer is the last order sent, every order leaves with the account's snapshot pinned,
  and a result that is not DONE, PARTIAL or STOPPED means nothing was sent.
\<close>

section \<open>A preview\<close>

text \<open>The tables, the clock of the transaction apart.\<close>

definition tables :: "db \<Rightarrow> db" where
  "tables d = d\<lparr>db_now := 0\<rparr>"

interpretation untouched: transacting_invariant
  "\<lambda>d tr. tables d = tables d0 \<and> n \<le> length tr \<and> sent_since n tr = []" for d0 n
  by unfold_locales (auto simp: tables_def)

text \<open>
  C22: a preview changes no table and sends no order: what it asks Kraken to check is marked
  as a validation.
\<close>

theorem preview_changes_nothing:
  assumes "invest e (market e) user True trg w = (r, w')"
  shows "tables (w_db w') = tables (w_db w) \<and> sent_since (length (w_trace w)) (w_trace w') = []"
proof -
  have "keeps (untouched.holds (w_db w) (length (w_trace w))) (invest e (market e) user True trg)"
    unfolding invest_def by (simp, intro keeps_intros safe_intros untouched.safe_market)
  from keepsD [OF this _ assms] show ?thesis by (simp add: untouched.holds_def)
qed

theorem preview_changes_nothing_witness:
  "tables (w_db (snd (invest sample_env (market sample_env) 7 True API sample_world))) = tables (w_db sample_world) \<and>
    sent_since (length (w_trace sample_world))
      (w_trace (snd (invest sample_env (market sample_env) 7 True API sample_world))) = []"
  by (rule preview_changes_nothing [OF surjective_pairing])

section \<open>A proposal\<close>

interpretation unsent: telemetry_blind_invariant "\<lambda>_ tr. n \<le> length tr \<and> sent_since n tr = []" for n
  by unfold_locales auto

interpretation proposing: evaluation_phases
  "\<lambda>_ tr. n \<le> length tr \<and> sent_since n tr = []" "\<lambda>_ tr. n \<le> length tr \<and> sent_since n tr = []"
  "\<lambda>_. False" "\<lambda>_ _. True" for n
  by unfold_locales (simp_all add: triple_def)

text \<open>
  C21: a proposal, by hand or from the scheduler, sends no order.
\<close>

theorem propose_sends_nothing:
  assumes "propose e (market e) user trg w = (r, w')"
  shows "sent_since (length (w_trace w)) (w_trace w') = []"
proof -
  let ?n = "length (w_trace w)"
  have "proposing.decides ?n (propose_decision e user pt)" for pt
    by (rule proposing.decidesI) (use propose_decision_cases in \<open>fastforce simp: unsent.holds_def\<close>)
  from proposing.triple_evaluate [OF unsent.safe_market this]
  have "keeps (unsent.holds ?n) (propose e (market e) user trg)"
    unfolding propose_def by (intro keeps_intros) (simp add: keeps_triple)
  from keepsD [OF this _ assms] show ?thesis by (simp add: unsent.holds_def)
qed

theorem propose_sends_nothing_witness:
  "sent_since (length (w_trace sample_world)) (w_trace (snd (propose sample_env (market sample_env) 7 API sample_world))) = []"
  by (rule propose_sends_nothing [OF surjective_pairing])

section \<open>An unknown answer\<close>

text \<open>An answer that says what became of the order.\<close>

definition answered :: "event \<Rightarrow> bool" where
  "answered ev \<longleftrightarrow> pl_outcome (placement_of False (called (evt_answer ev))) \<noteq> UNKNOWN"

definition all_answered :: "nat \<Rightarrow> event list \<Rightarrow> bool" where
  "all_answered n tr \<longleftrightarrow> n \<le> length tr \<and> list_all answered (sent_since n tr)"

definition answered_but_last :: "nat \<Rightarrow> event list \<Rightarrow> bool" where
  "answered_but_last n tr \<longleftrightarrow> n \<le> length tr \<and> list_all answered (butlast (sent_since n tr))"

lemma all_answered_weaken: "all_answered n tr \<Longrightarrow> answered_but_last n tr"
  by (auto simp: all_answered_def answered_but_last_def list_all_iff dest: in_set_butlastD)

interpretation go: telemetry_blind_invariant "\<lambda>_. all_answered n" for n
  by unfold_locales (auto simp: all_answered_def)

interpretation halted: telemetry_blind_invariant "\<lambda>_. answered_but_last n" for n
  by unfold_locales (auto simp: answered_but_last_def)

lemma go_halted: "go.holds n w \<Longrightarrow> halted.holds n w"
  by (simp add: go.holds_def halted.holds_def all_answered_weaken)

text \<open>The row of an attempt, still without an answer.\<close>

definition open_row :: "string \<Rightarrow> world \<Rightarrow> bool" where
  "open_row c w \<longleftrightarrow> (case find (\<lambda>row. o_cl_ord_id row = c) (t_orders (w_db w)) of None \<Rightarrow> False
     | Some row \<Rightarrow> o_status row = PENDING \<and> o_txid row = None)"

lemma record_opens:
  "triple (go.holds n) (transaction e (record_attempt user c pair asset side reason amount t i))
     (\<lambda>r w. case r of Inl _ \<Rightarrow> halted.holds n w | Inr _ \<Rightarrow> go.holds n w \<and> open_row c w)"
proof (rule tripleI)
  fix w r w' assume w: "go.holds n w" and m: "transaction e (record_attempt user c pair asset side reason amount t i) w = (r, w')"
  have h: "go.holds n w'" by (rule keepsD [OF go.keeps_tx [OF go.safe_record] w m])
  have "open_row c w'" if "r = Inr x" for x
    using m [unfolded that]
    by (rule recorded_attempt) (simp add: open_row_def find_append_new [where g = o_cl_ord_id])
  then show "case r of Inl _ \<Rightarrow> halted.holds n w' | Inr _ \<Rightarrow> go.holds n w' \<and> open_row c w'"
    using h go_halted by (cases r) auto
qed

text \<open>After the placement: answered, or halted with the row still open.\<close>

definition placed_as :: "nat \<Rightarrow> string \<Rightarrow> placement \<Rightarrow> world \<Rightarrow> bool" where
  "placed_as n c p w \<longleftrightarrow> (if pl_outcome p = UNKNOWN then halted.holds n w \<and> open_row c w else go.holds n w)"

lemma place_answers:
  "triple (\<lambda>w. go.holds n w \<and> open_row c w) (place (kraken e who) l c False)
     (\<lambda>r w. case r of Inl _ \<Rightarrow> halted.holds n w | Inr p \<Rightarrow> placed_as n c p w)"
proof (rule tripleI)
  fix w r w' assume w: "go.holds n w \<and> open_row c w" and p: "place (kraken e who) l c False w = (r, w')"
  show "case r of Inl _ \<Rightarrow> halted.holds n w' | Inr p \<Rightarrow> placed_as n c p w'" using p
  proof (cases rule: place_cases)
    case stuck
    then show ?thesis using w go_halted by (cases r) auto
  next
    case (placed k a x)
    then show ?thesis using w
      by (auto simp: placed_as_def open_row_def go.holds_def halted.holds_def all_answered_def answered_but_last_def
          answered_def butlast_append)
  qed
qed

lemma after_placement_answers:
  "triple (placed_as n c p) (after_placement e (kraken e who) c p)
     (\<lambda>r w. case r of Inl _ \<Rightarrow> halted.holds n w | Inr _ \<Rightarrow> placed_as n c p w)"
proof (cases "pl_outcome p = UNKNOWN")
  case True
  then show ?thesis by (simp add: after_placement_def triple_def ret_def)
next
  case False
  have "triple (go.holds n) (after_placement e (kraken e who) c p) (\<lambda>_. go.holds n)"
    using go.keeps_after_placement by (simp add: keeps_triple)
  then show ?thesis
    using False by (auto simp: placed_as_def intro: go_halted elim!: triple_weaken split: sum.split)
qed

text \<open>What a leg's result says of its answer; the executor stops on the first.\<close>

definition unknown_result :: "leg_result \<Rightarrow> bool" where
  "unknown_result r \<longleftrightarrow> lr_status r = LEG_PENDING \<and> lr_txid r = None"

definition halts :: "nat \<Rightarrow> bool \<Rightarrow> world \<Rightarrow> bool" where
  "halts n stopped w \<longleftrightarrow> (if stopped then halted.holds n w else go.holds n w)"

lemma halts_halted: "halts n stopped w \<Longrightarrow> halted.holds n w"
  by (auto simp: halts_def intro: go_halted split: if_splits)

lemma read_back:
  "triple (placed_as n c p) (bind (transaction e (get_by_cl_ord_id c))
       (\<lambda>row. case row of None \<Rightarrow> throw AttributeError | Some r \<Rightarrow> ret (from_row l r)))
     (\<lambda>r w. case r of Inl _ \<Rightarrow> halted.holds n w | Inr lr \<Rightarrow> halts n (unknown_result lr) w)"
proof (rule tripleI)
  fix w r w' assume w: "placed_as n c p w"
    and m: "bind (transaction e (get_by_cl_ord_id c))
       (\<lambda>row. case row of None \<Rightarrow> throw AttributeError | Some r \<Rightarrow> ret (from_row l r)) w = (r, w')"
  let ?found = "find (\<lambda>row. o_cl_ord_id row = c) (t_orders (w_db w))"
  have r: "r = (case ?found of None \<Rightarrow> Inl AttributeError | Some row \<Rightarrow> Inr (from_row l row))" and t: "w_trace w' = w_trace w"
    using m by (auto simp: transaction_def session_scope_def get_by_cl_ord_id_def act_defs split: option.splits)
  have keep: "go.holds n w' = go.holds n w" "halted.holds n w' = halted.holds n w"
    using t by (simp_all add: go.holds_def halted.holds_def)
  show "case r of Inl _ \<Rightarrow> halted.holds n w' | Inr lr \<Rightarrow> halts n (unknown_result lr) w'"
    using w go_halted unfolding r placed_as_def open_row_def halts_def
    by (auto simp: keep unknown_result_def from_row_def split: option.splits if_splits)
qed

lemma recorded_send_answers:
  "triple (go.holds n) (bind (transaction e (record_attempt user c pair asset side reason amount t j))
      (\<lambda>_. bind (place (kraken e who) l c False) (\<lambda>p. bind (after_placement e (kraken e who) c p)
        (\<lambda>_. bind (transaction e (get_by_cl_ord_id c))
          (\<lambda>row. case row of None \<Rightarrow> throw AttributeError | Some r \<Rightarrow> ret (from_row l r))))))
     (\<lambda>r w. case r of Inl _ \<Rightarrow> halted.holds n w | Inr lr \<Rightarrow> halts n (unknown_result lr) w)"
  by (rule triple_bind [OF record_opens], simp, rule triple_bind [OF place_answers], simp,
      rule triple_bind [OF after_placement_answers], simp, rule read_back) simp_all

lemma send_leg_answers:
  "triple (go.holds n) (send_leg e user i (kraken e who) l reason)
     (\<lambda>r w. case r of Inl _ \<Rightarrow> halted.holds n w | Inr lr \<Rightarrow> halts n (unknown_result lr) w)"
  unfolding send_leg_def Let_def seq_def
  by (intro triple_prefix go.keeps_quiet recorded_send_answers) (simp_all add: go_halted)

lemma attempt_answers:
  "triple (halts n stopped) (attempt e user i (kraken e who) l reason stopped s)
     (\<lambda>r w. case r of Inl _ \<Rightarrow> halted.holds n w | Inr (lr, stopped') \<Rightarrow> halts n stopped' w)"
proof (cases "pg_note l = None \<and> \<not> stopped")
  case True
  have "triple (go.holds n) (seq (pin e user s) (bind (send_leg e user i (kraken e who) l reason) (\<lambda>r.
      ret (r, lr_status r = LEG_PENDING \<and> lr_txid r = None))))
      (\<lambda>r w. case r of Inl _ \<Rightarrow> halted.holds n w | Inr (lr, stopped') \<Rightarrow> halts n stopped' w)"
    unfolding seq_def
    by (intro triple_prefix go.keeps_pin triple_bind [OF send_leg_answers])
      (auto simp: triple_def ret_def unknown_result_def go_halted)
  then show ?thesis using True by (simp add: attempt_def halts_def [abs_def])
next
  case False
  then show ?thesis by (auto simp: attempt_def triple_def ret_def halts_def split: option.splits)
qed

lemma loop_answers:
  "triple (halts n stopped) (attempt_and_log e user i (kraken e who) reason fiat s l stopped)
     (\<lambda>r w. case r of Inl _ \<Rightarrow> halted.holds n w | Inr (lr, stopped') \<Rightarrow> halts n stopped' w)"
proof -
  have "halts n b (w\<lparr>w_legs := ls, w_log := lines\<rparr>) = halts n b w" for b w ls lines
    by (simp add: halts_def go.holds_def halted.holds_def)
  then show ?thesis
    unfolding attempt_and_log_def
    by (intro triple_bind [OF attempt_answers])
      (auto simp: triple_def log_line_def act_defs split: prod.split)
qed

text \<open>Both loops carry on only while every answer is known.\<close>

lemma send_all_answers:
  "triple (go.holds n) (send_all e user i (kraken e who) planned reason fiat s) (\<lambda>_. halted.holds n)"
proof -
  have sells: "triple (\<lambda>w. halts n (snd acc) w) (for_fold ls acc (sell_step e user i (kraken e who) reason fiat s places))
      (\<lambda>r w. case r of Inl _ \<Rightarrow> halted.holds n w | Inr acc' \<Rightarrow> halts n (snd acc') w)" for ls acc places
    by (rule triple_for_fold, unfold sell_step_def, rule triple_bind [OF loop_answers])
      (auto simp: triple_def act_defs halts_halted split: sum.splits if_splits)
  have buys: "triple (halts n stopped) (for_fold ls stopped (buy_step e user i (kraken e who) reason fiat s))
      (\<lambda>r w. case r of Inl _ \<Rightarrow> halted.holds n w | Inr stopped' \<Rightarrow> halts n stopped' w)" for ls stopped
    by (rule triple_for_fold, unfold buy_step_def, rule triple_bind [OF loop_answers])
      (auto simp: triple_def act_defs split: sum.split)
  have rest: "triple (halts n (snd acc)) (case acc of (budget, stopped) \<Rightarrow>
      bind (lift_result (within_budget bs budget fiat)) (\<lambda>ls. for_fold ls stopped (buy_step e user i (kraken e who) reason fiat s)))
      (\<lambda>_. halted.holds n)" for acc bs
  proof (cases acc; cases "within_budget bs (fst acc) fiat")
    fix budget stopped ls assume "acc = (budget, stopped)" "within_budget bs (fst acc) fiat = Inr ls"
    then show ?thesis
      using triple_weaken [OF buys [of stopped ls], of "halts n stopped" "\<lambda>_. halted.holds n"]
      by (auto simp: halts_halted split: sum.splits)
  qed (auto simp: triple_def act_defs halts_halted)
  show ?thesis
    unfolding send_all_def
    by (rule triple_pre [OF triple_bind [OF sells]], simp only: sum.case, rule rest, simp, simp add: halts_def)
qed

interpretation answering: evaluation_phases
  "\<lambda>_ tr. n \<le> length tr \<and> sent_since n tr = []" "\<lambda>_. answered_but_last n" "go.holds n" "\<lambda>_ _. True" for n
proof unfold_locales
  fix n user reason e i who planned fiat s
  show "triple (go.holds n) (seq unpin (send_all e user i (kraken e who) planned reason fiat s)) (\<lambda>_. halted.holds n)"
    unfolding seq_def unpin_def
    by (intro triple_prefix go.keeps_frame send_all_answers) (simp_all add: go_halted)
qed (simp add: answered_but_last_def)

text \<open>A decision that sends nothing itself.\<close>

definition sends_nothing :: "decision \<Rightarrow> bool" where
  "sends_nothing decide \<longleftrightarrow> (\<forall>planned w. w_trace (snd (decide planned w)) = w_trace w)"

lemma sends_nothing_trace: "sends_nothing decide \<Longrightarrow> decide planned w = (r, w') \<Longrightarrow> w_trace w' = w_trace w"
  unfolding sends_nothing_def by (metis snd_conv)

lemma answering_decides:
  assumes "sends_nothing decide"
  shows "answering.decides n decide"
proof (rule answering.decidesI)
  fix planned w r w' assume "unsent.holds n w" "decide planned w = (r, w')"
  then show "if r = Inr None then go.holds n w' else halted.holds n w'"
    using sends_nothing_trace [OF assms]
    by (simp add: unsent.holds_def go.holds_def halted.holds_def all_answered_def answered_but_last_def)
qed

text \<open>
  C4: after an order whose answer is unknown no other order of the evaluation is sent: of all
  it sends, only the last may be without a known outcome.
\<close>

theorem unknown_answer_stops:
  assumes "evaluate e (market e) user sells reason decide op_name trg w = (r, w')" "sends_nothing decide"
  shows "list_all answered (butlast (sent_since (length (w_trace w)) (w_trace w')))"
proof -
  have "triple (unsent.holds (length (w_trace w))) (evaluate e (market e) user sells reason decide op_name trg)
      (\<lambda>_. halted.holds (length (w_trace w)))"
    by (rule answering.triple_evaluate [OF unsent.safe_market answering_decides [OF assms(2)]]) simp
  from tripleD [OF this _ assms(1)] show ?thesis
    by (simp add: unsent.holds_def halted.holds_def answered_but_last_def)
qed

lemma send_it_sends_nothing: "sends_nothing send_it"
  by (simp add: sends_nothing_def send_it_def ret_def)

theorem unknown_answer_stops_witness:
  "list_all answered (butlast (sent_since (length (w_trace sample_world))
     (w_trace (snd (evaluate sample_env (market sample_env) 7 False INVEST send_it OP_INVEST API sample_world)))))"
  by (rule unknown_answer_stops [OF surjective_pairing send_it_sends_nothing])

section \<open>The snapshot before the orders\<close>

definition snapshot_in :: "uuid \<Rightarrow> uuid \<Rightarrow> db \<Rightarrow> bool" where
  "snapshot_in user sid d \<longleftrightarrow> list_ex (\<lambda>r. sn_id r = sid \<and> sn_user r = user) (t_snapshots d)"

definition pinned_in :: "uuid \<Rightarrow> uuid \<Rightarrow> db \<Rightarrow> bool" where
  "pinned_in user sid d \<longleftrightarrow> snapshot_in user sid d \<and>
     list_all (\<lambda>r. sn_id r = sid \<and> sn_user r = user \<longrightarrow> sn_pinned r) (t_snapshots d)"

text \<open>Every order since \<open>n\<close> left with the snapshot pinned.\<close>

definition sent_pinned :: "uuid \<Rightarrow> uuid \<Rightarrow> nat \<Rightarrow> event list \<Rightarrow> bool" where
  "sent_pinned user sid n tr \<longleftrightarrow> n \<le> length tr \<and> list_all (\<lambda>ev. pinned_in user sid (evt_db ev)) (sent_since n tr)"

lemma pinned_frame [simp]:
  "pinned_in user sid (d\<lparr>t_orders := os\<rparr>) = pinned_in user sid d"
  "pinned_in user sid (d\<lparr>db_now := t\<rparr>) = pinned_in user sid d"
  "snapshot_in user sid (d\<lparr>db_now := t\<rparr>) = snapshot_in user sid d"
  by (simp_all add: pinned_in_def snapshot_in_def)

interpretation pinned: attributed_sending "\<lambda>d tr. sent_pinned user sid n tr \<and> pinned_in user sid d" "\<lambda>_ _. True"
  for user sid n
  by unfold_locales (auto simp: sent_pinned_def)

text \<open>Between the orders: the snapshot is there, and pinned once the flag says so.\<close>

definition to_pin :: "uuid \<Rightarrow> uuid \<Rightarrow> nat \<Rightarrow> world \<Rightarrow> bool" where
  "to_pin user sid n w \<longleftrightarrow> sent_pinned user sid n (w_trace w) \<and> snapshot_in user sid (w_db w) \<and>
     (w_pinned w \<longrightarrow> pinned_in user sid (w_db w))"

lemma pinned_snapshot: "pinned_in user sid d \<Longrightarrow> snapshot_in user sid d"
  by (simp add: pinned_in_def)

lemma list_ex_map_same: "list_ex P xs \<Longrightarrow> (\<And>x. P x \<Longrightarrow> P (f x)) \<Longrightarrow> list_ex P (map f xs)"
  by (induction xs) auto

lemma pinned_after:
  assumes "snapshot_in user sid d"
  shows "pinned_in user sid (d\<lparr>t_snapshots :=
    map (\<lambda>r. if sn_id r = sid \<and> sn_user r = user then r\<lparr>sn_pinned := True\<rparr> else r) (t_snapshots d)\<rparr>)"
proof -
  let ?pin = "\<lambda>r. if sn_id r = sid \<and> sn_user r = user then r\<lparr>sn_pinned := True\<rparr> else r"
  have "list_ex (\<lambda>r. sn_id r = sid \<and> sn_user r = user) (map ?pin (t_snapshots d))"
    using assms unfolding snapshot_in_def by (rule list_ex_map_same) simp
  moreover have "list_all (\<lambda>r. sn_id r = sid \<and> sn_user r = user \<longrightarrow> sn_pinned r) (map ?pin rs)" for rs
    by (induction rs) auto
  ultimately show ?thesis unfolding pinned_in_def snapshot_in_def by simp
qed

lemma pinned_to_pin: "pinned.holds user sid n w \<Longrightarrow> to_pin user sid n w"
  by (simp add: pinned.holds_def to_pin_def pinned_snapshot)

lemma pin_pins: "triple (to_pin user sid n) (pin e user sid) (\<lambda>r w. case r of Inl _ \<Rightarrow> to_pin user sid n w | Inr _ \<Rightarrow> pinned.holds user sid n w)"
proof (rule tripleI)
  fix w r w' assume w: "to_pin user sid n w" and p: "pin e user sid w = (r, w')"
  have "pinned_in user sid (w_db w' )" "w_trace w' = w_trace w" "r = Inr ()"
    using w p pinned_after [of user sid "(w_db w)\<lparr>db_now := t\<rparr>" for t]
    by (auto simp: pin_def pin_snapshot_def transaction_def session_scope_def act_defs to_pin_def split: if_splits)
  then show "case r of Inl _ \<Rightarrow> to_pin user sid n w' | Inr _ \<Rightarrow> pinned.holds user sid n w'"
    using w by (simp add: pinned.holds_def to_pin_def)
qed

lemma keeps_attempt_pinned: "keeps (to_pin user sid n) (attempt e user i (kraken e who) l reason stopped sid)"
proof -
  have "triple (pinned.holds user sid n) (bind (send_leg e user i (kraken e who) l reason) f) (\<lambda>_. to_pin user sid n)"
    if "\<And>a. keeps (pinned.holds user sid n) (f a)" for f
    by (rule triple_keeps) (auto intro!: keeps_intros pinned.keeps_send_leg that pinned_to_pin)
  then have pinning: "keeps (to_pin user sid n) (seq (pin e user sid) (bind (send_leg e user i (kraken e who) l reason) f))"
    if "\<And>a. keeps (pinned.holds user sid n) (f a)" for f
    unfolding keeps_triple [of "to_pin user sid n"] seq_def using that by (intro triple_bind [OF pin_pins]) auto
  have "keeps (to_pin user sid n) (seq (pin e user sid) (bind (send_leg e user i (kraken e who) l reason) (\<lambda>r.
      ret (r, lr_status r = LEG_PENDING \<and> lr_txid r = None))))"
    by (rule pinning) (rule keeps_unit)
  then show ?thesis by (cases "pg_note l"; cases stopped) (simp_all add: attempt_def keeps_unit)
qed

lemma keeps_loop_pinned: "keeps (to_pin user sid n) (attempt_and_log e user i (kraken e who) reason fiat sid l stopped)"
  unfolding attempt_and_log_def log_line_def
  by (auto intro!: keeps_intros keeps_attempt_pinned keeps_modify simp: to_pin_def)

text \<open>
  C20: when the orders of a plan are sent, every one of them leaves with the snapshot of the
  account from before the orders pinned, so that no later read of the day overwrites it.
\<close>

theorem orders_leave_pinned:
  assumes "seq unpin (send_all e user i (kraken e who) planned reason fiat sid) w = (r, w')" "snapshot_in user sid (w_db w)"
  shows "list_all (\<lambda>ev. pinned_in user sid (evt_db ev)) (sent_since (length (w_trace w)) (w_trace w'))"
proof -
  let ?n = "length (w_trace w)"
  have "keeps (to_pin user sid ?n) (send_all e user i (kraken e who) planned reason fiat sid)"
    unfolding send_all_def sell_step_def buy_step_def
    by (auto intro!: keeps_intros keeps_loop_pinned)
  moreover have "to_pin user sid ?n (w\<lparr>w_pinned := False\<rparr>)"
    using assms(2) by (simp add: to_pin_def sent_pinned_def)
  ultimately have "to_pin user sid ?n w'"
    using assms(1) by (auto simp: seq_def bind_def unpin_def modify_def dest: keepsD)
  then show ?thesis by (simp add: to_pin_def sent_pinned_def)
qed

text \<open>A plan of one buy, sent with the snapshot of the sample account in the table.\<close>

definition sample_planned :: planned where
  "sample_planned = \<lparr>pn_view = \<lparr>pv_fiat = ''EUR'', pv_cash = 100, pv_cash_target_pct = 0, pv_cash_weight_pct = 100,
       pv_managed_value = 100, pv_holdings = []\<rparr>,
     pn_legs = [\<lparr>pg_asset = ''XBT'', pg_pair = ''XXBTZEUR'', pg_side = BUY, pg_amount = 100, pg_minimum = Some 5,
       pg_note = None, pg_volume = None, pg_meta = None\<rparr>], pn_free_cash = 100, pn_fiat_places = 4\<rparr>"

definition sample_before :: world where
  "sample_before = sample_world\<lparr>w_db := sample_db\<lparr>t_snapshots := [\<lparr>sn_id = 9, sn_user = 7, sn_as_of = 0, sn_fiat = ''EUR'',
     sn_total_value = 100, sn_cash = 100, sn_holdings = JNull, sn_pinned = False\<rparr>]\<rparr>\<rparr>"

definition sample_sent :: "bool result \<times> world" where
  "sample_sent = seq unpin (send_all sample_env 7 1 (kraken sample_env (Some \<lparr>api_key = ''k'', api_secret = ''s''\<rparr>))
     sample_planned INVEST ''EUR'' 9) sample_before"

theorem orders_leave_pinned_witness:
  "list_all (\<lambda>ev. pinned_in 7 9 (evt_db ev)) (sent_since (length (w_trace sample_before)) (w_trace (snd sample_sent)))"
  by (rule orders_leave_pinned [where r = "fst sample_sent"])
    (simp_all add: sample_sent_def sample_before_def snapshot_in_def)

end
