(* ===== verification/Targets_Safety.thy ===== *)
theory Targets_Safety
  imports Service
begin

text \<open>
  The target weights of every user: whatever the application does, an asset has one weight,
  each is a percentage of two decimals, and together they are at most 100. That is what the
  engine's theorems on investments assume of their targets.
\<close>

section \<open>The weights of a user\<close>

definition user_rows :: "uuid \<Rightarrow> asset_row list \<Rightarrow> asset_row list" where
  "user_rows user rows = filter (\<lambda>row. as_user row = user) rows"

definition weights_of :: "asset_row list \<Rightarrow> dec dict" where
  "weights_of rows = map (\<lambda>row. (as_asset row, as_target_pct row)) rows"

definition targets_ok :: "asset_row list \<Rightarrow> bool" where
  "targets_ok rows \<longleftrightarrow> (\<forall>user. weights_ok (weights_of (user_rows user rows)))"

lemma rows_simps [simp]:
  "user_rows user [] = []"
  "user_rows user (row # rows) = (if as_user row = user then row # user_rows user rows else user_rows user rows)"
  "user_rows user (rows @ rows') = user_rows user rows @ user_rows user rows'"
  "weights_of [] = []" "weights_of (row # rows) = (as_asset row, as_target_pct row) # weights_of rows"
  "weights_of (rows @ rows') = weights_of rows @ weights_of rows'"
  by (simp_all add: user_rows_def weights_of_def)

lemma total_mset: "mset t = mset t' \<Longrightarrow> total t = total t'"
proof -
  assume m: "mset t = mset t'"
  have "total u = (\<Sum>p\<in>#mset u. snd p)" for u :: "dec dict"
    by (simp add: total_def case_prod_unfold flip: sum_mset_sum_list)
  with m show ?thesis by simp
qed

lemma weights_ok_mset:
  assumes m: "mset t = mset t'"
  shows "weights_ok t = weights_ok t'"
proof -
  have "distinct (map fst t) = distinct (map fst t')"
    using m by (intro mset_eq_imp_distinct_iff) simp
  then show ?thesis
    unfolding weights_ok_def dict_ok_def list_all_iff total_mset [OF m] mset_eq_setD [OF m] by (rule arg_cong2 [where f = "(\<and>)", OF _ refl])
qed

lemma weights_ok_sort: "weights_ok (weights_of (sort_key f rows)) = weights_ok (weights_of rows)"
  by (rule weights_ok_mset) (simp add: weights_of_def)

text \<open>The targets an evaluation reads are those of the table.\<close>

lemma targets_for_run:
  "targets_for user d = (Inr (weights_of (sort_key as_asset (user_rows user (t_assets d)))), d)"
  by (simp add: targets_for_def list_assets_def act_defs weights_of_def user_rows_def)

section \<open>Writing a weight\<close>

lemma weights_of_filter: "weights_of (filter (\<lambda>row. P (as_asset row)) rows) = filter (\<lambda>(a, _). P a) (weights_of rows)"
  by (induction rows) (auto simp: weights_of_def)

lemma weights_ok_filter:
  assumes "weights_ok t"
  shows "weights_ok (filter P t)"
proof -
  have "total (filter P t) \<le> total t"
    unfolding total_def by (rule sum_list_filter_le) (use assms in \<open>auto simp: weights_ok_def list_all_iff\<close>)
  then show ?thesis using assms by (auto simp: weights_ok_def dict_ok_filter list_all_iff)
qed

text \<open>A user's weights after a write: those of the other assets, and the new one in its place.\<close>

lemma weights_ok_write:
  assumes "weights_ok t" "pct_ok pct" "total (filter (\<lambda>(a, _). a \<noteq> code) t) + pct \<le> 100"
  shows "weights_ok ((code, pct) # filter (\<lambda>(a, _). a \<noteq> code) t)"
  using assms weights_ok_filter [OF assms(1), of "\<lambda>(a, _). a \<noteq> code"]
  by (auto simp: weights_ok_def pct_ok_def)

lemma PERCENT_ok: "pct_ok x \<Longrightarrow> PERCENT x = Inr x"
  using numeric_column_exact [of 2 x 5] by (auto simp: pct_ok_def PERCENT_def)

definition written_row :: "uuid \<Rightarrow> string \<Rightarrow> string \<Rightarrow> dec \<Rightarrow> asset_row \<Rightarrow> asset_row" where
  "written_row user code pair pct row =
     (if as_user row = user \<and> as_asset row = code then row\<lparr>as_pair := pair, as_target_pct := pct\<rparr> else row)"

lemma written_row_simps [simp]:
  "as_user (written_row user code pair pct row) = as_user row"
  "as_asset (written_row user code pair pct row) = as_asset row"
  "as_target_pct (written_row user code pair pct row) =
     (if as_user row = user \<and> as_asset row = code then pct else as_target_pct row)"
  by (simp_all add: written_row_def)

lemma written_other:
  "user' \<noteq> user \<Longrightarrow> weights_of (user_rows user' (map (written_row user code pair pct) rows)) = weights_of (user_rows user' rows)"
  by (induction rows) auto

lemma written_absent:
  "code \<notin> fst ` set (weights_of (user_rows user rows)) \<Longrightarrow>
     weights_of (user_rows user (map (written_row user code pair pct) rows)) = weights_of (user_rows user rows) \<and>
     filter (\<lambda>(a, _). a \<noteq> code) (weights_of (user_rows user rows)) = weights_of (user_rows user rows)"
  by (induction rows) (auto split: if_splits)

lemma written_present:
  "dict_ok (weights_of (user_rows user rows)) \<Longrightarrow> list_ex (\<lambda>row. as_user row = user \<and> as_asset row = code) rows \<Longrightarrow>
     mset (weights_of (user_rows user (map (written_row user code pair pct) rows))) =
     mset ((code, pct) # filter (\<lambda>(a, _). a \<noteq> code) (weights_of (user_rows user rows)))"
proof (induction rows)
  case (Cons row rows)
  show ?case
  proof (cases "as_user row = user \<and> as_asset row = code")
    case True
    then have "code \<notin> fst ` set (weights_of (user_rows user rows))"
      using Cons.prems(1) by simp
    note rest = written_absent [OF this, of pair pct]
    have "weights_of (user_rows user (map (written_row user code pair pct) (row # rows))) =
        (code, pct) # weights_of (user_rows user (map (written_row user code pair pct) rows))"
      "filter (\<lambda>(a, _). a \<noteq> code) (weights_of (user_rows user (row # rows))) =
        filter (\<lambda>(a, _). a \<noteq> code) (weights_of (user_rows user rows))"
      using True by simp_all
    then show ?thesis using rest by simp
  next
    case False
    let ?own = "if as_user row = user then [(as_asset row, as_target_pct row)] else []"
    have "weights_of (user_rows user (map (written_row user code pair pct) (row # rows))) =
        ?own @ weights_of (user_rows user (map (written_row user code pair pct) rows))"
      "filter (\<lambda>(a, _). a \<noteq> code) (weights_of (user_rows user (row # rows))) =
        ?own @ filter (\<lambda>(a, _). a \<noteq> code) (weights_of (user_rows user rows))"
      using False by auto
    moreover have "dict_ok (weights_of (user_rows user rows))" "list_ex (\<lambda>row. as_user row = user \<and> as_asset row = code) rows"
      using Cons.prems False by (auto split: if_splits)
    ultimately show ?thesis using Cons.IH by simp
  qed
qed simp

lemma upsert_rows:
  assumes "pct_ok pct"
  shows "t_assets (snd (upsert_asset user code pair pct d)) =
    (if list_ex (\<lambda>row. as_user row = user \<and> as_asset row = code) (t_assets d)
     then map (written_row user code pair pct) (t_assets d)
     else t_assets d @ [\<lparr>as_user = user, as_asset = code, as_pair = pair, as_target_pct = pct\<rparr>])"
  using assms unfolding upsert_asset_def PERCENT_ok [OF assms]
  by (auto simp: pct_ok_def act_defs written_row_def [abs_def])

lemma total_others:
  assumes "weights_ok (weights_of rows)"
  shows "dsum (map as_target_pct (filter (\<lambda>row. as_asset row \<noteq> code) (sort_key f rows))) =
    total (filter (\<lambda>(a, _). a \<noteq> code) (weights_of rows))"
proof -
  let ?sorted = "filter (\<lambda>row. as_asset row \<noteq> code) (sort_key f rows)"
  have "weights_ok (weights_of ?sorted)"
    unfolding weights_of_filter [of "\<lambda>a. a \<noteq> code"] by (rule weights_ok_filter) (simp add: weights_ok_sort assms)
  then have "dsum (map as_target_pct ?sorted) = total (weights_of ?sorted)"
    using weights_ok_dsum [of "weights_of ?sorted"] by (simp add: weights_of_def comp_def)
  also have "\<dots> = total (filter (\<lambda>(a, _). a \<noteq> code) (weights_of rows))"
    unfolding weights_of_filter [of "\<lambda>a. a \<noteq> code"] by (rule total_mset) (simp add: weights_of_def)
  finally show ?thesis .
qed

lemma dadd_weights:
  assumes "weights_ok t" "pct_ok pct"
  shows "dadd (total t) pct = total t + pct"
proof -
  have "dsum (map snd t @ [pct]) = sum_list (map snd t @ [pct])"
    by (rule dsum_exact [where k = 2])
      (use assms in \<open>auto simp: weights_ok_def pct_ok_def list_all_iff total_def case_prod_unfold\<close>)
  then show ?thesis
    using weights_ok_dsum [OF assms(1)] by (simp add: dsum_def total_def case_prod_unfold)
qed

lemma targets_ok_put:
  assumes ok: "targets_ok (t_assets d)" and pct: "pct_ok pct"
  shows "targets_ok (t_assets (snd (put_tx user code pair pct d)))"
proof -
  let ?rows = "t_assets d" and ?t = "weights_of (user_rows user (t_assets d))"
  let ?u = "filter (\<lambda>(a, _). a \<noteq> code) ?t"
  have t: "weights_ok ?t" using ok by (simp add: targets_ok_def)
  have others: "dsum (map as_target_pct (filter (\<lambda>row. as_asset row \<noteq> code) (sort_key as_asset (user_rows user ?rows)))) = total ?u"
    by (rule total_others [OF t])
  have put: "put_tx user code pair pct d =
      (if 100 < total ?u + pct then (Inl (HTTPException 422 (Detail (''the weights would sum to '' @ plain_amount (total ?u + pct) @ ''; the limit is 100''))), d)
       else upsert_asset user code pair pct d)"
    using others dadd_weights [OF weights_ok_filter [OF t] pct]
    by (simp add: put_tx_def list_assets_def user_rows_def act_defs HUNDRED_def)
  show ?thesis
  proof (cases "100 < total ?u + pct")
    case False
    then have w: "weights_ok ((code, pct) # ?u)" by (intro weights_ok_write [OF t pct]) simp
    show ?thesis
    proof (cases "list_ex (\<lambda>row. as_user row = user \<and> as_asset row = code) ?rows")
      case True
      have "weights_ok (weights_of (user_rows user' (map (written_row user code pair pct) ?rows)))" for user'
      proof (cases "user' = user")
        case user: True
        have "dict_ok ?t" using t by (simp add: weights_ok_def)
        from weights_ok_mset [OF written_present [OF this True]] w show ?thesis by (simp add: user)
      next
        case False
        then show ?thesis using ok by (simp add: written_other targets_ok_def)
      qed
      then show ?thesis using True False by (simp add: put upsert_rows [OF pct] targets_ok_def)
    next
      case absent: False
      then have "code \<notin> fst ` set ?t" by (auto simp: weights_of_def user_rows_def list_ex_iff)
      from written_absent [OF this] have "?u = ?t" by blast
      moreover have "mset (?t @ [(code, pct)]) = mset ((code, pct) # ?t)" by simp
      ultimately have "weights_ok (?t @ [(code, pct)])" using w weights_ok_mset by metis
      then show ?thesis
        using absent False ok
        by (auto simp: put upsert_rows [OF pct] targets_ok_def)
    qed
  qed (simp add: put ok)
qed

lemma targets_ok_delete: "targets_ok (t_assets d) \<Longrightarrow> targets_ok (t_assets (snd (delete_asset user code d)))"
proof -
  assume ok: "targets_ok (t_assets d)"
  have "weights_ok (weights_of (user_rows user' (filter (\<lambda>row. \<not> (as_user row = user \<and> as_asset row = code)) (t_assets d))))" for user'
  proof -
    have "user_rows user' (filter (\<lambda>row. \<not> (as_user row = user \<and> as_asset row = code)) (t_assets d)) =
        filter (\<lambda>row. user' = user \<longrightarrow> as_asset row \<noteq> code) (user_rows user' (t_assets d))"
      by (auto simp: user_rows_def intro: filter_cong)
    then show ?thesis using ok weights_ok_filter by (simp add: weights_of_filter [of "\<lambda>a. user' = user \<longrightarrow> a \<noteq> code"] targets_ok_def)
  qed
  then show ?thesis using ok by (auto simp: delete_asset_def act_defs targets_ok_def)
qed

section \<open>The targets of a reachable database\<close>

interpretation targets: execution_blind_invariant "\<lambda>d tr. targets_ok (t_assets d)"
  by unfold_locales simp_all

interpretation targets: proposal_blind_invariant "\<lambda>d tr. targets_ok (t_assets d)"
  by unfold_locales simp

interpretation targets: account_blind_invariant "\<lambda>d tr. targets_ok (t_assets d)"
  by unfold_locales simp_all

interpretation targets: setting_blind_invariant "\<lambda>d tr. targets_ok (t_assets d)"
  by unfold_locales simp

lemma targets_safe: "(\<And>d. targets_ok (t_assets d) \<Longrightarrow> targets_ok (t_assets (snd (m d)))) \<Longrightarrow> targets.safe m"
  unfolding targets.safe_def by (metis snd_conv)

interpretation targets: account_invariant "\<lambda>d tr. targets_ok (t_assets d)"
  using targets_safe [OF targets_ok_put] targets_safe [OF targets_ok_delete]
  by unfold_locales (auto intro: targets.safe_schedules targets.safe_patch)

lemma sample_rows_ok: "targets_ok (t_assets sample_db)"
proof -
  have "on_grid 2 100" by (rule on_gridI [of _ _ 10000]) simp
  then show ?thesis by (simp add: sample_db_def empty_db_def targets_ok_def weights_ok_def dict_ok_def total_def)
qed

text \<open>
  C12: whatever the service does, the targets an evaluation reads for a user have each asset
  once, each weight a percentage of at most two decimals between 0 and 100, and all of them
  together at most 100: the engine is never asked to invest more than there is.
\<close>

theorem targets_never_exceed:
  assumes "service_steps config w w'" "targets_ok (t_assets (w_db w))" "targets_for user (w_db w') = (Inr targets, d)"
  shows "weights_ok targets \<and> total targets \<le> 100"
proof -
  have "targets_ok (t_assets (w_db w'))"
    using targets.service_steps_hold [OF assms(1)] assms(2) by (simp add: targets.holds_def)
  then have "weights_ok targets"
    using assms(3) by (auto simp: targets_for_run weights_ok_sort targets_ok_def)
  then show ?thesis by (simp add: weights_ok_def)
qed

theorem targets_never_exceed_witness:
  "weights_ok (weights_of (sort_key as_asset (user_rows 7 (t_assets (w_db sample_invested))))) \<and>
    total (weights_of (sort_key as_asset (user_rows 7 (t_assets (w_db sample_invested))))) \<le> 100"
  by (rule targets_never_exceed [OF sample_step _ targets_for_run])
    (simp add: sample_world_def sample_rows_ok)

end
