(* ===== verification/Settings_Safety.thy ===== *)
theory Settings_Safety
  imports Service
begin

text \<open>
  The typing of a user's settings: whatever the application does, a row has a supported fiat,
  cadences the scheduler can walk, settings within their columns' bounds, and the next runs
  that its switches ask for. It is stated of a row, kept by each change of one, and then an
  invariant of the service.
\<close>

section \<open>A well-typed row\<close>

fun optional :: "('a \<Rightarrow> bool) \<Rightarrow> 'a option \<Rightarrow> bool" where
  "optional P None = True"
| "optional P (Some x) = P x"

definition lengths_ok :: "cadence \<Rightarrow> bool" where
  "lengths_ok c \<longleftrightarrow> optional (int_within 3650) (cad_interval_days c) \<and> optional (int_within 120) (cad_interval_months c)"

definition bounds_ok :: "settings_row \<Rightarrow> bool" where
  "bounds_ok s \<longleftrightarrow> st_fiat s \<in> set SUPPORTED_FIATS \<and> lengths_ok (st_invest_cadence s) \<and> lengths_ok (st_rebalance_cadence s) \<and>
     0 \<le> st_min_drift_pct s \<and> st_min_drift_pct s \<le> 100 \<and> 0 \<le> st_min_order_fiat s \<and> 0 \<le> st_failure_streak s"

text \<open>The next run of an operation is there exactly when the operation is switched on.\<close>

definition due_ok :: "run \<Rightarrow> settings_row \<Rightarrow> bool" where
  "due_ok k s \<longleftrightarrow> (run_at k s \<noteq> None) = (k = REBALANCE_RUN \<or> st_invest_cash_enabled s)"

definition settings_ok :: "settings_row \<Rightarrow> bool" where
  "settings_ok s \<longleftrightarrow> bounds_ok s \<and>
     cadence_problem INVEST_RUN (st_invest_cadence s) = None \<and> cadence_problem REBALANCE_RUN (st_rebalance_cadence s) = None \<and>
     due_ok INVEST_RUN s \<and> due_ok REBALANCE_RUN s"

section \<open>Changes of a row\<close>

text \<open>What a change may set.\<close>

fun setting_ok :: "setting \<Rightarrow> bool" where
  "setting_ok (Set_min_drift_pct x) = decimal_within 100 1 x"
| "setting_ok (Set_min_order_fiat x) = decimal_within (9999999999 / 10) 1 x"
| "setting_ok (Set_invest_interval_days n) = optional (int_within 3650) n"
| "setting_ok (Set_invest_interval_months n) = optional (int_within 120) n"
| "setting_ok (Set_rebalance_interval_days n) = optional (int_within 3650) n"
| "setting_ok (Set_rebalance_interval_months n) = optional (int_within 120) n"
| "setting_ok (Set_failure_streak n) = (0 \<le> n)"
| "setting_ok _ = True"

lemma column_keeps:
  assumes "numeric_column p (Suc 0) x = Inr y" "on_grid 1 x"
  shows "y = x"
  using assms numeric_column_exact [of 1 x p] by (simp split: if_splits)

lemma set_field_bounds: "set_field f s = Inr s' \<Longrightarrow> setting_ok f \<Longrightarrow> bounds_ok s \<Longrightarrow> bounds_ok s'"
  by (cases f) (auto simp: bounds_ok_def lengths_ok_def DRIFT_PCT_def ORDER_FIAT_def decimal_within_def
      result_simps dest: column_keeps split: sum.splits)

lemma set_fields_bounds: "set_fields fs s = Inr s' \<Longrightarrow> list_all setting_ok fs \<Longrightarrow> bounds_ok s \<Longrightarrow> bounds_ok s'"
  by (induction fs arbitrary: s) (auto simp: result_simps intro: set_field_bounds split: sum.splits)

text \<open>The cadences a PATCH checks are those of the row it leaves.\<close>

definition same_cadences :: "settings_row \<Rightarrow> settings_row \<Rightarrow> bool" where
  "same_cadences s t \<longleftrightarrow> st_invest_cadence s = st_invest_cadence t \<and> st_rebalance_cadence s = st_rebalance_cadence t"

lemma set_field_cadences:
  assumes "set_field f s = Inr s'" "same_cadences s t"
  shows "if cadence_setting f then \<exists>t'. set_field f t = Inr t' \<and> same_cadences s' t' else same_cadences s' t"
  using assms by (cases f) (auto simp: same_cadences_def result_simps split: sum.splits)

lemma set_fields_cadences:
  "set_fields fs s = Inr s' \<Longrightarrow> same_cadences s t \<Longrightarrow>
     \<exists>t'. set_fields (filter cadence_setting fs) t = Inr t' \<and> same_cadences s' t'"
proof (induction fs arbitrary: s t)
  case (Cons f fs)
  then obtain s1 where s1: "set_field f s = Inr s1" "set_fields fs s1 = Inr s'"
    by (auto simp: result_simps split: sum.splits)
  show ?case
    using set_field_cadences [OF s1(1) Cons.prems(2)] Cons.IH [OF s1(2)]
    by (auto simp: result_simps split: if_splits)
qed simp

lemma merged_final: "set_fields (map snd changes) s = Inr s' \<Longrightarrow> merged s changes k = run_cadence k s'"
  using set_fields_cadences [of "map snd changes" s s' s]
  by (cases k) (auto simp: merged_def same_cadences_def)

text \<open>Next runs that follow from a row, and are set on one with the same switch.\<close>

definition moves_of :: "uuid \<Rightarrow> settings_row \<Rightarrow> datetime \<Rightarrow> scheduler_config \<Rightarrow> run list \<Rightarrow> setting list result" where
  "moves_of user s t0 config ks = rmap (\<lambda>k. rbind (next_run user s k t0 config) (\<lambda>t. Inr (set_next k t))) ks"

lemma next_run_switch: "next_run user s k t0 config = Inr t \<Longrightarrow> (t \<noteq> None) = (k = REBALANCE_RUN \<or> st_invest_cash_enabled s)"
  by (cases k) (auto simp: next_run_def result_simps split: if_splits sum.splits)

text \<open>A row that differs in its next runs at most.\<close>

definition rescheduling :: "settings_row \<Rightarrow> settings_row \<Rightarrow> bool" where
  "rescheduling s s' \<longleftrightarrow>
     s' = s\<lparr>st_next_invest_at := st_next_invest_at s', st_next_rebalance_at := st_next_rebalance_at s'\<rparr>"

lemma all_run: "(\<forall>k. P k) \<longleftrightarrow> P INVEST_RUN \<and> P REBALANCE_RUN"
  by (metis run.exhaust)

lemma rescheduling_trans: "rescheduling s s1 \<Longrightarrow> rescheduling s1 s2 \<Longrightarrow> rescheduling s s2"
  by (cases s; cases s1; cases s2) (simp add: rescheduling_def)

lemma rescheduling_same:
  "rescheduling s s' \<Longrightarrow> st_invest_cash_enabled s' = st_invest_cash_enabled s \<and> run_cadence k s' = run_cadence k s \<and>
     bounds_ok s' = bounds_ok s"
  by (cases k; cases s; cases s') (simp_all add: rescheduling_def bounds_ok_def)

lemma set_next_field:
  "\<exists>s'. set_field (set_next k t) s = Inr s' \<and> rescheduling s s' \<and> run_at k s' = t \<and> (\<forall>j. j \<noteq> k \<longrightarrow> run_at j s' = run_at j s)"
  by (cases k) (simp_all add: rescheduling_def all_run)

lemma moves_of_due:
  "moves_of user s0 t0 config ks = Inr moves \<Longrightarrow> st_invest_cash_enabled s = st_invest_cash_enabled s0 \<Longrightarrow>
     set_fields moves s = Inr s' \<Longrightarrow> rescheduling s s' \<and> (\<forall>k. k \<in> set ks \<or> due_ok k s \<longrightarrow> due_ok k s')"
proof (induction ks arbitrary: moves s)
  case Nil
  then show ?case by (simp add: moves_of_def rescheduling_def)
next
  case (Cons k ks)
  then obtain t rest where t: "next_run user s0 k t0 config = Inr t" "moves_of user s0 t0 config ks = Inr rest"
    "moves = set_next k t # rest"
    by (auto simp: moves_of_def result_simps split: sum.splits)
  obtain s1 where s1: "set_field (set_next k t) s = Inr s1" "rescheduling s s1" "run_at k s1 = t"
    "\<forall>j. j \<noteq> k \<longrightarrow> run_at j s1 = run_at j s"
    using set_next_field by blast
  have on: "st_invest_cash_enabled s1 = st_invest_cash_enabled s" using rescheduling_same [OF s1(2)] by simp
  have "set_fields rest s1 = Inr s'" using Cons.prems(3) t(3) s1(1) by (simp add: result_simps)
  with Cons.IH [OF t(2)] on Cons.prems(2) have "rescheduling s1 s'" "\<forall>j. j \<in> set ks \<or> due_ok j s1 \<longrightarrow> due_ok j s'" by auto
  moreover have "due_ok k s1" "\<forall>j. j \<noteq> k \<longrightarrow> due_ok j s \<longrightarrow> due_ok j s1"
    using next_run_switch [OF t(1)] s1(3,4) on Cons.prems(2) by (auto simp: due_ok_def)
  moreover have "rescheduling s s'" using s1(2) \<open>rescheduling s1 s'\<close> by (rule rescheduling_trans)
  ultimately show ?case by auto
qed

section \<open>The table of the settings\<close>

definition settings_typed :: "db \<Rightarrow> bool" where
  "settings_typed d \<longleftrightarrow> dict_ok (t_settings d) \<and> list_all (\<lambda>(user, s). settings_ok s) (t_settings d)"

lemma settings_typed_row: "settings_typed d \<Longrightarrow> map_of (t_settings d) user = Some s \<Longrightarrow> settings_ok s"
  by (auto simp: settings_typed_def list_all_iff dest: map_of_SomeD)

text \<open>While a transaction works on one user's row, the other rows are as they were.\<close>

definition working :: "db \<Rightarrow> uuid \<Rightarrow> settings_row \<Rightarrow> db \<Rightarrow> bool" where
  "working d user s d' \<longleftrightarrow> dict_ok (t_settings d') \<and> map_of (t_settings d') user = Some s \<and>
     (\<forall>u. u \<noteq> user \<longrightarrow> map_of (t_settings d') u = map_of (t_settings d) u)"

lemma working_typed:
  assumes "settings_typed d" "working d user s d'" "settings_ok s"
  shows "settings_typed d'"
proof -
  have "settings_ok r" if "(u, r) \<in> set (t_settings d')" for u r
  proof (cases "u = user")
    case True
    then show ?thesis using that assms(2,3) by (auto simp: working_def simp flip: dict_ok_map_of)
  next
    case False
    then have "map_of (t_settings d) u = Some r"
      using that assms(2) by (auto simp: working_def simp flip: dict_ok_map_of)
    then show ?thesis by (rule settings_typed_row [OF assms(1)])
  qed
  then show ?thesis using assms(2) by (auto simp: settings_typed_def working_def list_all_iff)
qed

lemma working_update:
  assumes "update_settings user fs d1 = (Inr r, d2)" "working d user s d1"
  shows "\<exists>s'. set_fields fs s = Inr s' \<and> r = Some s' \<and> working d user s' d2"
proof -
  have "map_of (t_settings d1) user = Some s" using assms(2) by (simp add: working_def)
  with assms(1) obtain s' where s': "set_fields fs s = Inr s'" "r = Some s'" "d2 = d1\<lparr>t_settings := AList.update user s' (t_settings d1)\<rparr>"
    unfolding update_settings_def get_settings_def act_defs by (auto split: if_splits sum.splits)
  then show ?thesis using assms(2) by (auto simp: working_def update_conv' dict_ok_update)
qed

lemma working_updated:
  assumes "updated user fs s d1 = (Inr s', d2)" "working d user s d1"
  shows "set_fields fs s = Inr s' \<and> working d user s' d2"
proof (cases "fs = []")
  case False
  with assms(1) obtain r d3 where u: "update_settings user fs d1 = (Inr r, d3)"
    "(case r of None \<Rightarrow> throw AttributeError | Some s' \<Rightarrow> ret s') d3 = (Inr s', d2)"
    by (auto simp: updated_def bind_def split: prod.splits sum.splits)
  from working_update [OF u(1) assms(2)] u(2) show ?thesis by (auto simp: ret_def)
qed (use assms in \<open>auto simp: updated_def ret_def\<close>)

lemma working_self: "settings_typed d \<Longrightarrow> map_of (t_settings d) user = Some s \<Longrightarrow> working d user s d"
  by (simp add: working_def settings_typed_def)

section \<open>The transactions that change a row\<close>

lemma moved_typed:
  assumes d: "settings_typed d" "map_of (t_settings d) user = Some s"
    and moves: "moves_of user s t0 config ks = Inr moves" and u: "update_settings user moves d = (Inr r, d')"
  shows "settings_typed d'"
proof -
  from working_update [OF u working_self [OF d]]
  obtain s' where s': "set_fields moves s = Inr s'" "working d user s' d'" by blast
  from moves_of_due [OF moves refl s'(1)] settings_typed_row [OF d]
  have "settings_ok s'" using rescheduling_same [of s s' INVEST_RUN] rescheduling_same [of s s' REBALANCE_RUN]
    by (simp add: settings_ok_def)
  from working_typed [OF d(1) s'(2) this] show ?thesis .
qed

lemma advance_typed: "advance_tx config user k t0 d = (Inr a, d') \<Longrightarrow> settings_typed d \<Longrightarrow> settings_typed d'"
proof (cases "map_of (t_settings d) user")
  case (Some s)
  assume r: "advance_tx config user k t0 d = (Inr a, d')" and d: "settings_typed d"
  from r Some obtain t u where "next_run user s k t0 config = Inr t" "update_settings user [set_next k t] d = (Inr u, d')"
    by (auto simp: advance_tx_def get_settings_def act_defs split: sum.splits prod.splits)
  then show ?thesis
    using moved_typed [OF d Some, of t0 config "[k]" "[set_next k t]" u d'] by (simp add: moves_of_def)
qed (auto simp: advance_tx_def get_settings_def act_defs)

lemma count_typed: "count_tx user failed d = (Inr a, d') \<Longrightarrow> settings_typed d \<Longrightarrow> settings_typed d'"
proof (cases "map_of (t_settings d) user")
  case (Some s)
  assume r: "count_tx user failed d = (Inr a, d')" and d: "settings_typed d"
  let ?after = "if failed then st_failure_streak s + 1 else 0"
  have s: "settings_ok s" by (rule settings_typed_row [OF d Some])
  show ?thesis
  proof (cases "?after = st_failure_streak s")
    case False
    with r Some obtain u where u: "update_settings user [Set_failure_streak ?after] d = (Inr u, d')"
      by (auto simp: count_tx_def get_settings_def act_defs Let_def split: sum.splits prod.splits if_splits)
    from working_update [OF u working_self [OF d Some]]
    have "working d user (s\<lparr>st_failure_streak := ?after\<rparr>) d'" by auto
    moreover have "settings_ok (s\<lparr>st_failure_streak := ?after\<rparr>)"
      using s by (simp add: settings_ok_def bounds_ok_def due_ok_def)
    ultimately show ?thesis by (rule working_typed [OF d])
  qed (use r d Some in \<open>auto simp: count_tx_def get_settings_def act_defs Let_def\<close>)
qed (auto simp: count_tx_def get_settings_def act_defs)

text \<open>In a typed table there is nothing to fill in.\<close>

lemma backfill_typed: "backfill t0 config d = (Inr n, d') \<Longrightarrow> settings_typed d \<Longrightarrow> settings_typed d'"
proof -
  assume r: "backfill t0 config d = (Inr n, d')" and d: "settings_typed d"
  have "filter (\<lambda>(user, s). st_next_rebalance_at s = None \<or> (st_invest_cash_enabled s \<and> st_next_invest_at s = None)) (t_settings d) = []"
    using d by (auto simp: filter_empty_conv settings_typed_def list_all_iff settings_ok_def due_ok_def)
  then show ?thesis using r d by (simp add: backfill_def unscheduled_settings_def act_defs)
qed

section \<open>A PATCH\<close>

lemma patch_start:
  assumes "settings_for_patch user fiat d = (Inr (s, created), d1)" "settings_typed d"
  shows "working d user s d1 \<and> bounds_ok s \<and> (\<not> created \<longrightarrow> settings_ok s)"
proof (cases "map_of (t_settings d) user")
  case None
  then have fresh: "user \<notin> fst ` set (t_settings d)" by (simp add: map_of_eq_None_iff)
  from assms(1) None obtain f where f: "f \<in> set SUPPORTED_FIATS" "created" "s = default_settings f"
    "d1 = d\<lparr>t_settings := t_settings d @ [(user, default_settings f)]\<rparr>"
    by (auto simp: settings_for_patch_def create_settings_def get_settings_def act_defs split: option.splits if_splits)
  have "bounds_ok s" using f(1,3) by (simp add: bounds_ok_def lengths_ok_def default_settings_def)
  moreover have "working d user s d1"
    using assms(2) f(3,4) fresh None by (auto simp: working_def settings_typed_def dict_ok_def map_add_def split: option.splits)
  ultimately show ?thesis using f(2) by simp
next
  case (Some r)
  then have "s = r" "d1 = d" "\<not> created"
    using assms(1) by (auto simp: settings_for_patch_def get_settings_def act_defs split: if_splits)
  then show ?thesis
    using working_self [OF assms(2) Some] settings_typed_row [OF assms(2) Some] by (simp add: settings_ok_def)
qed

text \<open>What the fields of a validated body may set: values within bounds, and no next run.\<close>

fun sets_next :: "setting \<Rightarrow> bool" where
  "sets_next (Set_next_invest_at t) = True"
| "sets_next (Set_next_rebalance_at t) = True"
| "sets_next f = False"

lemma value_of_all: "list_all P (map snd (value_of name f v)) \<longleftrightarrow> given (\<lambda>x. P (f x)) v"
  by (cases v) simp_all

lemma option_of_all: "list_all P (map snd (option_of name f v)) \<longleftrightarrow> (v = Null \<longrightarrow> P (f None)) \<and> given (\<lambda>x. P (f (Some x))) v"
  by (cases v) simp_all

lemma given_cong [simp]: "given (\<lambda>x. True) v"
  by (cases v) simp_all

lemma changes_ok: "validated p = Inr q \<Longrightarrow> list_all (\<lambda>f. setting_ok f \<and> \<not> sets_next f) (map snd (changes_of q))"
  by (simp add: changes_of_def value_of_all option_of_all validated_Inr bad_fields_def split: if_splits)

lemma value_of_in: "x \<in> set (value_of name f v) \<longleftrightarrow> (\<exists>y. v = Given y \<and> x = (name, f y))"
  by (cases v) auto

lemma option_of_in:
  "x \<in> set (option_of name f v) \<longleftrightarrow> v = Null \<and> x = (name, f None) \<or> (\<exists>y. v = Given y \<and> x = (name, f (Some y)))"
  by (cases v) auto

lemma switch_named:
  "''invest_cash_enabled'' \<notin> set (map fst (changes_of p)) \<Longrightarrow> Set_invest_cash_enabled b \<notin> set (map snd (changes_of p))"
proof -
  have "snd x = Set_invest_cash_enabled b \<longrightarrow> fst x = ''invest_cash_enabled''" if "x \<in> set (changes_of p)" for x
    using that unfolding changes_of_def by (auto simp: value_of_in option_of_in)
  then show "''invest_cash_enabled'' \<notin> set (map fst (changes_of p)) \<Longrightarrow> ?thesis" unfolding set_map image_iff by metis
qed

lemma set_field_kept:
  "set_field f s = Inr s' \<Longrightarrow> \<not> sets_next f \<Longrightarrow> run_at k s' = run_at k s \<and>
     ((\<forall>b. f \<noteq> Set_invest_cash_enabled b) \<longrightarrow> st_invest_cash_enabled s' = st_invest_cash_enabled s)"
  by (cases f; cases k) (auto simp: result_simps)

lemma set_fields_kept:
  "set_fields fs s = Inr s' \<Longrightarrow> list_all (\<lambda>f. \<not> sets_next f) fs \<Longrightarrow> run_at k s' = run_at k s \<and>
     ((\<forall>b. Set_invest_cash_enabled b \<notin> set fs) \<longrightarrow> st_invest_cash_enabled s' = st_invest_cash_enabled s)"
proof (induction fs arbitrary: s)
  case (Cons f fs)
  then obtain s1 where "set_field f s = Inr s1" "set_fields fs s1 = Inr s'" by (auto simp: result_simps)
  with Cons.IH [of s1] Cons.prems(2) set_field_kept [of f s s1 k] show ?case by auto
qed simp

text \<open>The operations whose next run a PATCH moves are all those whose switch it may have changed.\<close>

lemma unmoved_due:
  assumes "set_fields (map snd (changes_of p)) s = Inr s1" "list_all (\<lambda>f. \<not> sets_next f) (map snd (changes_of p))"
    and "due_ok k s" "\<not> list_ex (\<lambda>name. name \<in> set (map fst (changes_of p))) (SOURCES k)"
  shows "due_ok k s1"
proof (cases k)
  case INVEST_RUN
  then have "''invest_cash_enabled'' \<notin> set (map fst (changes_of p))" using assms(4) by simp
  from switch_named [OF this] have "st_invest_cash_enabled s1 = st_invest_cash_enabled s"
    using set_fields_kept [OF assms(1,2)] by blast
  then show ?thesis using assms(3) set_fields_kept [OF assms(1,2), of k] by (simp add: due_ok_def)
next
  case REBALANCE_RUN
  then show ?thesis using assms(3) set_fields_kept [OF assms(1,2), of k] by (simp add: due_ok_def)
qed

lemma filter_runs: "k \<in> set (filter P [INVEST_RUN, REBALANCE_RUN]) \<longleftrightarrow> P k"
  by (cases k) auto

lemma patch_row:
  assumes s: "bounds_ok s" "\<not> created \<longrightarrow> settings_ok s" and p: "validated b = Inr p"
    and s1: "set_fields (map snd (changes_of p)) s = Inr s1"
    and cadences: "\<forall>k. cadence_problem k (merged s (changes_of p) k) = None"
    and moves: "rescheduled user s1 (if created then SOURCES INVEST_RUN @ SOURCES REBALANCE_RUN else map fst (changes_of p)) t0 config = Inr moves"
    and s2: "set_fields moves s1 = Inr s2"
  shows "settings_ok s2"
proof -
  have ok: "list_all setting_ok (map snd (changes_of p))" "list_all (\<lambda>f. \<not> sets_next f) (map snd (changes_of p))"
    using changes_ok [OF p] by (simp_all add: list_all_iff)
  let ?moved = "\<lambda>k. list_ex (\<lambda>name. name \<in> set (if created then SOURCES INVEST_RUN @ SOURCES REBALANCE_RUN else map fst (changes_of p))) (SOURCES k)"
  have "moves_of user s1 t0 config (filter ?moved [INVEST_RUN, REBALANCE_RUN]) = Inr moves"
    using moves by (simp add: rescheduled_def moves_of_def)
  from moves_of_due [OF this refl s2] have r: "rescheduling s1 s2"
    and due: "\<forall>k. k \<in> set (filter ?moved [INVEST_RUN, REBALANCE_RUN]) \<or> due_ok k s1 \<longrightarrow> due_ok k s2" by auto
  have "due_ok k s2" for k
  proof (cases "?moved k")
    case True
    then show ?thesis using due by (simp only: filter_runs) blast
  next
    case False
    then have "\<not> created" by (cases k) auto
    then have "due_ok k s" using s(2) by (cases k) (simp_all add: settings_ok_def)
    from unmoved_due [OF s1 ok(2) this] False \<open>\<not> created\<close> have "due_ok k s1" by simp
    then show ?thesis using due by blast
  qed
  moreover have "bounds_ok s2" using set_fields_bounds [OF s1 ok(1) s(1)] rescheduling_same [OF r] by simp
  moreover have "cadence_problem k (run_cadence k s2) = None" for k
    using cadences rescheduling_same [OF r] by (simp add: merged_final [OF s1])
  from this [of INVEST_RUN] this [of REBALANCE_RUN] have "cadence_problem INVEST_RUN (st_invest_cadence s2) = None"
    "cadence_problem REBALANCE_RUN (st_rebalance_cadence s2) = None" by simp_all
  ultimately show ?thesis by (simp add: settings_ok_def)
qed

lemma patch_typed:
  assumes p: "validated b = Inr p" and r: "patch_tx user p config t0 t1 d = (Inr a, d')" and d: "settings_typed d"
  shows "settings_typed d'"
proof -
  have check: "(case x of None \<Rightarrow> ret () | Some why \<Rightarrow> throw (f why)) e = (Inr u, e') \<longleftrightarrow> x = None \<and> e' = e" for x f u e e'
    by (auto simp: ret_def throw_def split: option.splits)
  from r obtain s created d1 s1 d2 moves s2 d3 where
    start: "settings_for_patch user (chosen_fiat p) d = (Inr (s, created), d1)"
    and cadences: "cadence_problem INVEST_RUN (merged s (changes_of p) INVEST_RUN) = None"
      "cadence_problem REBALANCE_RUN (merged s (changes_of p) REBALANCE_RUN) = None"
    and s1: "updated user (map snd (changes_of p)) s d1 = (Inr s1, d2)"
    and moves: "rescheduled user s1 (if created then SOURCES INVEST_RUN @ SOURCES REBALANCE_RUN else map fst (changes_of p)) t0 config = Inr moves"
    and s2: "updated user moves s1 d2 = (Inr s2, d3)"
    and s3: "updated user (if cp_onboarded p = Given True \<and> st_onboarded_at s2 = None then [Set_onboarded_at (Some t1)] else []) s2 d3 = (Inr a, d')"
    unfolding patch_tx_def Let_def
    by (auto simp: bind_Inr_iff seq_Inr_iff check lift_result_def split: prod.splits)
  note st = patch_start [OF start d]
  from working_updated [OF s1] st have w1: "set_fields (map snd (changes_of p)) s = Inr s1" "working d user s1 d2" by auto
  from working_updated [OF s2 w1(2)] have w2: "set_fields moves s1 = Inr s2" "working d user s2 d3" by auto
  from working_updated [OF s3 w2(2)] have w3: "working d user a d'" "a = s2 \<or> a = s2\<lparr>st_onboarded_at := Some t1\<rparr>"
    by (auto split: if_splits)
  have "settings_ok s2"
    using cadences by (intro patch_row [OF _ _ p w1(1) _ moves w2(1)]) (use st in \<open>simp_all add: all_run\<close>)
  then have "settings_ok a" using w3(2) by (auto simp: settings_ok_def bounds_ok_def due_ok_def)
  from working_typed [OF d w3(1) this] show ?thesis .
qed

section \<open>The settings of a reachable database\<close>

interpretation typed: execution_blind_invariant "\<lambda>d tr. settings_typed d"
  by unfold_locales (simp_all add: settings_typed_def)

interpretation typed: proposal_blind_invariant "\<lambda>d tr. settings_typed d"
  by unfold_locales (simp add: settings_typed_def)

interpretation typed: account_blind_invariant "\<lambda>d tr. settings_typed d"
  by unfold_locales (simp_all add: settings_typed_def)

interpretation typed: target_blind_invariant "\<lambda>d tr. settings_typed d"
  by unfold_locales (simp add: settings_typed_def)

interpretation typed: account_invariant "\<lambda>d tr. settings_typed d"
  by unfold_locales (auto intro: typed.safe_assets typed.safeI advance_typed count_typed backfill_typed patch_typed)

text \<open>
  C13: whatever the service does, every row of the settings stays well typed: its fiat is one of
  those supported, the lengths of its cadences and its minimums are within the bounds of their
  columns, an INTERVAL cadence has a length and an anchor, the next rebalance is set, and the
  next investment is set exactly while investing is on.
\<close>

theorem settings_stay_typed:
  assumes "service_steps config w w'" "settings_typed (w_db w)" "map_of (t_settings (w_db w')) user = Some s"
  shows "bounds_ok s \<and> cadence_problem INVEST_RUN (st_invest_cadence s) = None \<and>
    cadence_problem REBALANCE_RUN (st_rebalance_cadence s) = None \<and> st_next_rebalance_at s \<noteq> None \<and>
    (st_next_invest_at s \<noteq> None \<longleftrightarrow> st_invest_cash_enabled s)"
proof -
  have "settings_typed (w_db w')" using typed.service_steps_hold [OF assms(1)] assms(2) by (simp add: typed.holds_def)
  from settings_typed_row [OF this assms(3)] show ?thesis by (simp add: settings_ok_def due_ok_def)
qed

text \<open>An account that invests every week, and a start of the process over it.\<close>

definition weekly_settings :: settings_row where
  "weekly_settings = (default_settings ''EUR'')\<lparr>st_invest_cash_enabled := True, st_min_drift_pct := 5 / 2,
     st_invest_cadence := \<lparr>cad_mode = INTERVAL, cad_interval_days = Some 7, cad_interval_months = None, cad_anchor = Some 0\<rparr>,
     st_next_invest_at := Some (7 * DAY), st_next_rebalance_at := Some (900 * SECOND)\<rparr>"

definition weekly_world :: world where
  "weekly_world = sample_world\<lparr>w_db := sample_db\<lparr>t_settings := [(7, weekly_settings)]\<rparr>\<rparr>"

lemma weekly_typed: "settings_typed (w_db weekly_world)"
  by (simp add: weekly_world_def settings_typed_def settings_ok_def bounds_ok_def lengths_ok_def int_within_def due_ok_def
      weekly_settings_def default_settings_def SUPPORTED_FIATS_def cadence_problem_def)

theorem settings_stay_typed_witness:
  "bounds_ok weekly_settings \<and> cadence_problem INVEST_RUN (st_invest_cadence weekly_settings) = None \<and>
    cadence_problem REBALANCE_RUN (st_rebalance_cadence weekly_settings) = None \<and> st_next_rebalance_at weekly_settings \<noteq> None \<and>
    (st_next_invest_at weekly_settings \<noteq> None \<longleftrightarrow> st_invest_cash_enabled weekly_settings)"
proof (rule settings_stay_typed [OF _ weekly_typed])
  show "service_steps default_scheduler_config weekly_world (snd (start sample_env default_scheduler_config weekly_world))"
    by (rule r_into_rtranclp, rule step_start [OF surjective_pairing])
  show "map_of (t_settings (w_db (snd (start sample_env default_scheduler_config weekly_world)))) 7 = Some weekly_settings"
    by (simp add: start_def now_def transaction_def session_scope_def backfill_def unscheduled_settings_def act_defs
        weekly_world_def weekly_settings_def)
qed

end
