(* ===== verification/Execution_Bounds.thy ===== *)
theory Execution_Bounds
  imports Execution Allocation Reconcile
begin

text \<open>
  What an evaluation may send of a plan: the buys stay within the budget the sells left, and no
  sell is of more than is held.
\<close>

section \<open>The buys within the budget\<close>

text \<open>The legs that are to be sent, and what they ask for together.\<close>

definition sendable_legs :: "planned_leg list \<Rightarrow> planned_leg list" where
  "sendable_legs ls = filter (\<lambda>l. pg_note l = None) ls"

definition asked_for :: "planned_leg list \<Rightarrow> dec" where
  "asked_for ls = sum_list (map pg_amount (sendable_legs ls))"

lemma legs_simps [simp]:
  "sendable_legs [] = []" "sendable_legs (l # ls) = (if pg_note l = None then l # sendable_legs ls else sendable_legs ls)"
  "asked_for [] = 0" "asked_for (l # ls) = (if pg_note l = None then pg_amount l + asked_for ls else asked_for ls)"
  by (simp_all add: sendable_legs_def asked_for_def)

text \<open>A leg as it was shrunk: out of the plan as before, or smaller, and out of it below its minimum.\<close>

definition shrunk :: "dec \<Rightarrow> planned_leg \<Rightarrow> planned_leg \<Rightarrow> bool" where
  "shrunk factor l l' \<longleftrightarrow> l' = l\<lparr>pg_amount := pg_amount l', pg_note := pg_note l'\<rparr> \<and>
     (if pg_note l \<noteq> None then l' = l
      else 0 \<le> pg_amount l' \<and> pg_amount l' \<le> dec_round (pg_amount l * factor) \<and>
        (\<exists>minimum. pg_minimum l = Some minimum \<and> (pg_note l' = None \<longleftrightarrow> minimum \<le> pg_amount l')))"

lemma shrink_shrunk:
  assumes "shrink factor fiat l = Inr l'" "0 \<le> factor" "pg_note l = None \<longrightarrow> 0 \<le> pg_amount l"
  shows "shrunk factor l l'"
proof (cases "pg_note l")
  case None
  with assms(1) obtain meta amount minimum f where m: "round_cost meta (dmul (pg_amount l) factor) = Inr amount"
    "pg_minimum l = Some minimum" "l' = l\<lparr>pg_amount := amount, pg_note := map_option f (below_minimum fiat amount minimum)\<rparr>"
    by (auto simp: shrink_def result_simps split: option.splits)
  have "0 \<le> dmul (pg_amount l) factor" using assms(2,3) None by (simp add: dmul_def dec.nonneg)
  from round_cost_bounds [OF m(1) this] show ?thesis
    using m(2,3) None by (auto simp: shrunk_def dmul_def below_minimum_def)
qed (use assms(1) in \<open>auto simp: shrunk_def shrink_def\<close>)

lemma shrink_all:
  "rmap (shrink factor fiat) buys = Inr ls \<Longrightarrow> 0 \<le> factor \<Longrightarrow> (\<And>l. l \<in> set (sendable_legs buys) \<Longrightarrow> 0 \<le> pg_amount l) \<Longrightarrow>
     list_all2 (shrunk factor) buys ls \<and> asked_for ls \<le> asked_for buys * factor * (1 + dec_ulp)"
proof (induction buys arbitrary: ls)
  case (Cons l buys)
  then obtain l' rest where l': "shrink factor fiat l = Inr l'" "rmap (shrink factor fiat) buys = Inr rest" "ls = l' # rest"
    by (auto simp: result_simps)
  have nonneg: "pg_note l = None \<longrightarrow> 0 \<le> pg_amount l" "\<And>k. k \<in> set (sendable_legs buys) \<Longrightarrow> 0 \<le> pg_amount k"
    using Cons.prems(3) by (auto split: if_splits)
  from Cons.IH [OF l'(2) Cons.prems(2) nonneg(2)]
  have IH: "list_all2 (shrunk factor) buys rest" "asked_for rest \<le> asked_for buys * factor * (1 + dec_ulp)" by auto
  note s = shrink_shrunk [OF l'(1) Cons.prems(2) nonneg(1)]
  have "(if pg_note l' = None then pg_amount l' else 0) \<le> (if pg_note l = None then pg_amount l else 0) * factor * (1 + dec_ulp)"
  proof (cases "pg_note l")
    case None
    then have "pg_amount l' \<le> dec_round (pg_amount l * factor)" "0 \<le> pg_amount l'" using s by (auto simp: shrunk_def)
    moreover have "dec_round (pg_amount l * factor) \<le> pg_amount l * factor * (1 + dec_ulp)"
      using None nonneg(1) Cons.prems(2) by (intro dec.above) simp
    ultimately show ?thesis using None by auto
  next
    case (Some a)
    then show ?thesis using s by (auto simp: shrunk_def)
  qed
  then show ?case using IH s l'(3) by (auto simp: algebra_simps split: if_splits)
qed simp

definition exact_amounts :: "int \<Rightarrow> planned_leg list \<Rightarrow> bool" where
  "exact_amounts k buys \<longleftrightarrow> list_all (\<lambda>l. 0 \<le> pg_amount l \<and> on_grid k (pg_amount l)) (sendable_legs buys) \<and>
     asked_for buys * ten k \<le> 10 ^ 28"

lemma exact_asked: "exact_amounts k buys \<Longrightarrow> dsum (map pg_amount (sendable_legs buys)) = asked_for buys"
  unfolding asked_for_def
  by (rule dsum_exact [where k = k]) (auto simp: exact_amounts_def list_all_iff asked_for_def)

text \<open>
  C8: after the sells, the buys that are sent ask together for no more than the budget, up to
  two roundings in the 28th digit. When they asked for less they are sent as planned; else one
  factor shrinks them all, a buy that shrinks below its minimum is left out, and nothing of a
  leg but its amount and its note changes.
\<close>

theorem buys_within_budget:
  assumes "within_budget buys budget fiat = Inr ls" "0 \<le> budget" "exact_amounts k buys"
  shows "asked_for ls \<le> budget * (1 + dec_ulp) ^ 2 \<and>
    (if asked_for buys \<le> budget then ls = buys
     else list_all2 (shrunk (dec_round (budget / asked_for buys))) buys ls)"
proof (cases "asked_for buys \<le> budget")
  case True
  have "budget \<le> budget * (1 + dec_ulp) ^ 2"
    using assms(2) dec.unit by (simp add: mult_le_cancel_left1)
  then show ?thesis
    using True assms(1) exact_asked [OF assms(3)] by (simp add: within_budget_def sendable_legs_def Let_def)
next
  case False
  let ?factor = "dec_round (budget / asked_for buys)"
  have pos: "0 < asked_for buys" using False assms(2) by simp
  then have r: "rmap (shrink ?factor fiat) buys = Inr ls"
    using False assms(1) exact_asked [OF assms(3)] by (simp add: within_budget_def sendable_legs_def Let_def)
  have nonneg: "0 \<le> ?factor" using assms(2) pos by (intro dec.nonneg) simp
  have "list_all2 (shrunk ?factor) buys ls \<and> asked_for ls \<le> asked_for buys * ?factor * (1 + dec_ulp)"
    using assms(3) by (intro shrink_all [OF r nonneg]) (auto simp: exact_amounts_def list_all_iff)
  moreover have "?factor \<le> budget / asked_for buys * (1 + dec_ulp)" using assms(2) pos by (intro dec.above) simp
  then have "asked_for buys * ?factor \<le> budget * (1 + dec_ulp)" using pos by (simp add: field_simps)
  then have "asked_for buys * ?factor * (1 + dec_ulp) \<le> budget * (1 + dec_ulp) ^ 2"
    using dec.unit by (simp add: power2_eq_square mult.assoc [symmetric] mult_right_mono)
  ultimately show ?thesis using False by auto
qed


definition sample_buy :: "string \<Rightarrow> dec \<Rightarrow> planned_leg" where
  "sample_buy asset amount = \<lparr>pg_asset = asset, pg_pair = ''XXBTZEUR'', pg_side = BUY, pg_amount = amount,
     pg_minimum = Some 25, pg_note = None, pg_volume = None, pg_meta = Some sample_meta\<rparr>"

lemma sample_exact: "exact_amounts 0 [sample_buy ''XBT'' 60, sample_buy ''ETH'' 40]"
  by (simp add: exact_amounts_def sample_buy_def on_grid_def)

definition sample_note :: string where
  "sample_note = ''after the sells, '' @ plain_amount 20 @ '' EUR is below the minimum of '' @ plain_amount 25 @ '' EUR''"

lemma sample_within:
  "within_budget [sample_buy ''XBT'' 60, sample_buy ''ETH'' 40] 50 ''EUR'' =
     Inr [sample_buy ''XBT'' 30, (sample_buy ''ETH'' 20)\<lparr>pg_note := Some sample_note\<rparr>]"
  by (simp add: within_budget_def sample_buy_def Let_def dsum_def dec_eval dec_op_defs shrink_def round_cost_def quantize_def
      sample_meta_def below_minimum_def round_down_def sample_note_def)

theorem buys_within_budget_witness:
  "asked_for [sample_buy ''XBT'' 30, (sample_buy ''ETH'' 20)\<lparr>pg_note := Some sample_note\<rparr>]
     \<le> 50 * (1 + dec_ulp) ^ 2"
  using buys_within_budget [OF sample_within _ sample_exact] by simp

text \<open>
  A sell that executed almost nothing can credit less than nothing, its cost rounded down and
  its fee up. Without a buy to send the budget is then divided by zero.
\<close>

lemma no_buys_raise: "budget < 0 \<Longrightarrow> within_budget [] budget fiat = Inl DivisionByZero"
  by (simp add: within_budget_def dsum_def ddiv_def)

lemma tiny_sell_raises:
  "\<exists>x. credited (5 / 100000) (1 / 1000000) 4 = Inr x \<and> within_budget [] (dadd 0 x) ''EUR'' = Inl DivisionByZero"
proof -
  have "credited (5 / 100000) (1 / 1000000) 4 = Inr (- 1 / 10000)" by code_simp
  moreover have "dadd 0 (- 1 / 10000) < 0" by (simp add: dadd_def)
  ultimately show ?thesis using no_buys_raise by blast
qed

section \<open>The sells within the holdings\<close>

lemma dict_of_mem: "map_of (dict_of kvs) k = Some v \<Longrightarrow> (k, v) \<in> set kvs"
proof (induction kvs rule: rev_induct)
  case (snoc x kvs)
  then show ?case by (cases x) (auto simp: dict_of_def update_conv' split: if_splits)
qed (simp add: dict_of_def)

lemma sell_volume_held:
  assumes "sell_volume meta l h price target = Inr volume" "leg_side l = SELL" "0 \<le> hd_amount h"
  shows "\<exists>v. volume = Some v \<and> v \<le> hd_amount h"
proof -
  obtain held where "round_volume meta (hd_amount h) = Inr held" "volume = Some held \<or> (\<exists>v. volume = Some (min v held))"
    using assms(1,2) by (auto simp: sell_volume_def result_simps split: if_splits)
  then show ?thesis using round_volume_bounds(2) [of meta "hd_amount h" held] assms(3) by (auto intro: min.coboundedI2)
qed

lemma size_leg_held:
  assumes "size_leg account metas pair_of target_of (map_of managed) l = Inr p"
  shows "pg_asset p = leg_asset l \<and> pg_side p = leg_side l \<and>
    (pg_note p = None \<longrightarrow> leg_side l = SELL \<longrightarrow>
       (\<exists>h. (leg_asset l, h) \<in> set managed \<and> (0 \<le> hd_amount h \<longrightarrow> (\<exists>v. pg_volume p = Some v \<and> v \<le> hd_amount h))))"
  using assms sell_volume_held
  by (fastforce simp: size_leg_def result_simps Let_def get_item_def dest: map_of_SomeD split: option.splits if_splits)

lemma dict_of_ok: "dict_ok (dict_of kvs)"
  by (induction kvs rule: rev_induct) (auto simp: dict_of_def intro: dict_ok_update)

lemma plan_legs_InrE:
  assumes "plan_legs account view metas = Inr ls"
  obtains plan h prices t c p pair_of target_of where
    "reconcile h prices t c p = Inr plan" "dict_ok t"
    "list_all2 (\<lambda>l p. size_leg account (map_of metas) pair_of target_of
       (map_of (dict_of (map (\<lambda>h. (hd_asset h, h)) (filter hd_managed (pv_holdings view))))) l = Inr p) (legs plan) ls"
  using assms that [OF _ dict_of_ok] unfolding plan_legs_def Let_def by (auto simp only: result_simps rmap_Inr_iff)

text \<open>
  C9: a plan never sells what is not held. It has one leg per asset at most, and the volume of
  every sell it lets through is at most the amount of that asset the portfolio manages.
\<close>

theorem sells_within_holdings:
  assumes "plan_legs account view metas = Inr ls" "\<And>h. h \<in> set (pv_holdings view) \<Longrightarrow> 0 \<le> hd_amount h"
    and "l \<in> set ls" "pg_side l = SELL" "pg_note l = None"
  shows "distinct (map pg_asset ls) \<and>
    (\<exists>h v. h \<in> set (pv_holdings view) \<and> hd_managed h \<and> hd_asset h = pg_asset l \<and> pg_volume l = Some v \<and> v \<le> hd_amount h)"
proof -
  let ?managed = "dict_of (map (\<lambda>h. (hd_asset h, h)) (filter hd_managed (pv_holdings view)))"
  from assms(1) obtain plan h prices t c p pair_of target_of where plan: "reconcile h prices t c p = Inr plan" "dict_ok t"
    and sized: "list_all2 (\<lambda>l p. size_leg account (map_of metas) pair_of target_of (map_of ?managed) l = Inr p) (legs plan) ls"
    by (rule plan_legs_InrE)
  have "map pg_asset ls = map leg_asset (legs plan)"
    using sized by (induction rule: list_all2_induct) (auto dest: size_leg_held)
  moreover have "distinct (map leg_asset (legs plan))" using make_plan_distinct reconcile_amounts_ok [OF plan(2)] plan by (auto elim: reconcile_InrE)
  moreover obtain k where "size_leg account (map_of metas) pair_of target_of (map_of ?managed) k = Inr l"
    using sized assms(3) by (auto simp: list_all2_conv_all_nth in_set_conv_nth)
  from size_leg_held [OF this] obtain h where "(pg_asset l, h) \<in> set ?managed" "0 \<le> hd_amount h \<longrightarrow> (\<exists>v. pg_volume l = Some v \<and> v \<le> hd_amount h)"
    using assms(4,5) by auto
  moreover from this(1) have "(pg_asset l, h) \<in> set (map (\<lambda>h. (hd_asset h, h)) (filter hd_managed (pv_holdings view)))"
    unfolding dict_ok_map_of [OF dict_of_ok, symmetric] by (rule dict_of_mem)
  then have "h \<in> set (pv_holdings view)" "hd_managed h" "hd_asset h = pg_asset l" by auto
  ultimately show ?thesis using assms(2) by auto
qed


text \<open>An account that holds twice the share of an asset it wants.\<close>

definition heavy_account :: account where
  "heavy_account = \<lparr>ac_fiat = ''EUR'',
     ac_policy = \<lparr>allow_sells = True, cash_policy = PRORATA, min_drift_pct = 1, min_order_fiat = 0\<rparr>, ac_floor = 0,
     ac_targets = [\<lparr>ca_asset = ''XBT'', ca_pair = ''XXBTZEUR'', ca_target_pct = 50\<rparr>],
     ac_sealed = \<lparr>ciphertext = [], nonce = [], key_version = 1\<rparr>\<rparr>"

definition heavy_view :: portfolio_view where
  "heavy_view = \<lparr>pv_fiat = ''EUR'', pv_cash = 0, pv_cash_target_pct = 50, pv_cash_weight_pct = 0, pv_managed_value = 100,
     pv_holdings = [\<lparr>hd_asset = ''XBT'', hd_amount = 2, hd_price = Some 50, hd_value = Some 100, hd_managed = True,
       hd_locked = False, hd_target_pct = Some 50, hd_weight_pct = Some 100\<rparr>]\<rparr>"

lemma heavy_reconcile:
  "reconcile (\<lambda>a. map_option hd_amount (map_of [(''XBT'', hd (pv_holdings heavy_view))] a))
     (\<lambda>a. Option.bind (map_of [(''XBT'', hd (pv_holdings heavy_view))] a) hd_price) [(''XBT'', 50)] 0 (ac_policy heavy_account)
   = Inr \<lparr>legs = [\<lparr>leg_asset = ''XBT'', leg_side = SELL, leg_amount_fiat = 50\<rparr>]\<rparr>"
  by (simp add: reconcile_eq value_portfolio_def value_asset_def heavy_view_def heavy_account_def drifting_of_def drift_of_def
      delta_of_def make_plan_def make_leg_def map_filter_simps leg_order_def dsum_def dquot_def HUNDRED_def dec_simps dec_eval)

lemma heavy_sizes:
  "round_volume sample_meta 2 = Inr 2" "volume_from_fiat sample_meta 50 50 = Inr 1" "round_cost sample_meta 50 = Inr 50"
  "minimum_fiat sample_meta 50 = 1 / 2"
  by code_simp+

lemma heavy_plan:
  "case plan_legs heavy_account heavy_view [(''XXBTZEUR'', sample_meta)] of
     Inr [l] \<Rightarrow> pg_asset l = ''XBT'' \<and> pg_side l = SELL \<and> pg_note l = None | _ \<Rightarrow> False"
proof -
  have "dict_of (map (\<lambda>h. (hd_asset h, h)) (filter hd_managed (pv_holdings heavy_view))) = [(''XBT'', hd (pv_holdings heavy_view))]"
    "dict_of (map (\<lambda>t. (ca_asset t, ca_target_pct t)) (ac_targets heavy_account)) = [(''XBT'', 50)]"
    "dict_of (map (\<lambda>t. (ca_asset t, ca_pair t)) (ac_targets heavy_account)) = [(''XBT'', ''XXBTZEUR'')]"
    "pv_cash heavy_view = 0"
    by (simp_all add: dict_of_def heavy_view_def heavy_account_def)
  note managed = this
  have "tradable sample_meta" by code_simp
  then show ?thesis
    unfolding plan_legs_def Let_def managed heavy_reconcile
    by (simp add: size_leg_def get_item_def sell_volume_def heavy_sizes heavy_view_def heavy_account_def below_minimum_def Let_def)
qed

theorem sells_within_holdings_witness:
  "\<exists>l v. plan_legs heavy_account heavy_view [(''XXBTZEUR'', sample_meta)] = Inr [l] \<and> pg_volume l = Some v \<and> v \<le> 2"
proof -
  obtain l where l: "plan_legs heavy_account heavy_view [(''XXBTZEUR'', sample_meta)] = Inr [l]"
    "pg_asset l = ''XBT''" "pg_side l = SELL" "pg_note l = None"
    using heavy_plan by (auto split: sum.splits list.splits)
  have "0 \<le> hd_amount h" if "h \<in> set (pv_holdings heavy_view)" for h
    using that by (simp add: heavy_view_def)
  from sells_within_holdings [OF l(1) this, of l] l show ?thesis by (auto simp: heavy_view_def)
qed

end
