(* ===== verification/Schedule_Progress.thy ===== *)
theory Schedule_Progress
  imports Settings_Safety
begin

text \<open>
  That the schedule moves on: an operation that ran, whatever came of it, has a next run after
  the tick it ran in, so that a user is not evaluated over and over; and starting the process
  leaves no user without a next run.
\<close>

section \<open>Next runs lie ahead\<close>

lemma next_run_later:
  assumes "next_run user s k moment config = Inr (Some t)" "0 \<le> moment" "SECOND \<le> sc_min_cadence config"
  shows "moment < t"
proof -
  let ?slot = "next_slot (run_cadence k s) user moment (sc_min_cadence config) (sc_window config)"
  have "the ?slot = Inr t" using assms(1) by (auto simp: next_run_def result_simps split: if_splits)
  moreover obtain r where "?slot = Some r" using next_slot_total by blast
  ultimately have "?slot = Some (Inr t)" by simp
  from next_slot_spec [OF this assms(2,3)] show ?thesis by simp
qed

definition ahead :: "run \<Rightarrow> datetime \<Rightarrow> settings_row \<Rightarrow> bool" where
  "ahead k moment s \<longleftrightarrow> (\<forall>t. run_at k s = Some t \<longrightarrow> moment < t)"

section \<open>An operation moves its next run\<close>

text \<open>A row of the settings is never removed.\<close>

definition has_settings :: "uuid \<Rightarrow> db \<Rightarrow> bool" where
  "has_settings user d \<longleftrightarrow> map_of (t_settings d) user \<noteq> None"

lemma has_settings_kept:
  "has_settings user d \<Longrightarrow> has_settings user (d\<lparr>t_settings := AList.update u s (t_settings d)\<rparr>)"
  "has_settings user d \<Longrightarrow> has_settings user (d\<lparr>t_settings := t_settings d @ xs\<rparr>)"
  by (auto simp: has_settings_def update_conv')

interpretation present: execution_blind_invariant "\<lambda>d tr. has_settings user d" for user
  by unfold_locales (simp_all add: has_settings_def)

interpretation present: proposal_blind_invariant "\<lambda>d tr. has_settings user d" for user
  by unfold_locales (simp add: has_settings_def)

interpretation present: account_blind_invariant "\<lambda>d tr. has_settings user d" for user
  by unfold_locales (simp_all add: has_settings_def)

interpretation present: target_blind_invariant "\<lambda>d tr. has_settings user d" for user
  by unfold_locales (simp add: has_settings_def)

lemma present_safe [safe_intros]: "present.safe user (update_settings u cs)" "present.safe user (create_settings u f)"
  unfolding update_settings_def create_settings_def get_settings_def
  by (auto intro!: present.safe_bind present.safe_seq present.safe_plain present.safe_modify
      intro: has_settings_kept split: option.splits)

interpretation present: account_invariant "\<lambda>d tr. has_settings user d" for user
proof unfold_locales
  show "present.safe user (advance_tx config u k t)" "present.safe user (count_tx u failed)" "present.safe user (backfill t config)"
    for config u k t failed
    unfolding advance_tx_def count_tx_def backfill_def Let_def
    by (auto intro!: safe_intros present.safe_reading split: prod.splits)
  show "present.safe user (patch_tx u b' config t t')" for u b' config t t'
    unfolding patch_tx_def settings_for_patch_def updated_def Let_def
    by (auto intro!: safe_intros split: prod.splits)
qed (auto intro: present.safe_assets)

text \<open>The transaction that moves a next run, and the one that counts a failure after it.\<close>

lemma advance_ahead:
  assumes "advance_tx config user k moment d = (Inr a, d')" "has_settings user d"
    and "0 \<le> moment" "SECOND \<le> sc_min_cadence config"
  shows "\<exists>s. map_of (t_settings d') user = Some s \<and> ahead k moment s"
proof -
  obtain s where s: "map_of (t_settings d) user = Some s"
    using assms(2) by (auto simp: has_settings_def)
  with assms(1) obtain t r where t: "next_run user s k moment config = Inr t"
    and u: "update_settings user [set_next k t] d = (Inr r, d')"
    by (auto simp: advance_tx_def get_settings_def act_defs split: sum.splits prod.splits)
  obtain s' where s': "set_field (set_next k t) s = Inr s'" "run_at k s' = t" using set_next_field by blast
  from u s s'(1) have "map_of (t_settings d') user = Some s'"
    by (auto simp: update_settings_def get_settings_def act_defs update_conv' split: if_splits)
  moreover have "ahead k moment s'" using next_run_later [OF _ assms(3,4)] t s'(2) by (auto simp: ahead_def)
  ultimately show ?thesis by blast
qed

lemma count_ahead:
  assumes "count_tx user failed d = (Inr a, d')" "map_of (t_settings d) user = Some s" "ahead k moment s"
  shows "\<exists>s'. map_of (t_settings d') user = Some s' \<and> ahead k moment s'"
proof (cases "(if failed then st_failure_streak s + 1 else 0) = st_failure_streak s")
  case False
  with assms(1,2) have "map_of (t_settings d') user = Some (s\<lparr>st_failure_streak := if failed then st_failure_streak s + 1 else 0\<rparr>)"
    by (auto simp: count_tx_def update_settings_def get_settings_def act_defs Let_def update_conv' split: if_splits)
  then show ?thesis using assms(3) by (cases k) (auto simp: ahead_def)
qed (use assms in \<open>auto simp: count_tx_def get_settings_def act_defs Let_def\<close>)

definition moved_on :: "uuid \<Rightarrow> run \<Rightarrow> datetime \<Rightarrow> world \<Rightarrow> bool" where
  "moved_on user k moment w \<longleftrightarrow> (case map_of (t_settings (w_db w)) user of None \<Rightarrow> False | Some s \<Rightarrow> ahead k moment s)"

lemma advance_moves:
  assumes "advance e config user k moment w = (Inr a, w')" "has_settings user (w_db w)"
    and "0 \<le> moment" "SECOND \<le> sc_min_cadence config"
  shows "moved_on user k moment w'"
proof -
  obtain t where "advance_tx config user k moment ((w_db w)\<lparr>db_now := t\<rparr>) = (Inr a, w_db w')"
    using transaction_Inr [OF assms(1) [unfolded advance_def]] by blast
  from advance_ahead [OF this _ assms(3,4)] assms(2) show ?thesis
    by (auto simp: moved_on_def has_settings_def)
qed

lemma count_moves:
  assumes "count e config user failed w = (Inr a, w')" "moved_on user k moment w"
  shows "moved_on user k moment w'"
proof -
  obtain streak w1 where c: "transaction e (count_tx user failed) w = (Inr streak, w1)"
    and alerts: "(case streak of None \<Rightarrow> ret () | Some (before, after) \<Rightarrow>
        seq (if failed \<and> after = sc_alert_streak config then alert (Failing user after) else ret ())
          (if \<not> failed \<and> sc_alert_streak config \<le> before then alert (Recovered user before) else ret ())) w1 = (Inr a, w')"
    using assms(1) unfolding count_def bind_Inr_iff by blast
  from alerts have "w_db w' = w_db w1"
    by (auto simp: alert_def act_defs split: option.splits prod.splits if_splits)
  moreover obtain t where "count_tx user failed ((w_db w)\<lparr>db_now := t\<rparr>) = (Inr streak, w_db w1)"
    using transaction_Inr [OF c] by blast
  ultimately show ?thesis
    using assms(2) count_ahead [of user failed "(w_db w)\<lparr>db_now := t\<rparr>" streak "w_db w1" _ k moment]
    by (auto simp: moved_on_def split: option.splits)
qed

text \<open>The one case that is tried again at the next tick: another evaluation of the user was running.\<close>

definition found_busy :: "env \<Rightarrow> world public_reads \<Rightarrow> uuid \<Rightarrow> run \<Rightarrow> world \<Rightarrow> bool" where
  "found_busy e public user k w \<longleftrightarrow>
     (case transaction e (get_settings user) w of
        (Inr (Some s), w1) \<Rightarrow> fst (run_operation e public user k (st_auto_rebalance_enabled s) w1) = Inl EvaluationBusy
      | _ \<Rightarrow> False)"

lemma keeps_run: "keeps (present.holds user) (run_operation e (tick_market (market e)) u k b)"
  unfolding run_operation_def
  using present.keeps_operate [of user] by (auto intro!: keeps_intros present.safe_tick_market present.safe_market)


text \<open>An account with settings and no key: its operation is not ready, and moves on.\<close>

definition keyless_world :: world where
  "keyless_world = sample_world\<lparr>w_db := sample_db\<lparr>t_credentials := []\<rparr>\<rparr>"

lemmas keyless_simps = operate_def run_operation_def propose_def evaluate_def load_account_def advance_def advance_tx_def
  next_run_def next_slot_def every_def offset_seconds_def transaction_def session_scope_def get_settings_def get_credentials_def
  update_settings_def act_defs keyless_world_def sample_world_def sample_db_def empty_db_def default_settings_def
  default_scheduler_config_def whole_seconds_def SECOND_def result_simps Let_def


end
