(* ===== verification/Access_Safety.thy ===== *)
theory Access_Safety
  imports Api_Config Api_Assets Api_Accounts Api_Auth
begin

text \<open>
  Who may do anything through the API: no route does anything before it knows an active account;
  a key is stored only after Kraken confirmed what it may do; and a refused refresh keeps the
  revocation it made.
\<close>

section \<open>No account, no effect\<close>

text \<open>The exception a request is refused with at a time, or None when it has an active account.\<close>

definition refusal_of :: "app_context \<Rightarrow> http_request \<Rightarrow> datetime \<Rightarrow> db \<Rightarrow> exn option" where
  "refusal_of cx rq t d =
     (case presented_token rq of
        None \<Rightarrow> Some (HTTPException 401 (Detail ''not signed in''))
      | Some token \<Rightarrow>
          (case verify (cx_jwt cx) (cx_signer cx) t token of
             Inl exc \<Rightarrow> Some (case exc of TokenInvalid why \<Rightarrow> HTTPException 401 (Detail ''not signed in'') | _ \<Rightarrow> exc)
           | Inr user_id \<Rightarrow>
               (case find (\<lambda>r. u_id r = user_id) (t_users d) of
                  None \<Rightarrow> Some (HTTPException 401 (Detail ''not signed in''))
                | Some user \<Rightarrow>
                    if u_status user = ACTIVE then None else Some (HTTPException 403 (Detail ''this account is disabled'')))))"

text \<open>
  A run that was turned away: its exception, every table as it was, and nothing asked of Kraken.
  Only the timestamp of the last transaction may have moved.
\<close>

definition turned_away :: "exn \<Rightarrow> world \<Rightarrow> 'a result \<times> world \<Rightarrow> bool" where
  "turned_away exc w run \<longleftrightarrow> fst run = Inl exc \<and> w_trace (snd run) = w_trace w \<and> 
     w_db (snd run) = (w_db w)\<lparr>db_now := db_now (w_db (snd run))\<rparr>"

lemma transaction_gets: "transaction e (gets f) w =
    (Inr (f ((w_db w)\<lparr>db_now := env_server_clock e (w_transactions w)\<rparr>)),
     w\<lparr>w_db := (w_db w)\<lparr>db_now := env_server_clock e (w_transactions w)\<rparr>, w_transactions := Suc (w_transactions w)\<rparr>)"
  by (simp add: transaction_def session_scope_def gets_def)

lemma current_user_refused:
  "refusal_of cx rq (env_clock e (w_readings w)) (w_db w) = Some exc \<Longrightarrow> turned_away exc w (current_user e cx rq w)"
  by (auto simp: refusal_of_def current_user_def turned_away_def bind_def now_def get_user_def transaction_gets unauthenticated_def
      throw_def lift_result_def split: option.splits sum.splits exn.splits if_splits)

lemma turned_away_bind: "turned_away exc w (m w) \<Longrightarrow> turned_away exc w (bind m f w)"
  by (auto simp: turned_away_def bind_def split: prod.splits sum.splits)

text \<open>Every route that acts for a user refuses a request no active account is behind, before it does anything.\<close>

lemma account_routes_refused:
  assumes "refusal_of cx rq (env_clock e (w_readings w)) (w_db w) = Some exc"
  shows "turned_away exc w (invest_now e cx rq is_preview w) \<and> turned_away exc w (rebalance_route e cx rq w) \<and>
    turned_away exc w (approve_proposal e cx rq version w) \<and> turned_away exc w (read_proposal e cx rq w) \<and>
    turned_away exc w (withdraw_proposal e cx rq version w) \<and> turned_away exc w (read_config e cx rq w) \<and>
    turned_away exc w (patch_config e cx rq body w) \<and> turned_away exc w (list_assets_route e cx rq w) \<and>
    turned_away exc w (put_asset e cx rq asset pct w) \<and> turned_away exc w (delete_asset_route e cx rq asset w) \<and>
    turned_away exc w (register e cx rq key secret w) \<and> turned_away exc w (remove_key e cx rq w) \<and>
    turned_away exc w (key_status e cx rq w) \<and> turned_away exc w (read_portfolio_route e cx rq w) \<and>
    turned_away exc w (refresh_portfolio e cx rq w) \<and> turned_away exc w (orders_route e cx rq limit session w) \<and>
    turned_away exc w (sessions_route e cx rq limit session w) \<and> turned_away exc w (me e cx rq w)"
  unfolding invest_now_def rebalance_route_def approve_proposal_def read_proposal_def withdraw_proposal_def read_config_def
    patch_config_def list_assets_route_def put_asset_def delete_asset_route_def register_def remove_key_def key_status_def
    read_portfolio_route_def refresh_portfolio_def orders_route_def sessions_route_def me_def
  by (intro conjI turned_away_bind current_user_refused assms)

section \<open>A key that is stored\<close>

lemma set_sorted_set [simp]: "set (sorted_set xs) = set xs"
  by (simp add: sorted_set_def)

lemma validated_permissions:
  assumes "validate_key c s = (Inr v, s')" "kv_accepted v"
  shows "set REQUIRED_PERMISSIONS \<subseteq> set (kv_permissions v) \<and> set FORBIDDEN \<inter> set (kv_permissions v) = {}"
proof -
  have rejected: "\<not> kv_accepted (refused x)" for x by (simp add: refused_def)
  from assms(1) obtain read s1 where r: "try_except (bind (api_key_info c) (\<lambda>info. ret (Inr info)))
        (\<lambda>e. case e of KeyRefused \<Rightarrow> Some (ret (Inl (refused INVALID_KEY)))
             | KeyLockedOut \<Rightarrow> Some (ret (Inl (refused LOCKED_OUT))) | _ \<Rightarrow> None) s = (Inr read, s1)"
    and v: "(case read of Inl v \<Rightarrow> ret v | Inr None \<Rightarrow> ret (refused UNREACHABLE)
         | Inr (Some info) \<Rightarrow> lift_result (judge_key info)) s1 = (Inr v, s')"
    unfolding validate_key_def by (rule bind_InrE)
  from r have "\<exists>x. v' = refused x" if "read = Inl v'" for v'
    using that by (auto simp: try_except_def bind_def ret_def split: prod.splits sum.splits exn.splits)
  with v assms(2) rejected obtain info where "judge_key info = Inr v"
    by (auto split: sum.splits option.splits)
  then show ?thesis
    using assms(2) by (auto simp: judge_key_def result_simps Let_def filter_empty_conv split: if_splits)
qed

text \<open>
  C18: a key that is accepted is stored so that it opens. Registering answers only after Kraken
  confirmed the key: it has every permission the service needs and none that is forbidden; and the record left
  for the user opens, under the service's own cipher, as the very key and secret that were
  validated, with the time of the validation.
\<close>

theorem registered_key_opens:
  assumes "register e cx rq key secret w = (Inr out, w')" "opens_own (cx_aead cx)"
  shows "\<exists>user creds row. fst (current_user e cx rq w) = Inr user \<and>
    credentials_in key secret = Inr creds \<and> map_of (t_credentials (w_db w')) (u_id user) = Some row \<and>
    unseal (cx_aead cx) (cx_cipher cx) (u_id user) (cr_sealed row) = Inr creds \<and> cr_validated_at row = ka_validated_at out \<and>
    set REQUIRED_PERMISSIONS \<subseteq> set (ka_permissions out) \<and> set FORBIDDEN \<inter> set (ka_permissions out) = {}"
proof -
  from assms(1) obtain user w1 creds result w2 s t w3 where
    u: "current_user e cx rq w = (Inr user, w1)" and creds: "credentials_in key secret = Inr creds"
    and v: "validate_key (kraken e (Some creds)) w1 = (Inr result, w2)" "refused_key result = None"
    and s: "\<exists>n. seal (cx_aead cx) (cx_cipher cx) n (u_id user) creds = Inr s"
    and saved: "\<exists>a. transaction e (save_credentials (u_id user) s t) w3 = (Inr a, w')"
    and out: "ka_permissions out = kv_permissions result" "ka_validated_at out = t"
    unfolding register_def
    by (auto simp: bind_Inr_iff seq_Inr_iff lift_result_def fresh_def now_def ret_def throw_def split: option.splits) blast
  have "fst (current_user e cx rq w) = Inr user" using u by simp
  moreover have "kv_accepted result" using v(2) by (auto simp: refused_key_def split: if_splits option.splits)
  note validated_permissions [OF v(1) this]
  moreover obtain a where a: "transaction e (save_credentials (u_id user) s t) w3 = (Inr a, w')" using saved by blast
  obtain d where "save_credentials (u_id user) s t d = (Inr a, w_db w')" using transaction_Inr [OF a] by blast
  then have "w_db w' = d\<lparr>t_credentials := AList.update (u_id user) \<lparr>cr_sealed = s, cr_validated_at = t\<rparr> (t_credentials d)\<rparr>"
    by (simp add: save_credentials_def modify_def)
  then have "map_of (t_credentials (w_db w')) (u_id user) = Some \<lparr>cr_sealed = s, cr_validated_at = t\<rparr>"
    by (simp add: update_conv')
  moreover have "unseal (cx_aead cx) (cx_cipher cx) (u_id user) s = Inr creds" using s unseal_seal [OF assms(2)] by blast
  ultimately show ?thesis using creds out by (intro exI [of _ user] exI [of _ creds] exI [of _ "\<lparr>cr_sealed = s, cr_validated_at = t\<rparr>"] conjI) simp_all
qed

section \<open>A refresh that is refused\<close>

lemma refresh_tx_ends:
  assumes "refresh_tx cx v presented t d = (Inr (Inl (code, why)), d')"
    and "find (\<lambda>r. tk_hash r = cx_hash cx presented) (t_tokens d) = Some tk" "tk_revoked_at tk = None"
    and "tk_used_at tk \<noteq> None \<or> code = 403"
  shows "ended (tk_family tk) d'"
  using assms
  by (auto simp: refresh_tx_def rotate_def revoke_family_def issue_def mark_refresh_token_used_def add_refresh_token_def get_user_def
      get_refresh_token_for_update_def act_defs ended_def split: if_splits option.splits sum.splits prod.splits)

lemma case_sum_signed:
  "(case outcome of Inl (code, why) \<Rightarrow> ret (Signed_out code why) | Inr i \<Rightarrow> f i) w = (Inr (Signed_out c y), w') \<longleftrightarrow>
     outcome = Inl (c, y) \<and> w' = w \<or> (\<exists>i. outcome = Inr i \<and> f i w = (Inr (Signed_out c y), w'))"
  by (cases outcome) (auto simp: ret_def)

text \<open>
  A refusal keeps what was done on the way to it. When a refresh is answered with a refusal
  because its token had been used before, or because the account is disabled, the answer leaves no token of that sign-in that could be
  used, in the database as it is committed.
\<close>

theorem refused_refresh_ends_sign_in:
  assumes "refresh_route e cx rq w = (Inr (Signed_out code why), w')" "presented_refresh rq = Some presented"
    and "find (\<lambda>r. tk_hash r = cx_hash cx presented) (t_tokens (w_db w)) = Some tk" "tk_revoked_at tk = None"
    and "tk_used_at tk \<noteq> None \<or> code = 403"
  shows "ended (tk_family tk) (w_db w')"
proof -
  from assms(1,2) obtain v t w1 where r: "transaction e (refresh_tx cx v presented t) w1 = (Inr (Inl (code, why)), w')" "w_db w1 = w_db w"
    unfolding refresh_route_def
    by (auto simp: bind_Inr_iff now_def fresh_def ret_def Let_def case_sum_signed split: option.splits)
  obtain t1 where "refresh_tx cx v presented t ((w_db w)\<lparr>db_now := t1\<rparr>) = (Inr (Inl (code, why)), w_db w')"
    using transaction_Inr [OF r(1)] r(2) by auto
  from refresh_tx_ends [OF this _ assms(4,5)] assms(3) show ?thesis by simp
qed

section \<open>A concrete application\<close>

definition sample_config :: app_config where
  "sample_config = \<lparr>cf_database_url = ''db'', cf_jwt_secret = replicate 32 CHR ''s'', cf_jwt_ttl = 900 * SECOND, cf_refresh_ttl = 30 * DAY,
     cf_cookie_secure = True, cf_google = \<lparr>gc_client_id = ''id'', gc_client_secret = ''secret'', gc_redirect_uri = ''uri''\<rparr>,
     cf_credential_keys = sample_keys, cf_credential_key_version = 2, cf_scheduler = default_scheduler_config\<rparr>"

definition sample_context :: app_context where
  "sample_context = \<lparr>cx_config = sample_config, cx_jwt = sample_jwt, cx_signer = sample_signer, cx_aead = sample_aead,
     cx_cipher = sample_cipher, cx_sha256 = id, cx_hash = id, cx_token = (\<lambda>n. uuid_text), cx_nonce = (\<lambda>u. replicate 12 0),
     cx_google = \<lparr>gh_post = (\<lambda>_ _. Unreachable), gh_get = (\<lambda>_ _. Unreachable)\<rparr>\<rparr>"

text \<open>
  A user who is signed in, one whose account is disabled, and an exchange whose answer grants a key
  what the service needs.
\<close>

definition signed_in_as :: "uuid \<Rightarrow> http_request" where
  "signed_in_as user = \<lparr>rq_authorization = None,
     rq_cookies = [(ACCESS_COOKIE, it_value (issue_token sample_jwt sample_signer 0 user))], rq_refresh_token = None\<rparr>"

definition sample_user :: "uuid \<Rightarrow> user_status \<Rightarrow> user_row" where
  "sample_user user status = \<lparr>u_id = user, u_provider = PROVIDER, u_subject = ''s'', u_email = ''e'', u_status = status, u_created_at = 0\<rparr>"

definition sample_users :: world where
  "sample_users = sample_world\<lparr>w_db := sample_db\<lparr>t_users := [sample_user 7 ACTIVE, sample_user 8 DISABLED], t_credentials := []\<rparr>\<rparr>"

definition granting_env :: env where
  "granting_env = sample_env\<lparr>env_answer :=
     (\<lambda>_ _ r. sample_reply [(''permissions'', JList (map JStr REQUIRED_PERMISSIONS))])\<rparr>"

lemma signed_in_token: "presented_token (signed_in_as user) = Some (it_value (issue_token sample_jwt sample_signer 0 user))"
  by (simp add: presented_token_def signed_in_as_def partition_on_def lower_def)

lemma sample_context_simps [simp]: "cx_jwt sample_context = sample_jwt" "cx_signer sample_context = sample_signer"
  "cx_aead sample_context = sample_aead" "cx_cipher sample_context = sample_cipher" "cx_hash sample_context = id"
  "cx_nonce sample_context u = replicate 12 0"
  by (simp_all add: sample_context_def)

theorem refused_refresh_ends_sign_in_witness:
  "ended 1 (w_db (snd (refresh_route sample_env sample_context
     \<lparr>rq_authorization = None, rq_cookies = [], rq_refresh_token = Some ''a''\<rparr> (sample_world\<lparr>w_db := sample_rotated\<rparr>))))"
proof -
  let ?rq = "\<lparr>rq_authorization = None, rq_cookies = [], rq_refresh_token = Some ''a''\<rparr>"
  let ?w = "sample_world\<lparr>w_db := sample_rotated\<rparr>"
  obtain tk where tk: "find (\<lambda>r. tk_hash r = ''a'') (t_tokens sample_rotated) = Some tk" "tk_family tk = 1"
      "tk_used_at tk \<noteq> None" "tk_revoked_at tk = None"
    by (simp add: sample_token_defs token_op_defs)
  have "fst (refresh_route sample_env sample_context ?rq ?w) =
      Inr (Signed_out 401 (''the refresh token is '' @ refresh_failure_value REUSED @ ''; sign in again''))"
    using tk
    by (simp add: refresh_route_def presented_refresh_def refresh_tx_def rotate_def get_refresh_token_for_update_def transaction_def
        session_scope_def bind_def now_def fresh_def ret_def gets_def modify_def seq_def revoke_family_def)
  then show ?thesis
    using refused_refresh_ends_sign_in [of sample_env sample_context ?rq ?w _ _ _ "''a''" tk, OF prod_eqI] tk
    by (simp add: presented_refresh_def)
qed

definition granted_key :: key_validation where
  "granted_key = \<lparr>kv_accepted = True, kv_rejection = None,
     kv_permissions = [''modify-trades'', ''query-closed-trades'', ''query-funds'', ''query-open-trades''],
     kv_missing = [], kv_forbidden = [], kv_ip_allowlist = [], kv_unnecessary = []\<rparr>"

lemma granted_judged: "judge_key (JObj [(''permissions'', JList (map JStr REQUIRED_PERMISSIONS))]) = Inr granted_key"
  by code_simp

lemma granted_answer: "called (sample_reply [(''permissions'', JList (map JStr REQUIRED_PERMISSIONS))]) =
    Inr (JObj [(''permissions'', JList (map JStr REQUIRED_PERMISSIONS))])"
  by code_simp

lemma granted_sent: "\<exists>w'. send granting_env who GetApiKeyInfo w =
    (Inr (sample_reply [(''permissions'', JList (map JStr REQUIRED_PERMISSIONS))]), w')"
  by (simp add: send_def granting_env_def Let_def)

lemma granted: "\<exists>w'. validate_key (kraken granting_env (Some creds)) w = (Inr granted_key, w')"
proof -
  obtain w' where "send granting_env (Some creds) GetApiKeyInfo w =
      (Inr (sample_reply [(''permissions'', JList (map JStr REQUIRED_PERMISSIONS))]), w')"
    using granted_sent by blast
  then show ?thesis
    by (simp add: validate_key_def api_key_info_def private_call_def call_private_def kraken_def granted_answer
      try_except_def bind_def ret_def safely_def lift_result_def granted_judged)
qed

lemma sample_user_in:
  "fst (current_user granting_env sample_context (signed_in_as 7) sample_users) = Inr (sample_user 7 ACTIVE)"
  by (simp add: current_user_def signed_in_token verify_own [OF sample_jwt_decodes] sample_signer_def granting_env_def sample_env_def
      sample_users_def sample_world_def sample_user_def SECOND_def bind_def now_def transaction_gets get_user_def lift_result_def ret_def)

lemma sample_registered:
  "\<exists>out w'. register granting_env sample_context (signed_in_as 7) ''ke y'' ''c2Vj'' sample_users = (Inr out, w')"
proof -
  obtain w1 where "current_user granting_env sample_context (signed_in_as 7) sample_users = (Inr (sample_user 7 ACTIVE), w1)"
    using sample_user_in by (metis prod.collapse)
  moreover have "credentials_in ''ke y'' ''c2Vj'' = Inr sample_creds" by code_simp
  moreover obtain w2 where "validate_key (kraken granting_env (Some sample_creds)) w1 = (Inr granted_key, w2)"
    using granted by blast
  moreover obtain s where "seal sample_aead sample_cipher (replicate 12 0) 7 sample_creds = Inr s"
    using seal_total [OF sample_new_cipher] by blast
  ultimately show ?thesis
    by (simp add: register_def bind_def seq_def lift_result_def refused_key_def granted_key_def fresh_def now_def ret_def sample_user_def
        transaction_def session_scope_def save_credentials_def modify_def)
qed

theorem registered_key_opens_witness:
  "\<exists>out w' row. register granting_env sample_context (signed_in_as 7) ''ke y'' ''c2Vj'' sample_users = (Inr out, w') \<and>
     map_of (t_credentials (w_db w')) 7 = Some row \<and> unseal sample_aead sample_cipher 7 (cr_sealed row) = Inr sample_creds"
proof -
  obtain out w' where run: "register granting_env sample_context (signed_in_as 7) ''ke y'' ''c2Vj'' sample_users = (Inr out, w')"
    using sample_registered by blast
  have "opens_own (cx_aead sample_context)" by (simp add: sample_aead_opens)
  from registered_key_opens [OF run this] have "\<exists>user creds row. credentials_in ''ke y'' ''c2Vj'' = Inr creds \<and>
      map_of (t_credentials (w_db w')) 7 = Some row \<and> unseal sample_aead sample_cipher 7 (cr_sealed row) = Inr creds"
    by (auto simp: sample_user_in sample_user_def)
  moreover have "credentials_in ''ke y'' ''c2Vj'' = Inr sample_creds" by code_simp
  ultimately show ?thesis using run by auto
qed

end
