(* ===== verification/Sign_In.thy ===== *)
theory Sign_In
  imports Access_Safety
begin

text \<open>
  A sign-in from its first page to its session: the login page leads back only with what was
  started here, and a session is opened only for the account Google vouched for.
\<close>

section \<open>The way there\<close>

text \<open>
  A login leads to Google and back. The page a login is sent to asks, as its receiver reads
  its query, for this client, this redirect, and a state and a challenge; the cookie that
  goes with it gives back, for as long as a login may take, that very state and the verifier of
  that challenge, and after that it is refused.
\<close>

theorem login_roundtrip:
  assumes "decodes_own (cx_jwt cx)" "login e cx PROVIDER w = (Inr (url, cookie), w')"
  shows "\<exists>started query. url = AUTHORIZE_URL @ ''?'' @ query \<and>
     read_form query = Some
       [(''client_id'', gc_client_id (cf_google (cx_config cx))), (''redirect_uri'', gc_redirect_uri (cf_google (cx_config cx))),
        (''response_type'', ''code''), (''scope'', ''openid email''), (''state'', ls_state started),
        (''code_challenge'', code_challenge (cx_sha256 cx) (ls_verifier started)), (''code_challenge_method'', ''S256'')] \<and>
     (\<forall>t. verify_login_state (cx_jwt cx) (cx_signer cx) t cookie =
        (if t < (env_clock e (w_readings w) + 600 * SECOND) div SECOND * SECOND then Inr started else Inl (TokenInvalid ''the token has expired'')))"
proof -
  obtain started where "url = authorization_url (cx_sha256 cx) (cf_google (cx_config cx)) started"
      "cookie = issue_login_state (cx_jwt cx) (cx_signer cx) (env_clock e (w_readings w)) started"
    using assms(2) by (auto simp: login_def PROVIDER_def fresh_def now_def bind_def ret_def Let_def)
  then show ?thesis
    using verify_login_state_own [OF assms(1)]
    by (intro exI [of _ started] exI [of _ "urlencode (authorization_query (cx_sha256 cx) (cf_google (cx_config cx)) started)"])
      (simp add: authorization_url_def authorization_query_def LOGIN_STATE_TTL_def SCOPE_def)
qed

section \<open>The way back\<close>

lemma callback_identity_Inr:
  assumes "callback_identity e cx rq code state error w = (Inr (Inr identity), w1)"
  shows "w_db w1 = w_db w \<and> (\<exists>cookie given expected. map_of (rq_cookies rq) LOGIN_COOKIE = Some cookie \<and> code = Some given \<and>
     verify_login_state (cx_jwt cx) (cx_signer cx) (env_clock e (w_readings w)) cookie = Inr expected \<and> state = Some (ls_state expected) \<and>
     vouched (cx_google cx) (cf_google (cx_config cx)) given (ls_verifier expected) identity)"
  using assms
  by (auto simp: callback_identity_def bind_def now_def ret_def throw_def exchange_code_Inr
      split: if_splits option.splits sum.splits exn.splits)

lemma sign_in_tx_Inr:
  assumes "sign_in_tx cx identity new_user new_family v t d = (Inr (Some (user, refresh)), d')"
  shows "user \<in> set (t_users d') \<and> u_provider user = PROVIDER \<and> u_subject user = gi_subject identity \<and> u_status user = ACTIVE \<and>
    (t_users d' = t_users d \<or> t_users d' = t_users d @ [user]) \<and>
    (\<exists>tk\<in>set (t_tokens d'). tk_hash tk = cx_hash cx (ir_value refresh) \<and> tk_user tk = u_id user \<and> live tk)"
  using assms
  by (auto simp: sign_in_tx_def get_user_by_identity_def create_user_def start_family_def issue_def add_refresh_token_def act_defs live_def
      find_Some_iff Let_def split: option.splits if_splits)

text \<open>
  C15: a session is opened for nobody but the account Google vouched for. When a callback signs
  in, the browser held the cookie of a login that was started here and has not expired, it came back with that
  login's state, and Google answered its code and its verifier with the account, its email
  verified. The session belongs to the one user with that account, who is active; a user is created
  at the first sign-in and no other user changes.
\<close>

theorem sign_in_vouched:
  assumes "callback e cx rq provider code state error w = (Inr (Signed_in session), w')"
  shows "\<exists>cookie given expected identity user.
     map_of (rq_cookies rq) LOGIN_COOKIE = Some cookie \<and> code = Some given \<and>
     verify_login_state (cx_jwt cx) (cx_signer cx) (env_clock e (w_readings w)) cookie = Inr expected \<and> state = Some (ls_state expected) \<and>
     vouched (cx_google cx) (cf_google (cx_config cx)) given (ls_verifier expected) identity \<and>
     user \<in> set (t_users (w_db w')) \<and> u_provider user = ''google'' \<and> u_subject user = gi_subject identity \<and> u_status user = ACTIVE \<and>
     (t_users (w_db w') = t_users (w_db w) \<or> t_users (w_db w') = t_users (w_db w) @ [user]) \<and>
     (\<exists>t. se_access session = it_value (issue_token (cx_jwt cx) (cx_signer cx) t (u_id user))) \<and>
     (\<exists>tk\<in>set (t_tokens (w_db w')). tk_hash tk = cx_hash cx (se_refresh session) \<and> tk_user tk = u_id user \<and> live tk)"
proof -
  from assms obtain answer w1 where a: "callback_identity e cx rq code state error w = (Inr answer, w1)"
    and rest: "(case answer of Inl why \<Rightarrow> ret (Login_refused why)
      | Inr identity \<Rightarrow>
          bind (fresh e) (\<lambda>new_user. bind (fresh e) (\<lambda>new_family. bind (fresh e) (\<lambda>random. bind (now e) (\<lambda>t.
          bind (transaction e (sign_in_tx cx identity new_user new_family (cx_token cx REFRESH_TOKEN_BYTES random) t)) (\<lambda>signed. case signed of
            None \<Rightarrow> ret (Login_refused ''this account is disabled'')
          | Some (user, refresh) \<Rightarrow> bind (now e) (\<lambda>t2. bind (now e) (\<lambda>t3.
              ret (Signed_in (set_session cx t3 (issue_token (cx_jwt cx) (cx_signer cx) t2 (u_id user)) refresh)))))))))) w1 = (Inr (Signed_in session), w')"
    unfolding callback_def by (auto simp: bind_Inr_iff throw_def split: if_splits)
  from rest obtain identity where answer: "answer = Inr identity" by (cases answer) (auto simp: ret_def)
  with a have i: "callback_identity e cx rq code state error w = (Inr (Inr identity), w1)" by simp
  from rest obtain new_user new_family v t w2 signed w3 where
    x: "transaction e (sign_in_tx cx identity new_user new_family v t) w2 = (Inr signed, w3)" "w_db w2 = w_db w1"
    and s: "(case signed of
            None \<Rightarrow> ret (Login_refused ''this account is disabled'')
          | Some (user, refresh) \<Rightarrow> bind (now e) (\<lambda>t2. bind (now e) (\<lambda>t3.
              ret (Signed_in (set_session cx t3 (issue_token (cx_jwt cx) (cx_signer cx) t2 (u_id user)) refresh))))) w3 = (Inr (Signed_in session), w')"
    unfolding answer by (auto simp: bind_Inr_iff fresh_def now_def)
  from s obtain user refresh where signed: "signed = Some (user, refresh)" and c: "w_db w' = w_db w3" "se_refresh session = ir_value refresh"
      "\<exists>t. se_access session = it_value (issue_token (cx_jwt cx) (cx_signer cx) t (u_id user))"
    by (cases signed) (auto simp: bind_Inr_iff ret_def now_def set_session_def, blast)
  obtain t' where "sign_in_tx cx identity new_user new_family v t ((w_db w2)\<lparr>db_now := t'\<rparr>) = (Inr (Some (user, refresh)), w_db w3)"
    using transaction_Inr [OF x(1)] signed by blast
  from sign_in_tx_Inr [OF this] callback_identity_Inr [OF i] c x(2) show ?thesis
    unfolding PROVIDER_def by simp blast
qed

section \<open>A concrete sign-in\<close>

definition sample_google :: google_http where
  "sample_google = \<lparr>
     gh_post = (\<lambda>page form. Replied 200 (Some (JObj [(''access_token'', JStr ''t'')]))),
     gh_get = (\<lambda>page access. Replied 200 (Some (JObj [(''sub'', JStr ''s''), (''email'', JStr ''e''), (''email_verified'', JBool True)])))\<rparr>"

definition google_context :: app_context where
  "google_context = sample_context\<lparr>cx_google := sample_google\<rparr>"

definition returning :: http_request where
  "returning = \<lparr>rq_authorization = None, rq_cookies = [(LOGIN_COOKIE,
     issue_login_state sample_jwt sample_signer 0 \<lparr>ls_state = ''st'', ls_verifier = ''v''\<rparr>)], rq_refresh_token = None\<rparr>"

lemma google_context_simps [simp]: "cx_jwt google_context = sample_jwt" "cx_signer google_context = sample_signer"
  "cx_google google_context = sample_google" "cx_hash google_context = id" "cx_config google_context = sample_config"
  by (simp_all add: google_context_def, simp add: sample_context_def)

lemma returning_identity:
  "\<exists>w1. callback_identity sample_env google_context returning (Some ''c'') (Some ''st'') None sample_users =
     (Inr (Inr \<lparr>gi_subject = ''s'', gi_email = ''e''\<rparr>), w1) \<and> w_db w1 = w_db sample_users"
proof -
  have "issue_login_state sample_jwt sample_signer 0 login \<noteq> []" for login
    by (simp add: issue_login_state_def encode_def sample_jwt_def json_string_def)
  moreover have "exchange_code sample_google config c v = Inr \<lparr>gi_subject = ''s'', gi_email = ''e''\<rparr>" for config c v
    by (simp add: exchange_code_Inr vouched_def sample_google_def)
  ultimately show ?thesis
    by (simp add: callback_identity_def returning_def bind_def now_def ret_def verify_login_state_own [OF sample_jwt_decodes]
        sample_env_def sample_users_def sample_world_def LOGIN_STATE_TTL_def SECOND_def)
qed

theorem login_roundtrip_witness:
  "\<exists>url cookie w' started. login sample_env google_context PROVIDER sample_users = (Inr (url, cookie), w') \<and>
     verify_login_state sample_jwt sample_signer (599 * SECOND) cookie = Inr started"
proof -
  obtain url cookie w' where run: "login sample_env google_context PROVIDER sample_users = (Inr (url, cookie), w')"
    by (simp add: login_def PROVIDER_def fresh_def now_def bind_def ret_def Let_def)
  have "decodes_own (cx_jwt google_context)" by (simp add: sample_jwt_decodes)
  from login_roundtrip [OF this run] obtain started where "verify_login_state sample_jwt sample_signer (599 * SECOND) cookie = Inr started"
    by (auto simp: sample_env_def sample_users_def sample_world_def SECOND_def)
  with run show ?thesis by blast
qed

theorem sign_in_vouched_witness:
  "\<exists>session w' (user :: user_row). callback sample_env google_context returning ''google'' (Some ''c'') (Some ''st'') None sample_users =
     (Inr (Signed_in session), w') \<and> u_status user = ACTIVE \<and>
     (\<exists>t. se_access session = it_value (issue_token sample_jwt sample_signer t (u_id user)))"
proof -
  obtain w1 where i: "callback_identity sample_env google_context returning (Some ''c'') (Some ''st'') None sample_users =
     (Inr (Inr \<lparr>gi_subject = ''s'', gi_email = ''e''\<rparr>), w1)" "w_db w1 = w_db sample_users"
    using returning_identity by blast
  have users: "t_users (w_db sample_users) = [sample_user 7 ACTIVE, sample_user 8 DISABLED]" "t_tokens (w_db sample_users) = []"
    by (simp_all add: sample_users_def sample_db_def empty_db_def)
  obtain session w' where run: "callback sample_env google_context returning ''google'' (Some ''c'') (Some ''st'') None sample_users =
      (Inr (Signed_in session), w')"
    using i users
    by (simp add: callback_def PROVIDER_def bind_def fresh_def now_def transaction_def session_scope_def sign_in_tx_def get_user_by_identity_def
        gets_def ret_def sample_user_def start_family_def issue_def add_refresh_token_def seq_def modify_def)
  from sign_in_vouched [OF run] obtain user :: user_row where "u_status user = ACTIVE"
      "\<exists>t. se_access session = it_value (issue_token (cx_jwt google_context) (cx_signer google_context) t (u_id user))"
    by blast
  with run show ?thesis unfolding google_context_simps by blast
qed

end
