(* ===== verification/Schemas.thy ===== *)
theory Schemas
  imports Api_Config Api_Assets Api_Accounts Api_Auth
begin

text \<open>
  The bodies of answers and of requests (\<open>api/schemas.py\<close>). A response model is a whitelist: its JSON has the
  declared fields, in their order, whatever the row carries. How the library writes a decimal or a
  time, and what it accepts as a number, a truth or a time, are its own: parameters here.
\<close>

section \<open>What the library writes and reads\<close>

record texts =
  tx_decimal :: "dec \<Rightarrow> string"
  tx_datetime :: "datetime \<Rightarrow> string"

record coercions =
  co_bool :: "json \<Rightarrow> bool option"
  co_int :: "json \<Rightarrow> int option"
  co_decimal :: "json \<Rightarrow> dec option"
  co_datetime :: "json \<Rightarrow> datetime option"
  co_query_bool :: "string \<Rightarrow> bool option"
  co_query_int :: "string \<Rightarrow> int option"
  co_query_uuid :: "string \<Rightarrow> uuid option"

definition optional_json :: "('a \<Rightarrow> json) \<Rightarrow> 'a option \<Rightarrow> json" where
  "optional_json f x = (case x of None \<Rightarrow> JNull | Some v \<Rightarrow> f v)"

abbreviation text_json :: "string option \<Rightarrow> json" where
  "text_json \<equiv> optional_json JStr"

abbreviation time_json :: "texts \<Rightarrow> datetime \<Rightarrow> json" where
  "time_json tx t \<equiv> JStr (tx_datetime tx t)"

abbreviation decimal_json :: "texts \<Rightarrow> dec \<Rightarrow> json" where
  "decimal_json tx x \<equiv> JStr (tx_decimal tx x)"

abbreviation uuid_json :: "uuid \<Rightarrow> json" where
  "uuid_json u \<equiv> JStr (uuid_text u)"

section \<open>The values of the enumerations\<close>

fun user_status_value :: "user_status \<Rightarrow> string" where
  "user_status_value ACTIVE = ''ACTIVE''"
| "user_status_value DISABLED = ''DISABLED''"

fun cadence_mode_value :: "cadence_mode \<Rightarrow> string" where
  "cadence_mode_value MIN_MODE = ''MIN''"
| "cadence_mode_value INTERVAL = ''INTERVAL''"

fun order_reason_value :: "order_reason \<Rightarrow> string" where
  "order_reason_value INVEST = ''INVEST''"
| "order_reason_value REBALANCE = ''REBALANCE''"

fun proposal_status_value :: "proposal_status \<Rightarrow> string" where
  "proposal_status_value EXECUTING = ''EXECUTING''"
| "proposal_status_value EXECUTED = ''EXECUTED''"
| "proposal_status_value LIVE = ''LIVE''"
| "proposal_status_value WITHDRAWN = ''WITHDRAWN''"

fun proposal_trigger_value :: "proposal_trigger \<Rightarrow> string" where
  "proposal_trigger_value MANUAL = ''MANUAL''"
| "proposal_trigger_value SCHEDULED = ''SCHEDULED''"

fun operation_value :: "operation \<Rightarrow> string" where
  "operation_value OP_INVEST = ''INVEST''"
| "operation_value OP_PROPOSE = ''PROPOSE''"
| "operation_value OP_APPROVE = ''APPROVE''"
| "operation_value OP_REBALANCE = ''REBALANCE''"

fun trigger_value :: "trigger \<Rightarrow> string" where
  "trigger_value API = ''API''"
| "trigger_value SCHEDULER = ''SCHEDULER''"

fun cadence_mode_of :: "json \<Rightarrow> cadence_mode option" where
  "cadence_mode_of (JStr s) = (if s = ''MIN'' then Some MIN_MODE else if s = ''INTERVAL'' then Some INTERVAL else None)"
| "cadence_mode_of _ = None"

section \<open>The bodies of answers\<close>

definition token_pair_json :: "texts \<Rightarrow> token_pair \<Rightarrow> json" where
  "token_pair_json tx p = JObj
     [(''access_token'', JStr (tp_access_token p)), (''token_type'', JStr ''bearer''),
      (''expires_at'', time_json tx (tp_expires_at p)), (''refresh_token'', JStr (tp_refresh_token p)),
      (''refresh_expires_at'', time_json tx (tp_refresh_expires_at p))]"

definition me_json :: "texts \<Rightarrow> user_row \<Rightarrow> json" where
  "me_json tx u = JObj
     [(''id'', uuid_json (u_id u)), (''email'', JStr (u_email u)), (''provider'', JStr (u_provider u)),
      (''status'', JStr (user_status_value (u_status u))), (''created_at'', time_json tx (u_created_at u))]"

definition key_accepted_json :: "texts \<Rightarrow> key_accepted \<Rightarrow> json" where
  "key_accepted_json tx k = JObj
     [(''validated_at'', time_json tx (ka_validated_at k)), (''permissions'', JList (map JStr (ka_permissions k))),
      (''ip_allowlist'', JList (map JStr (ka_ip_allowlist k))), (''unnecessary'', JList (map JStr (ka_unnecessary k)))]"

definition credential_status_json :: "texts \<Rightarrow> credential_status \<Rightarrow> json" where
  "credential_status_json tx s = JObj
     [(''registered'', JBool (cs_registered s)), (''validated_at'', optional_json (time_json tx) (cs_validated_at s)),
      (''key_version'', optional_json JInt (cs_key_version s))]"

definition config_json :: "texts \<Rightarrow> settings_row \<Rightarrow> json" where
  "config_json tx s = JObj
     [(''fiat'', JStr (st_fiat s)),
      (''invest_cash_enabled'', JBool (st_invest_cash_enabled s)),
      (''cash_rebalance_enabled'', JBool (st_cash_rebalance_enabled s)),
      (''auto_rebalance_enabled'', JBool (st_auto_rebalance_enabled s)),
      (''min_drift_pct'', decimal_json tx (st_min_drift_pct s)),
      (''min_order_fiat'', decimal_json tx (st_min_order_fiat s)),
      (''invest_cadence_mode'', JStr (cadence_mode_value (cad_mode (st_invest_cadence s)))),
      (''invest_interval_days'', optional_json JInt (cad_interval_days (st_invest_cadence s))),
      (''invest_interval_months'', optional_json JInt (cad_interval_months (st_invest_cadence s))),
      (''invest_cadence_anchor'', optional_json (time_json tx) (cad_anchor (st_invest_cadence s))),
      (''rebalance_cadence_mode'', JStr (cadence_mode_value (cad_mode (st_rebalance_cadence s)))),
      (''rebalance_interval_days'', optional_json JInt (cad_interval_days (st_rebalance_cadence s))),
      (''rebalance_interval_months'', optional_json JInt (cad_interval_months (st_rebalance_cadence s))),
      (''rebalance_cadence_anchor'', optional_json (time_json tx) (cad_anchor (st_rebalance_cadence s))),
      (''next_invest_at'', optional_json (time_json tx) (st_next_invest_at s)),
      (''next_rebalance_at'', optional_json (time_json tx) (st_next_rebalance_at s)),
      (''paused'', JBool (st_paused s)),
      (''onboarded_at'', optional_json (time_json tx) (st_onboarded_at s))]"

definition asset_out_json :: "texts \<Rightarrow> asset_out \<Rightarrow> json" where
  "asset_out_json tx a = JObj
     [(''asset'', JStr (asn_asset a)), (''pair'', JStr (asn_pair a)), (''target_pct'', decimal_json tx (asn_target_pct a)),
      (''kraken_min_fiat'', text_json (asn_kraken_min_fiat a))]"

definition assets_out_json :: "texts \<Rightarrow> assets_out \<Rightarrow> json" where
  "assets_out_json tx a = JObj
     [(''assets'', JList (map (asset_out_json tx) (aso_assets a))), (''cash_target_pct'', decimal_json tx (aso_cash_target_pct a))]"

text \<open>\<open>HoldingOut(asset=asset, **fields)\<close> of a holding as a snapshot stores it.\<close>

definition holding_out_json :: "string \<times> json \<Rightarrow> json" where
  "holding_out_json h = JObj ((''asset'', JStr (fst h)) # map (\<lambda>name. (name, field (snd h) name))
     [''amount'', ''price'', ''value'', ''managed'', ''locked'', ''target_pct'', ''weight_pct''])"

definition portfolio_json :: "texts \<Rightarrow> portfolio_out \<Rightarrow> json" where
  "portfolio_json tx p = JObj
     [(''as_of'', time_json tx (po_as_of p)), (''fiat'', JStr (po_fiat p)), (''total_value'', JStr (po_total_value p)),
      (''cash'', JStr (po_cash p)), (''cash_target_pct'', po_cash_target_pct p), (''cash_weight_pct'', po_cash_weight_pct p),
      (''holdings'', JList (map holding_out_json (po_holdings p)))]"

definition order_json :: "texts \<Rightarrow> order_row \<Rightarrow> json" where
  "order_json tx r = JObj
     [(''cl_ord_id'', JStr (o_cl_ord_id r)), (''session_id'', optional_json uuid_json (o_session r)),
      (''txid'', text_json (o_txid r)), (''pair'', JStr (o_pair r)), (''asset'', JStr (o_asset r)),
      (''side'', JStr (side_value (o_side r))), (''reason'', JStr (order_reason_value (o_reason r))),
      (''status'', JStr (order_status_value (o_status r))), (''requested_fiat'', decimal_json tx (o_requested_fiat r)),
      (''executed_volume'', optional_json (decimal_json tx) (o_executed_volume r)),
      (''executed_price'', optional_json (decimal_json tx) (o_executed_price r)),
      (''fee'', optional_json (decimal_json tx) (o_fee r)), (''cost'', optional_json (decimal_json tx) (o_cost r)),
      (''error'', text_json (o_error r)), (''created_at'', time_json tx (o_created_at r))]"

definition evaluation_json :: "texts \<Rightarrow> evaluation_row \<Rightarrow> json" where
  "evaluation_json tx r = JObj
     [(''id'', uuid_json (ev_id r)), (''started_at'', time_json tx (ev_started_at r)),
      (''finished_at'', optional_json (time_json tx) (ev_finished_at r)), (''duration_ms'', optional_json JInt (ev_duration_ms r)),
      (''status'', JStr (ev_status r)), (''operation'', optional_json (\<lambda>x. JStr (operation_value x)) (ev_operation r)),
      (''trigger'', optional_json (\<lambda>x. JStr (trigger_value x)) (ev_trigger r)), (''log_messages'', text_json (ev_log_messages r))]"

definition leg_json :: "leg_out \<Rightarrow> json" where
  "leg_json l = JObj
     [(''asset'', JStr (lo_asset l)), (''pair'', JStr (lo_pair l)), (''side'', JStr (lo_side l)),
      (''amount_fiat'', JStr (lo_amount_fiat l)), (''minimum_fiat'', text_json (lo_minimum_fiat l)),
      (''status'', JStr (lo_status l)), (''cl_ord_id'', text_json (lo_cl_ord_id l)), (''txid'', text_json (lo_txid l)),
      (''cost'', text_json (lo_cost l)), (''executed_volume'', text_json (lo_executed_volume l)),
      (''executed_price'', text_json (lo_executed_price l)), (''fee'', text_json (lo_fee l)), (''error'', text_json (lo_error l)),
      (''note'', text_json (lo_note l)), (''volume'', text_json (lo_volume l))]"

definition invest_json :: "invest_out \<Rightarrow> json" where
  "invest_json r = JObj
     [(''status'', JStr (io_status r)), (''preview'', JBool (io_preview r)), (''legs'', JList (map leg_json (io_legs r))),
      (''messages'', JList (map JStr (io_messages r)))]"

definition proposal_leg_json :: "doc_leg \<Rightarrow> json" where
  "proposal_leg_json l = JObj
     [(''asset'', JStr (dl_asset l)), (''pair'', JStr (dl_pair l)), (''side'', JStr (dl_side l)),
      (''amount_fiat'', JStr (dl_amount_fiat l)), (''minimum_fiat'', text_json (dl_minimum_fiat l)), (''note'', text_json (dl_note l))]"

definition proposal_json :: "texts \<Rightarrow> proposal_state \<Rightarrow> json" where
  "proposal_json tx s = JObj
     [(''version'', JInt (ps_version s)), (''status'', JStr (proposal_status_value (ps_status s))),
      (''trigger'', JStr (proposal_trigger_value (ps_trigger s))), (''fiat'', JStr (doc_fiat (ps_plan s))),
      (''legs'', JList (map proposal_leg_json (doc_legs (ps_plan s)))), (''updated_at'', time_json tx (ps_updated_at s))]"

definition rebalance_json :: "texts \<Rightarrow> rebalance_out \<Rightarrow> json" where
  "rebalance_json tx r = JObj
     [(''status'', JStr (ro_status r)), (''legs'', JList (map leg_json (ro_legs r))),
      (''proposal'', optional_json (proposal_json tx) (ro_proposal r)), (''messages'', JList (map JStr (ro_messages r)))]"

section \<open>The bodies of requests\<close>

text \<open>A body as it came: none, one that is not JSON, or JSON in which an object has each key once.\<close>

datatype body = No_body | Not_json | Json_body json

definition refused_field :: "string \<Rightarrow> exn" where
  "refused_field name = HTTPException 422 (Field_detail [name])"

text \<open>The members of a body that must be an object, and may have no other keys where a model forbids them.\<close>

definition members_of :: "body \<Rightarrow> (string \<times> json) list result" where
  "members_of b = (case b of Json_body (JObj kvs) \<Rightarrow> Inr kvs | _ \<Rightarrow> Inl (refused_field ''body''))"

definition only_keys :: "string list \<Rightarrow> (string \<times> json) list \<Rightarrow> (string \<times> json) list result" where
  "only_keys names kvs =
     (case find (\<lambda>k. k \<notin> set names) (map fst kvs) of None \<Rightarrow> Inr kvs | Some extra \<Rightarrow> Inl (refused_field extra))"

text \<open>A required field, and one that may be absent or null.\<close>

definition required_field :: "string \<Rightarrow> (json \<Rightarrow> 'a option) \<Rightarrow> (string \<times> json) list \<Rightarrow> 'a result" where
  "required_field name f kvs =
     (case Option.bind (map_of kvs name) f of None \<Rightarrow> Inl (refused_field name) | Some x \<Rightarrow> Inr x)"

definition read_patch_field :: "string \<Rightarrow> (json \<Rightarrow> 'a option) \<Rightarrow> (string \<times> json) list \<Rightarrow> 'a patch_field result" where
  "read_patch_field name f kvs =
     (case map_of kvs name of
        None \<Rightarrow> Inr Absent
      | Some JNull \<Rightarrow> Inr Null
      | Some j \<Rightarrow> (case f j of None \<Rightarrow> Inl (refused_field name) | Some x \<Rightarrow> Inr (Given x)))"

fun text_of :: "json \<Rightarrow> string option" where
  "text_of (JStr s) = Some s"
| "text_of _ = None"

fun bool_of :: "json \<Rightarrow> bool option" where
  "bool_of (JBool b) = Some b"
| "bool_of _ = None"

definition CONFIG_FIELDS :: "string list" where
  "CONFIG_FIELDS =
     [''fiat'', ''invest_cash_enabled'', ''cash_rebalance_enabled'', ''auto_rebalance_enabled'', ''paused'', ''min_drift_pct'',
      ''min_order_fiat'', ''invest_cadence_mode'', ''invest_interval_days'', ''invest_interval_months'', ''invest_cadence_anchor'',
      ''rebalance_cadence_mode'', ''rebalance_interval_days'', ''rebalance_interval_months'', ''rebalance_cadence_anchor'', ''onboarded'']"

text \<open>
  \<open>ConfigPatch\<close>, up to the types of its fields. The first field that is refused is named, where the library names
  them all; the ranges come after.
\<close>

definition config_patch_of :: "coercions \<Rightarrow> body \<Rightarrow> config_patch result" where
  "config_patch_of co b =
     rbind (rbind (members_of b) (only_keys CONFIG_FIELDS)) (\<lambda>kvs.
     rbind (read_patch_field ''fiat'' text_of kvs) (\<lambda>fiat.
     rbind (read_patch_field ''invest_cash_enabled'' (co_bool co) kvs) (\<lambda>invest_cash.
     rbind (read_patch_field ''cash_rebalance_enabled'' (co_bool co) kvs) (\<lambda>cash_rebalance.
     rbind (read_patch_field ''auto_rebalance_enabled'' (co_bool co) kvs) (\<lambda>auto_rebalance.
     rbind (read_patch_field ''paused'' (co_bool co) kvs) (\<lambda>paused.
     rbind (read_patch_field ''min_drift_pct'' (co_decimal co) kvs) (\<lambda>min_drift.
     rbind (read_patch_field ''min_order_fiat'' (co_decimal co) kvs) (\<lambda>min_order.
     rbind (read_patch_field ''invest_cadence_mode'' cadence_mode_of kvs) (\<lambda>invest_mode.
     rbind (read_patch_field ''invest_interval_days'' (co_int co) kvs) (\<lambda>invest_days.
     rbind (read_patch_field ''invest_interval_months'' (co_int co) kvs) (\<lambda>invest_months.
     rbind (read_patch_field ''invest_cadence_anchor'' (co_datetime co) kvs) (\<lambda>invest_anchor.
     rbind (read_patch_field ''rebalance_cadence_mode'' cadence_mode_of kvs) (\<lambda>rebalance_mode.
     rbind (read_patch_field ''rebalance_interval_days'' (co_int co) kvs) (\<lambda>rebalance_days.
     rbind (read_patch_field ''rebalance_interval_months'' (co_int co) kvs) (\<lambda>rebalance_months.
     rbind (read_patch_field ''rebalance_cadence_anchor'' (co_datetime co) kvs) (\<lambda>rebalance_anchor.
     rbind (read_patch_field ''onboarded'' bool_of kvs) (\<lambda>onboarded. Inr
       \<lparr>cp_fiat = fiat, cp_invest_cash_enabled = invest_cash, cp_cash_rebalance_enabled = cash_rebalance,
        cp_auto_rebalance_enabled = auto_rebalance, cp_paused = paused, cp_min_drift_pct = min_drift, cp_min_order_fiat = min_order,
        cp_invest_cadence_mode = invest_mode, cp_invest_interval_days = invest_days, cp_invest_interval_months = invest_months,
        cp_invest_cadence_anchor = invest_anchor, cp_rebalance_cadence_mode = rebalance_mode,
        cp_rebalance_interval_days = rebalance_days, cp_rebalance_interval_months = rebalance_months,
        cp_rebalance_cadence_anchor = rebalance_anchor, cp_onboarded = onboarded\<rparr>)))))))))))))))))"

definition asset_in_of :: "coercions \<Rightarrow> body \<Rightarrow> dec result" where
  "asset_in_of co b =
     rbind (rbind (members_of b) (only_keys [''target_pct''])) (\<lambda>kvs. required_field ''target_pct'' (co_decimal co) kvs)"

definition approve_in_of :: "coercions \<Rightarrow> body \<Rightarrow> int result" where
  "approve_in_of co b =
     rbind (rbind (members_of b) (only_keys [''version''])) (\<lambda>kvs. required_field ''version'' (co_int co) kvs)"

text \<open>\<open>CredentialsIn\<close> forbids no other keys.\<close>

definition credentials_in_of :: "body \<Rightarrow> (string \<times> string) result" where
  "credentials_in_of b =
     rbind (members_of b) (\<lambda>kvs.
     rbind (required_field ''api_key'' text_of kvs) (\<lambda>key.
     rbind (required_field ''api_secret'' text_of kvs) (\<lambda>secret. Inr (key, secret))))"

text \<open>The body of a refresh or a logout, which may be left out: the refresh token in it, if there is one.\<close>

definition refresh_in_of :: "body \<Rightarrow> string option result" where
  "refresh_in_of b =
     (if b = No_body \<or> b = Json_body JNull then Inr None
      else rbind (rbind (members_of b) (only_keys [''refresh_token''])) (\<lambda>kvs.
           rbind (read_patch_field ''refresh_token'' text_of kvs) (\<lambda>f. Inr (case f of Given s \<Rightarrow> Some s | _ \<Rightarrow> None))))"

end
