(* ===== verification/App.thy ===== *)
theory App
  imports Config "HOL-Library.Sublist"
begin

text \<open>
  What surrounds the routes: the files of the web build (\<open>api/web.py\<close>), the answers to errors that no
  route handles (\<open>api/app.py\<close>), and what logging drops (\<open>core/logs.py\<close>). The file system is a
  parameter: the absolute paths, as their parts, at which there is a file; the build has no
  symbolic links, and a path has no null character.
\<close>

section \<open>api/web.py\<close>

definition CACHE_IMMUTABLE :: string where "CACHE_IMMUTABLE = ''public, max-age=31536000, immutable''"
definition CACHE_NONE :: string where "CACHE_NONE = ''no-cache''"

text \<open>\<open>Path.resolve\<close> on the parts of an absolute path.\<close>

definition resolve_part :: "string \<Rightarrow> string list \<Rightarrow> string list" where
  "resolve_part p acc = (if p = [] \<or> p = ''.'' then acc else if p = ''..'' then butlast acc else acc @ [p])"

definition resolve :: "string list \<Rightarrow> string list" where
  "resolve parts = fold resolve_part parts []"

text \<open>\<open>root / path\<close>: an absolute path replaces the root.\<close>

definition joined :: "string list \<Rightarrow> string \<Rightarrow> string list" where
  "joined build path = (if take 1 path = ''/'' then split_on CHR ''/'' path else build @ split_on CHR ''/'' path)"

definition file_in_build :: "(string list \<Rightarrow> bool) \<Rightarrow> string list \<Rightarrow> string \<Rightarrow> string list option" where
  "file_in_build is_file dir path =
     (let build = resolve dir; resolved = resolve (joined build path)
      in if is_file resolved \<and> prefix build resolved then Some resolved else None)"

text \<open>
  What a path that no route of the API answers comes to; \<open>path\<close> is what follows the first slash,
  decoded. Starlette answers 405 when only the method is wrong.
\<close>

datatype served = Served "string list" string | No_such_route | Method_not_allowed

definition EVERY_METHOD :: "string list" where
  "EVERY_METHOD = [''GET'', ''HEAD'', ''POST'', ''PUT'', ''PATCH'', ''DELETE'', ''OPTIONS'']"

definition of_api :: "string \<Rightarrow> bool" where
  "of_api path \<longleftrightarrow> path = ''api'' \<or> prefix ''api/'' path"

definition application :: "(string list \<Rightarrow> bool) \<Rightarrow> string list \<Rightarrow> string \<Rightarrow> served" where
  "application is_file dir path =
     (let build = resolve dir
      in case file_in_build is_file build path of
           None \<Rightarrow> Served (build @ [''index.html'']) CACHE_NONE
         | Some file \<Rightarrow> Served file (if prefix (build @ [''assets'']) file then CACHE_IMMUTABLE else CACHE_NONE))"

definition mount_application :: "(string list \<Rightarrow> bool) \<Rightarrow> string list \<Rightarrow> string \<Rightarrow> string \<Rightarrow> served" where
  "mount_application is_file dir request_method path =
     (if of_api path \<and> request_method \<in> set EVERY_METHOD then No_such_route
      else if request_method \<in> {''GET'', ''HEAD''} then application is_file dir path
      else Method_not_allowed)"

section \<open>api/app.py\<close>

text \<open>An error of the database library: its pool gave up, or the server or the connection failed, with the code of the server's answer.\<close>

datatype database_error = Pool_timeout | Operational_error "string option" | Other_database_error

fun database_unreachable :: "database_error \<Rightarrow> bool" where
  "database_unreachable Pool_timeout = True"
| "database_unreachable (Operational_error sqlstate) = (sqlstate = None)"
| "database_unreachable Other_database_error = False"

definition DATABASE_DOWN :: string where
  "DATABASE_DOWN = ''the database cannot be reached right now; try again in a moment''"

text \<open>The status of the answer and its detail; an error that is raised on is a 500 without one.\<close>

definition database_error :: "database_error \<Rightarrow> int \<times> string option" where
  "database_error exc = (if database_unreachable exc then (503, Some DATABASE_DOWN) else (500, None))"

text \<open>One finding of the validation of a body: what FastAPI keeps of it includes the value that failed.\<close>

record 'v finding =
  fi_loc :: "string list option"
  fi_msg :: "string option"
  fi_type :: "string option"
  fi_input :: 'v

definition validation_error :: "'v finding list \<Rightarrow> int \<times> (string list \<times> string \<times> string) list" where
  "validation_error errors =
     (422, map (\<lambda>f. (case fi_loc f of None \<Rightarrow> [] | Some l \<Rightarrow> l, case fi_msg f of None \<Rightarrow> [] | Some m \<Rightarrow> m,
        case fi_type f of None \<Rightarrow> [] | Some t \<Rightarrow> t)) errors)"

section \<open>core/logs.py\<close>

text \<open>\<open>str.splitlines\<close>: the ends of lines of an 8-bit text, a carriage return and a line feed being one.\<close>

definition line_end :: "char \<Rightarrow> bool" where
  "line_end c \<longleftrightarrow> (of_char c :: nat) \<in> {10, 11, 12, 13, 28, 29, 30, 133}"

fun split_lines :: "string \<Rightarrow> string list" where
  "split_lines [] = []"
| "split_lines [c] = (if line_end c then [[]] else [[c]])"
| "split_lines (c # d # cs) =
     (if c = CHR 0x0D \<and> d = CHR 0x0A then [] # split_lines cs
      else if line_end c then [] # split_lines (d # cs)
      else case split_lines (d # cs) of [] \<Rightarrow> [[c]] | w # ws \<Rightarrow> (c # w) # ws)"

definition repeats_values :: "string \<Rightarrow> bool" where
  "repeats_values line \<longleftrightarrow> prefix ''DETAIL:'' (dropWhile is_space line)"

text \<open>\<open>Formatter.formatException\<close> of the text the library formats.\<close>

definition format_exception :: "string \<Rightarrow> string" where
  "format_exception text = join_on CHR 0x0A (filter (\<lambda>line. \<not> repeats_values line) (split_lines text))"

text \<open>\<open>WithoutQuery.filter\<close>: the arguments of an access record, when they are the five texts of one.\<close>

definition without_query :: "string list \<Rightarrow> string list" where
  "without_query args = (if length args = 5 then args[2 := hd (split_on CHR ''?'' (args ! 2))] else args)"

section \<open>Only the build is served\<close>

definition named :: "string \<Rightarrow> bool" where
  "named p \<longleftrightarrow> p \<noteq> [] \<and> p \<noteq> ''.'' \<and> p \<noteq> ''..''"

definition plain_part :: "string \<Rightarrow> bool" where
  "plain_part p \<longleftrightarrow> named p \<and> CHR ''/'' \<notin> set p"

lemma resolve_part_named: "named p \<Longrightarrow> resolve_part p acc = acc @ [p]"
  by (simp add: named_def resolve_part_def)

lemma resolve_part_keeps: "list_all named acc \<Longrightarrow> list_all named (resolve_part p acc)"
  by (cases "named p") (auto simp: resolve_part_named named_def resolve_part_def list_all_iff dest: in_set_butlastD)

lemma fold_resolve_named: "list_all named parts \<Longrightarrow> fold resolve_part parts acc = acc @ parts"
  by (induction parts arbitrary: acc) (simp_all add: resolve_part_named)

lemma resolve_parts: "list_all named (resolve parts)"
proof -
  have "list_all named acc \<Longrightarrow> list_all named (fold resolve_part parts acc)" for acc
    by (induction parts arbitrary: acc) (simp_all add: resolve_part_keeps)
  then show ?thesis by (simp add: resolve_def)
qed

lemma resolve_named: "list_all named parts \<Longrightarrow> resolve parts = parts"
  by (simp add: resolve_def fold_resolve_named)

lemma resolve_resolve [simp]: "resolve (resolve parts) = resolve parts"
  by (rule resolve_named [OF resolve_parts])

lemma resolve_joined:
  assumes "rel \<noteq> []" "list_all plain_part rel"
  shows "resolve (joined (resolve dir) (join_on CHR ''/'' rel)) = resolve dir @ rel"
proof -
  have "split_on CHR ''/'' (join_on CHR ''/'' rel) = rel"
    using assms by (intro split_on_join) (auto simp: plain_part_def list_all_iff)
  moreover have "take 1 (join_on CHR ''/'' rel) \<noteq> ''/''"
  proof -
    obtain c p rel' where "rel = (c # p) # rel'" "c \<noteq> CHR ''/''"
      using assms by (cases rel; cases "hd rel") (auto simp: plain_part_def named_def)
    then show ?thesis by (cases rel') simp_all
  qed
  moreover have "list_all named (resolve dir @ rel)"
    using assms(2) resolve_parts [of dir] by (auto simp: list_all_iff plain_part_def)
  ultimately show ?thesis by (simp add: joined_def resolve_named)
qed

lemma up_not_resolved: "''..'' \<notin> set (resolve parts)"
  using resolve_parts [of parts] by (auto simp: list_all_iff named_def)

lemma caches_differ: "CACHE_NONE \<noteq> CACHE_IMMUTABLE"
  by (simp add: CACHE_NONE_def CACHE_IMMUTABLE_def)

lemma index_not_asset: "\<not> prefix (build @ [''assets'']) (build @ [''index.html''])"
  by simp



section \<open>What is logged\<close>

lemma split_lines_plain: "w \<in> set (split_lines s) \<Longrightarrow> list_all (\<lambda>c. \<not> line_end c) w"
  by (induction s arbitrary: w rule: split_lines.induct) (auto split: if_splits list.splits)

lemma line_ends [simp]: "line_end CHR 0x0A" "line_end CHR 0x0D"
  by (simp_all add: line_end_def)

lemma split_lines_word: "list_all (\<lambda>c. \<not> line_end c) w \<Longrightarrow> split_lines w = (if w = [] then [] else [w])"
  by (induction w rule: split_lines.induct) auto

lemma split_lines_append:
  "list_all (\<lambda>c. \<not> line_end c) w \<Longrightarrow> split_lines (w @ CHR 0x0A # s) = w # split_lines s"
proof (induction w)
  case Nil
  then show ?case by (cases s) auto
next
  case (Cons c w)
  then show ?case by (cases w; cases s) auto
qed

lemma split_lines_join:
  "list_all (\<lambda>w. list_all (\<lambda>c. \<not> line_end c) w) ws \<Longrightarrow> set (split_lines (join_on CHR 0x0A ws)) \<subseteq> set ws"
  by (induction "CHR 0x0A" ws rule: join_on.induct) (auto simp: split_lines_word split_lines_append)

text \<open>
  No line of a traceback as it is written repeats the values of a row, and every line of it was a line of the
  traceback.
\<close>

lemma format_exception_lines:
  "w \<in> set (split_lines (format_exception text)) \<Longrightarrow> w \<in> set (split_lines text) \<and> \<not> repeats_values w"
proof -
  let ?ws = "filter (\<lambda>line. \<not> repeats_values line) (split_lines text)"
  have "set (split_lines (join_on CHR 0x0A ?ws)) \<subseteq> set ?ws"
    by (rule split_lines_join) (auto simp: list_all_iff dest: split_lines_plain)
  then show "w \<in> set (split_lines (format_exception text)) \<Longrightarrow> w \<in> set (split_lines text) \<and> \<not> repeats_values w"
    by (auto simp: format_exception_def)
qed

end
