(* ===== verification/Server.thy ===== *)
theory Server
  imports Schemas App Service Access_Safety
begin

text \<open>
  The API as it is reached over HTTP (\<open>api/app.py\<close> and the decorators of \<open>api/routes\<close>): which route a method
  and a path come to, how its parameters are read, and what is answered, errors included. FastAPI reads a
  body before it asks who the caller is, and everything else after; the first route that
  matches answers; its documentation pages are a parameter.
\<close>

section \<open>The routes\<close>

datatype api_endpoint =
    Health | Login string | Callback string | Refresh_session | Logout | Me
  | Register_key | Remove_key | Key_status
  | Read_config | Patch_config
  | List_assets | Put_asset string | Delete_asset string
  | Read_portfolio | Refresh_portfolio
  | Invest_route
  | Rebalance_route | Read_proposal | Approve_proposal | Withdraw_proposal
  | Orders_route | Sessions_route

datatype segment = Fixed string | Param

record route =
  rt_method :: string
  rt_path :: "segment list"
  rt_endpoint :: "string list \<Rightarrow> api_endpoint"

abbreviation plainly :: "string \<Rightarrow> segment list \<Rightarrow> api_endpoint \<Rightarrow> route" where
  "plainly m path ep \<equiv> \<lparr>rt_method = m, rt_path = path, rt_endpoint = (\<lambda>_. ep)\<rparr>"

text \<open>\<open>APIRouter(prefix=...)\<close> and \<open>include_router(router, prefix=...)\<close>.\<close>

definition under :: "string \<Rightarrow> route list \<Rightarrow> route list" where
  "under p rs = map (\<lambda>r. r\<lparr>rt_path := Fixed p # rt_path r\<rparr>) rs"

definition health_routes :: "route list" where
  "health_routes = [plainly ''GET'' [Fixed ''health''] Health]"

definition auth_routes :: "route list" where
  "auth_routes = under ''auth''
     [\<lparr>rt_method = ''GET'', rt_path = [Fixed ''login'', Param], rt_endpoint = (\<lambda>ps. Login (hd ps))\<rparr>,
      \<lparr>rt_method = ''GET'', rt_path = [Fixed ''callback'', Param], rt_endpoint = (\<lambda>ps. Callback (hd ps))\<rparr>,
      plainly ''POST'' [Fixed ''refresh''] Refresh_session,
      plainly ''POST'' [Fixed ''logout''] Logout,
      plainly ''GET'' [Fixed ''me''] Me]"

definition credentials_routes :: "route list" where
  "credentials_routes = under ''credentials''
     [plainly ''POST'' [] Register_key, plainly ''DELETE'' [] Remove_key, plainly ''GET'' [Fixed ''status''] Key_status]"

definition config_routes :: "route list" where
  "config_routes = under ''config'' [plainly ''GET'' [] Read_config, plainly ''PATCH'' [] Patch_config]"

definition assets_routes :: "route list" where
  "assets_routes = under ''assets''
     [plainly ''GET'' [] List_assets,
      \<lparr>rt_method = ''PUT'', rt_path = [Param], rt_endpoint = (\<lambda>ps. Put_asset (hd ps))\<rparr>,
      \<lparr>rt_method = ''DELETE'', rt_path = [Param], rt_endpoint = (\<lambda>ps. Delete_asset (hd ps))\<rparr>]"

definition portfolio_routes :: "route list" where
  "portfolio_routes = under ''portfolio''
     [plainly ''GET'' [] Read_portfolio, plainly ''POST'' [Fixed ''refresh''] Refresh_portfolio]"

definition invest_routes :: "route list" where
  "invest_routes = under ''invest'' [plainly ''POST'' [] Invest_route]"

definition proposal_routes :: "route list" where
  "proposal_routes =
     [plainly ''POST'' [Fixed ''rebalance''] Rebalance_route, plainly ''GET'' [Fixed ''proposal''] Read_proposal,
      plainly ''POST'' [Fixed ''proposal'', Fixed ''approve''] Approve_proposal,
      plainly ''DELETE'' [Fixed ''proposal''] Withdraw_proposal]"

definition history_routes :: "route list" where
  "history_routes = [plainly ''GET'' [Fixed ''orders''] Orders_route, plainly ''GET'' [Fixed ''sessions''] Sessions_route]"

definition API_PREFIX :: string where "API_PREFIX = ''api''"

text \<open>\<open>_api\<close>: every router, in order, under the prefix.\<close>

definition api_routes :: "route list" where
  "api_routes = concat (map (under API_PREFIX)
     [health_routes, auth_routes, credentials_routes, config_routes, assets_routes, portfolio_routes, invest_routes,
      proposal_routes, history_routes])"

text \<open>A path against a template: a parameter is one part that is not empty.\<close>

fun match_path :: "segment list \<Rightarrow> string list \<Rightarrow> string list option" where
  "match_path [] [] = Some []"
| "match_path (Fixed s # ss) (p # ps) = (if s = p then match_path ss ps else None)"
| "match_path (Param # ss) (p # ps) = (if p = [] then None else map_option ((#) p) (match_path ss ps))"
| "match_path _ _ = None"

fun find_route :: "route list \<Rightarrow> string \<Rightarrow> string list \<Rightarrow> api_endpoint option" where
  "find_route [] m ps = None"
| "find_route (r # rs) m ps =
     (case match_path (rt_path r) ps of
        Some xs \<Rightarrow> if rt_method r = m then Some (rt_endpoint r xs) else find_route rs m ps
      | None \<Rightarrow> find_route rs m ps)"

section \<open>The application\<close>

text \<open>
  What \<open>create_app\<close> is given, and what the libraries bring: the documentation pages by method and path,
  how a value is written and read, and what the library says of a field it refuses.
\<close>

record server =
  sv_context :: app_context
  sv_files :: "((string list \<Rightarrow> bool) \<times> string list) option"
  sv_page :: "string \<Rightarrow> string \<Rightarrow> bool"
  sv_texts :: texts
  sv_coercions :: coercions
  sv_finding :: "string \<Rightarrow> unit finding"

record web_request =
  wr_method :: string
  wr_path :: string
  wr_query :: "string dict"
  wr_authorization :: "string option"
  wr_cookies :: "string dict"
  wr_body :: body

datatype destination = To api_endpoint | Web served | Library_page | Wrong_method | Other_slash | Nowhere

text \<open>The path without its slashes at the end, which the library redirects to when it is a route's.\<close>

definition without_slashes :: "string \<Rightarrow> string" where
  "without_slashes path = rev (dropWhile (\<lambda>c. c = CHR ''/'') (rev path))"

definition has_route :: "string \<Rightarrow> bool" where
  "has_route path \<longleftrightarrow> list_ex (\<lambda>r. match_path (rt_path r) (split_on CHR ''/'' (drop 1 path)) \<noteq> None) api_routes"

definition dispatch :: "server \<Rightarrow> string \<Rightarrow> string \<Rightarrow> destination" where
  "dispatch sv m path =
     (if sv_page sv m path then Library_page
      else case find_route api_routes m (split_on CHR ''/'' (drop 1 path)) of
        Some ep \<Rightarrow> To ep
      | None \<Rightarrow>
          (case sv_files sv of
             Some (is_file, dir) \<Rightarrow> Web (mount_application is_file dir m (drop 1 path))
           | None \<Rightarrow> if has_route path then Wrong_method
                     else if without_slashes path \<noteq> path \<and> has_route (without_slashes path) then Other_slash
                     else Nowhere))"

section \<open>Answers\<close>

record set_cookie =
  sk_name :: string
  sk_value :: string
  sk_max_age :: int
  sk_path :: string
  sk_httponly :: bool
  sk_secure :: bool
  sk_samesite :: string

datatype cookie_change = Set_cookie set_cookie | Delete_cookie string string

datatype content = Empty | Json json | File "string list" string | Redirect string | Page | Server_error

record response =
  rs_status :: int
  rs_content :: content
  rs_headers :: "(string \<times> string) list"
  rs_cookies :: "cookie_change list"

definition answer_of :: "int \<Rightarrow> json \<Rightarrow> response" where
  "answer_of code j = \<lparr>rs_status = code, rs_content = Json j, rs_headers = [], rs_cookies = []\<rparr>"

definition empty_answer :: "int \<Rightarrow> response" where
  "empty_answer code = \<lparr>rs_status = code, rs_content = Empty, rs_headers = [], rs_cookies = []\<rparr>"

definition detail_answer :: "int \<Rightarrow> string \<Rightarrow> (string \<times> json) list \<Rightarrow> response" where
  "detail_answer code why extra = answer_of code (JObj ((''detail'', JStr why) # extra))"

text \<open>The answer to an exception that leaves a route: those of the API as they say, any other a 500 without a reason.\<close>

definition findings_json :: "(string list \<times> string \<times> string) list \<Rightarrow> json" where
  "findings_json fs = JList (map (\<lambda>(loc, msg, kind).
     JObj [(''loc'', JList (map JStr loc)), (''msg'', JStr msg), (''type'', JStr kind)]) fs)"

definition detail_json :: "server \<Rightarrow> detail \<Rightarrow> json" where
  "detail_json sv d =
     (case d of
        Detail why \<Rightarrow> JStr why
      | Key_detail why missing forbidden unnecessary \<Rightarrow> JObj
          [(''rejection'', JStr why), (''missing'', JList (map JStr missing)), (''forbidden'', JList (map JStr forbidden)),
           (''unnecessary'', JList (map JStr unnecessary))]
      | Field_detail names \<Rightarrow> findings_json (snd (validation_error (map (sv_finding sv) names))))"

definition error_answer :: "server \<Rightarrow> exn \<Rightarrow> response" where
  "error_answer sv exc =
     (case exc of
        HTTPException code d \<Rightarrow>
          (answer_of code (JObj [(''detail'', detail_json sv d)]))
            \<lparr>rs_headers := (if exc = unauthenticated then [(''WWW-Authenticate'', ''Bearer'')] else [])\<rparr>
      | _ \<Rightarrow> \<lparr>rs_status = 500, rs_content = Server_error, rs_headers = [], rs_cookies = []\<rparr>)"

text \<open>\<open>_proposal_json\<close>, and a refusal that is returned.\<close>

definition STALE_VERSION :: string where
  "STALE_VERSION = ''that is not the live version; read the proposal again''"

definition reply_answer :: "texts \<Rightarrow> ('a \<Rightarrow> response) \<Rightarrow> 'a reply \<Rightarrow> response" where
  "reply_answer tx f r =
     (case r of
        Answer a \<Rightarrow> f a
      | Refusal code why \<Rightarrow> detail_answer code why []
      | Stale s \<Rightarrow> detail_answer 409 STALE_VERSION [(''proposal'', proposal_json tx s)]
      | Superseded p ms \<Rightarrow> detail_answer 409 ''the plan changed since it was proposed; nothing was sent''
          [(''proposal'', optional_json (proposal_json tx) p), (''messages'', JList (map JStr ms))])"

section \<open>The cookies of a session\<close>

definition LOGIN_COOKIE_PATH :: string where "LOGIN_COOKIE_PATH = ''/api/auth/callback''"
definition REFRESH_COOKIE_PATH :: string where "REFRESH_COOKIE_PATH = ''/api/auth''"

definition session_set :: "app_config \<Rightarrow> session_cookies \<Rightarrow> cookie_change list" where
  "session_set cf s =
     [Set_cookie \<lparr>sk_name = ACCESS_COOKIE, sk_value = se_access s, sk_max_age = se_access_max_age s, sk_path = ''/'',
        sk_httponly = True, sk_secure = cf_cookie_secure cf, sk_samesite = ''lax''\<rparr>,
      Set_cookie \<lparr>sk_name = REFRESH_COOKIE, sk_value = se_refresh s, sk_max_age = se_refresh_max_age s,
        sk_path = REFRESH_COOKIE_PATH, sk_httponly = True, sk_secure = cf_cookie_secure cf, sk_samesite = ''strict''\<rparr>]"

definition session_ended :: "cookie_change list" where
  "session_ended = [Delete_cookie ACCESS_COOKIE ''/'', Delete_cookie REFRESH_COOKIE REFRESH_COOKIE_PATH]"

definition redirect :: "string \<Rightarrow> cookie_change list \<Rightarrow> response" where
  "redirect location cookies = \<lparr>rs_status = 302, rs_content = Redirect location, rs_headers = [], rs_cookies = cookies\<rparr>"

definition login_answer :: "app_config \<Rightarrow> string \<times> string \<Rightarrow> response" where
  "login_answer cf = (\<lambda>(url, cookie). redirect url
     [Set_cookie \<lparr>sk_name = LOGIN_COOKIE, sk_value = cookie, sk_max_age = whole_seconds LOGIN_STATE_TTL,
        sk_path = LOGIN_COOKIE_PATH, sk_httponly = True, sk_secure = cf_cookie_secure cf, sk_samesite = ''lax''\<rparr>])"

definition login_refused :: "string \<Rightarrow> response" where
  "login_refused why = redirect (''/login?error='' @ quote ''/'' why) [Delete_cookie LOGIN_COOKIE LOGIN_COOKIE_PATH]"

definition callback_answer :: "app_config \<Rightarrow> callback_reply \<Rightarrow> response" where
  "callback_answer cf r =
     (case r of
        Login_refused why \<Rightarrow> login_refused why
      | Signed_in s \<Rightarrow> redirect ''/'' (session_set cf s @ [Delete_cookie LOGIN_COOKIE LOGIN_COOKIE_PATH]))"

definition signed_out :: "int \<Rightarrow> string option \<Rightarrow> response" where
  "signed_out code why =
     (case why of None \<Rightarrow> empty_answer code | Some d \<Rightarrow> detail_answer code d [])\<lparr>rs_cookies := session_ended\<rparr>"

definition refresh_answer :: "texts \<Rightarrow> app_config \<Rightarrow> refresh_reply \<Rightarrow> response" where
  "refresh_answer tx cf r =
     (case r of
        Signed_out code why \<Rightarrow> signed_out code (Some why)
      | Refreshed pair s \<Rightarrow> (answer_of 200 (token_pair_json tx pair))\<lparr>rs_cookies := session_set cf s\<rparr>)"

section \<open>A request\<close>

definition public_endpoint :: "api_endpoint \<Rightarrow> bool" where
  "public_endpoint ep \<longleftrightarrow> (case ep of Health \<Rightarrow> True | Login p \<Rightarrow> True | Callback p \<Rightarrow> True | Refresh_session \<Rightarrow> True
     | Logout \<Rightarrow> True | _ \<Rightarrow> False)"

text \<open>The routes that take a body: one that is not JSON is refused before anything else.\<close>

definition takes_body :: "api_endpoint \<Rightarrow> bool" where
  "takes_body ep \<longleftrightarrow> (case ep of Refresh_session \<Rightarrow> True | Logout \<Rightarrow> True | Register_key \<Rightarrow> True | Patch_config \<Rightarrow> True
     | Put_asset a \<Rightarrow> True | Approve_proposal \<Rightarrow> True | _ \<Rightarrow> False)"

definition http_of :: "web_request \<Rightarrow> string option \<Rightarrow> http_request" where
  "http_of wr token =
     \<lparr>rq_authorization = wr_authorization wr, rq_cookies = wr_cookies wr, rq_refresh_token = token\<rparr>"

text \<open>What the library answers when a value has the wrong type: the caller is known first.\<close>

definition with_input :: "env \<Rightarrow> app_context \<Rightarrow> http_request \<Rightarrow> 'v result \<Rightarrow> ('v \<Rightarrow> 'a io) \<Rightarrow> 'a io" where
  "with_input e cx rq input f =
     (case input of Inl exc \<Rightarrow> bind (current_user e cx rq) (\<lambda>_. throw exc) | Inr v \<Rightarrow> f v)"

text \<open>A query parameter with a default, one that may be left out, and one that may not.\<close>

definition query_or :: "string dict \<Rightarrow> string \<Rightarrow> 'a \<Rightarrow> (string \<Rightarrow> 'a option) \<Rightarrow> 'a result" where
  "query_or q name otherwise f =
     (case map_of q name of None \<Rightarrow> Inr otherwise | Some s \<Rightarrow> (case f s of None \<Rightarrow> Inl (refused_field name) | Some v \<Rightarrow> Inr v))"

definition query_required :: "string dict \<Rightarrow> string \<Rightarrow> (string \<Rightarrow> 'a option) \<Rightarrow> 'a result" where
  "query_required q name f =
     (case Option.bind (map_of q name) f of None \<Rightarrow> Inl (refused_field name) | Some v \<Rightarrow> Inr v)"

definition page_of :: "web_request \<Rightarrow> coercions \<Rightarrow> string \<Rightarrow> (nat \<times> uuid option) result" where
  "page_of wr co cursor =
     rbind (query_or (wr_query wr) ''limit'' 50 (co_query_int co)) (\<lambda>limit.
     rbind (query_or (wr_query wr) cursor None (\<lambda>s. map_option Some (co_query_uuid co s))) (\<lambda>u. Inr (nat limit, u)))"

definition mapped :: "('a \<Rightarrow> 'b) \<Rightarrow> 'a io \<Rightarrow> 'b io" where
  "mapped f m = bind m (\<lambda>a. ret (f a))"

text \<open>What each route runs, and the answer made of what it returns.\<close>

fun run_endpoint :: "server \<Rightarrow> env \<Rightarrow> web_request \<Rightarrow> api_endpoint \<Rightarrow> response io" where
  "run_endpoint sv e wr Health = ret (answer_of 200 (JObj [(''status'', JStr ''ok'')]))"
| "run_endpoint sv e wr (Login p) = mapped (login_answer (cx_config (sv_context sv))) (login e (sv_context sv) p)"
| "run_endpoint sv e wr (Callback p) =
     mapped (callback_answer (cx_config (sv_context sv)))
       (callback e (sv_context sv) (http_of wr None) p (map_of (wr_query wr) ''code'') (map_of (wr_query wr) ''state'')
         (map_of (wr_query wr) ''error''))"
| "run_endpoint sv e wr Refresh_session =
     bind (lift_result (refresh_in_of (wr_body wr))) (\<lambda>token.
       mapped (refresh_answer (sv_texts sv) (cx_config (sv_context sv))) (refresh_route e (sv_context sv) (http_of wr token)))"
| "run_endpoint sv e wr Logout =
     bind (lift_result (refresh_in_of (wr_body wr))) (\<lambda>token.
       mapped (\<lambda>_. signed_out 204 None) (logout e (sv_context sv) (http_of wr token)))"
| "run_endpoint sv e wr Me = mapped (\<lambda>u. answer_of 200 (me_json (sv_texts sv) u)) (me e (sv_context sv) (http_of wr None))"
| "run_endpoint sv e wr Register_key =
     with_input e (sv_context sv) (http_of wr None) (credentials_in_of (wr_body wr)) (\<lambda>(key, secret).
       mapped (\<lambda>k. answer_of 201 (key_accepted_json (sv_texts sv) k)) (register e (sv_context sv) (http_of wr None) key secret))"
| "run_endpoint sv e wr Remove_key = mapped (\<lambda>_. empty_answer 204) (remove_key e (sv_context sv) (http_of wr None))"
| "run_endpoint sv e wr Key_status =
     mapped (\<lambda>s. answer_of 200 (credential_status_json (sv_texts sv) s)) (key_status e (sv_context sv) (http_of wr None))"
| "run_endpoint sv e wr Read_config =
     mapped (\<lambda>s. answer_of 200 (config_json (sv_texts sv) s)) (read_config e (sv_context sv) (http_of wr None))"
| "run_endpoint sv e wr Patch_config =
     with_input e (sv_context sv) (http_of wr None) (config_patch_of (sv_coercions sv) (wr_body wr)) (\<lambda>p.
       mapped (\<lambda>s. answer_of 200 (config_json (sv_texts sv) s)) (patch_config e (sv_context sv) (http_of wr None) p))"
| "run_endpoint sv e wr List_assets =
     mapped (\<lambda>a. answer_of 200 (assets_out_json (sv_texts sv) a)) (list_assets_route e (sv_context sv) (http_of wr None))"
| "run_endpoint sv e wr (Put_asset asset) =
     with_input e (sv_context sv) (http_of wr None) (asset_in_of (sv_coercions sv) (wr_body wr)) (\<lambda>pct.
       mapped (\<lambda>a. answer_of 200 (asset_out_json (sv_texts sv) a)) (put_asset e (sv_context sv) (http_of wr None) asset pct))"
| "run_endpoint sv e wr (Delete_asset asset) =
     mapped (\<lambda>_. empty_answer 204) (delete_asset_route e (sv_context sv) (http_of wr None) asset)"
| "run_endpoint sv e wr Read_portfolio =
     mapped (\<lambda>p. answer_of 200 (portfolio_json (sv_texts sv) p)) (read_portfolio_route e (sv_context sv) (http_of wr None))"
| "run_endpoint sv e wr Refresh_portfolio =
     mapped (\<lambda>p. answer_of 200 (portfolio_json (sv_texts sv) p)) (refresh_portfolio e (sv_context sv) (http_of wr None))"
| "run_endpoint sv e wr Invest_route =
     with_input e (sv_context sv) (http_of wr None) (query_or (wr_query wr) ''preview'' False (co_query_bool (sv_coercions sv))) (\<lambda>p.
       mapped (reply_answer (sv_texts sv) (\<lambda>r. answer_of 200 (invest_json r))) (invest_now e (sv_context sv) (http_of wr None) p))"
| "run_endpoint sv e wr Rebalance_route =
     mapped (reply_answer (sv_texts sv) (\<lambda>r. answer_of 200 (rebalance_json (sv_texts sv) r)))
       (rebalance_route e (sv_context sv) (http_of wr None))"
| "run_endpoint sv e wr Read_proposal =
     mapped (\<lambda>s. answer_of 200 (proposal_json (sv_texts sv) s)) (read_proposal e (sv_context sv) (http_of wr None))"
| "run_endpoint sv e wr Approve_proposal =
     with_input e (sv_context sv) (http_of wr None) (approve_in_of (sv_coercions sv) (wr_body wr)) (\<lambda>v.
       mapped (reply_answer (sv_texts sv) (\<lambda>r. answer_of 200 (rebalance_json (sv_texts sv) r)))
         (approve_proposal e (sv_context sv) (http_of wr None) v))"
| "run_endpoint sv e wr Withdraw_proposal =
     with_input e (sv_context sv) (http_of wr None) (query_required (wr_query wr) ''version'' (co_query_int (sv_coercions sv))) (\<lambda>v.
       mapped (reply_answer (sv_texts sv) (\<lambda>_. empty_answer 204)) (withdraw_proposal e (sv_context sv) (http_of wr None) v))"
| "run_endpoint sv e wr Orders_route =
     with_input e (sv_context sv) (http_of wr None) (page_of wr (sv_coercions sv) ''session'') (\<lambda>(limit, session).
       mapped (\<lambda>rs. answer_of 200 (JList (map (order_json (sv_texts sv)) rs)))
         (orders_route e (sv_context sv) (http_of wr None) limit session))"
| "run_endpoint sv e wr Sessions_route =
     with_input e (sv_context sv) (http_of wr None) (page_of wr (sv_coercions sv) ''before'') (\<lambda>(limit, before).
       mapped (\<lambda>rs. answer_of 200 (JList (map (evaluation_json (sv_texts sv)) rs)))
         (sessions_route e (sv_context sv) (http_of wr None) limit before))"

definition endpoint_answer :: "server \<Rightarrow> env \<Rightarrow> web_request \<Rightarrow> api_endpoint \<Rightarrow> response io" where
  "endpoint_answer sv e wr ep =
     (if takes_body ep \<and> wr_body wr = Not_json then throw (refused_field ''body'') else run_endpoint sv e wr ep)"

text \<open>What a file of the web build is served with (\<open>_served\<close>).\<close>

definition CONTENT_SECURITY_POLICY :: string where
  "CONTENT_SECURITY_POLICY =
     ''default-src 'self'; script-src 'self'; style-src 'self' 'unsafe-inline'; img-src 'self' data:; '' @
     ''connect-src 'self'; worker-src 'self'; manifest-src 'self'; '' @
     ''frame-ancestors 'none'; base-uri 'self'; form-action 'self'' @ [CHR 0x27]"

fun served_answer :: "served \<Rightarrow> response" where
  "served_answer (Served path cache) = \<lparr>rs_status = 200, rs_content = File path cache,
     rs_headers = [(''Cache-Control'', cache), (''Content-Security-Policy'', CONTENT_SECURITY_POLICY)], rs_cookies = []\<rparr>"
| "served_answer No_such_route = detail_answer 404 ''Not Found'' []"
| "served_answer Method_not_allowed = detail_answer 405 ''Method Not Allowed'' []"

text \<open>A request, to its answer and the world after it.\<close>

definition handle :: "server \<Rightarrow> env \<Rightarrow> web_request \<Rightarrow> world \<Rightarrow> response \<times> world" where
  "handle sv e wr w =
     (case dispatch sv (wr_method wr) (wr_path wr) of
        To ep \<Rightarrow> (case endpoint_answer sv e wr ep w of (Inr r, w') \<Rightarrow> (r, w') | (Inl exc, w') \<Rightarrow> (error_answer sv exc, w'))
      | Web s \<Rightarrow> (served_answer s, w)
      | Library_page \<Rightarrow> (\<lparr>rs_status = 200, rs_content = Page, rs_headers = [], rs_cookies = []\<rparr>, w)
      | Wrong_method \<Rightarrow> (detail_answer 405 ''Method Not Allowed'' [], w)
      | Other_slash \<Rightarrow> (\<lparr>rs_status = 307, rs_content = Redirect (without_slashes (wr_path wr)), rs_headers = [], rs_cookies = []\<rparr>, w)
      | Nowhere \<Rightarrow> (detail_answer 404 ''Not Found'' [], w))"

end
