(* ===== verification/Server_Safety.thy ===== *)
theory Server_Safety
  imports Server Authorisation Targets_Safety Settings_Safety
begin

text \<open>
  What the API promises over HTTP: which address reaches which route, that nobody acts without an account,
  what a refused approval shows, how cookies are set, and that requests and the scheduler together do
  nothing but steps of the service, so that its invariants hold of the deployed process.
\<close>

section \<open>Every route has one address\<close>

fun address_of :: "api_endpoint \<Rightarrow> string \<times> string list" where
  "address_of Health = (''GET'', [''api'', ''health''])"
| "address_of (Login p) = (''GET'', [''api'', ''auth'', ''login'', p])"
| "address_of (Callback p) = (''GET'', [''api'', ''auth'', ''callback'', p])"
| "address_of Refresh_session = (''POST'', [''api'', ''auth'', ''refresh''])"
| "address_of Logout = (''POST'', [''api'', ''auth'', ''logout''])"
| "address_of Me = (''GET'', [''api'', ''auth'', ''me''])"
| "address_of Register_key = (''POST'', [''api'', ''credentials''])"
| "address_of Remove_key = (''DELETE'', [''api'', ''credentials''])"
| "address_of Key_status = (''GET'', [''api'', ''credentials'', ''status''])"
| "address_of Read_config = (''GET'', [''api'', ''config''])"
| "address_of Patch_config = (''PATCH'', [''api'', ''config''])"
| "address_of List_assets = (''GET'', [''api'', ''assets''])"
| "address_of (Put_asset a) = (''PUT'', [''api'', ''assets'', a])"
| "address_of (Delete_asset a) = (''DELETE'', [''api'', ''assets'', a])"
| "address_of Read_portfolio = (''GET'', [''api'', ''portfolio''])"
| "address_of Refresh_portfolio = (''POST'', [''api'', ''portfolio'', ''refresh''])"
| "address_of Invest_route = (''POST'', [''api'', ''invest''])"
| "address_of Rebalance_route = (''POST'', [''api'', ''rebalance''])"
| "address_of Read_proposal = (''GET'', [''api'', ''proposal''])"
| "address_of Approve_proposal = (''POST'', [''api'', ''proposal'', ''approve''])"
| "address_of Withdraw_proposal = (''DELETE'', [''api'', ''proposal''])"
| "address_of Orders_route = (''GET'', [''api'', ''orders''])"
| "address_of Sessions_route = (''GET'', [''api'', ''sessions''])"

text \<open>The value of the parameter of a path, if it has one, has no slash and is not empty.\<close>

definition part_ok :: "string \<Rightarrow> bool" where
  "part_ok p \<longleftrightarrow> p \<noteq> [] \<and> CHR ''/'' \<notin> set p"

lemmas router_defs = api_routes_def under_def health_routes_def auth_routes_def credentials_routes_def config_routes_def
  assets_routes_def portfolio_routes_def invest_routes_def proposal_routes_def history_routes_def API_PREFIX_def

lemma find_route_SomeD:
  "find_route rs m ps = Some ep \<Longrightarrow> \<exists>r \<in> set rs. rt_method r = m \<and> (\<exists>xs. match_path (rt_path r) ps = Some xs \<and> ep = rt_endpoint r xs)"
  by (induction rs) (auto split: option.splits if_splits)

lemma match_path_Some:
  "match_path [] ps = Some xs \<longleftrightarrow> ps = [] \<and> xs = []"
  "match_path (Fixed s # ss) ps = Some xs \<longleftrightarrow> (\<exists>qs. ps = s # qs \<and> match_path ss qs = Some xs)"
  "match_path (Param # ss) ps = Some xs \<longleftrightarrow> (\<exists>p qs ys. ps = p # qs \<and> p \<noteq> [] \<and> xs = p # ys \<and> match_path ss qs = Some ys)"
  by (cases ps; auto)+

lemma found_address:
  assumes "find_route api_routes m ps = Some ep"
  shows "(m, ps) = address_of ep \<and> list_all (\<lambda>p. p \<noteq> []) ps"
proof -
  obtain r xs where "r \<in> set api_routes" "rt_method r = m" "match_path (rt_path r) ps = Some xs" "ep = rt_endpoint r xs"
    using find_route_SomeD [OF assms] by blast
  then show ?thesis by (auto simp: router_defs match_path_Some)
qed

lemma address_found: "list_all (\<lambda>p. p \<noteq> []) (snd (address_of ep)) \<Longrightarrow> find_route api_routes (fst (address_of ep)) (snd (address_of ep)) = Some ep"
  by (cases ep) (simp_all add: router_defs)

lemma split_on_no_sep: "p \<in> set (split_on c s) \<Longrightarrow> c \<notin> set p"
  by (induction s arbitrary: p) (auto split: if_splits list.splits)

lemma join_split_on: "join_on c (split_on c s) = s"
proof (induction s)
  case (Cons d s)
  have "split_on c s \<noteq> []" by (cases s) (auto split: list.splits)
  then show ?case using Cons by (cases "split_on c s" rule: remdups_adj.cases) (auto split: list.splits)
qed simp

text \<open>
  C38: every route has one address and every address one route. A request that is not for a page of the documentation
  reaches a route exactly when its method is the route's and its path is the route's path, with
  one part for a parameter; no route hides another, whatever the order they were included in.
\<close>

theorem one_address_each:
  assumes "\<not> sv_page sv m (CHR ''/'' # path)"
  shows "dispatch sv m (CHR ''/'' # path) = To ep \<longleftrightarrow>
    m = fst (address_of ep) \<and> path = join_on CHR ''/'' (snd (address_of ep)) \<and> list_all part_ok (snd (address_of ep))"
    (is "?reached \<longleftrightarrow> ?addressed")
proof -
  have reached: "?reached \<longleftrightarrow> find_route api_routes m (split_on CHR ''/'' path) = Some ep"
    using assms by (auto simp: dispatch_def split: option.splits prod.splits)
  show ?thesis
  proof
    assume ?reached
    then have f: "find_route api_routes m (split_on CHR ''/'' path) = Some ep" by (simp add: reached)
    from found_address [OF this] have a: "fst (address_of ep) = m" "snd (address_of ep) = split_on CHR ''/'' path"
      and "list_all (\<lambda>p. p \<noteq> []) (split_on CHR ''/'' path)" by (metis fst_conv, metis snd_conv, simp)
    then have "list_all part_ok (split_on CHR ''/'' path)" by (auto simp: list_all_iff part_ok_def dest: split_on_no_sep)
    then show ?addressed using a by (simp add: join_split_on)
  next
    assume addressed: ?addressed
    have "snd (address_of ep) \<noteq> []" by (cases ep) simp_all
    then have "split_on CHR ''/'' path = snd (address_of ep)"
      using addressed by (auto simp: part_ok_def list_all_iff intro!: split_on_join)
    moreover have "list_all (\<lambda>p. p \<noteq> []) (snd (address_of ep))" using addressed by (auto simp: list_all_iff part_ok_def)
    ultimately show ?reached unfolding reached using addressed address_found [of ep] by simp
  qed
qed

section \<open>A request is a step of the service\<close>

lemma mapped_step: "mapped f m w = (r, w') \<Longrightarrow> (\<And>x. m w = (x, w') \<Longrightarrow> P) \<Longrightarrow> P"
  by (auto simp: mapped_def bind_def ret_def split: prod.splits sum.splits)

lemma with_input_step:
  "with_input e cx rq input f w = (r, w') \<Longrightarrow> (\<And>x. me e cx rq w = (x, w') \<Longrightarrow> P) \<Longrightarrow>
     (\<And>v. input = Inr v \<Longrightarrow> f v w = (r, w') \<Longrightarrow> P) \<Longrightarrow> P"
  by (auto simp: with_input_def me_def bind_def throw_def split: prod.splits sum.splits)

lemma lifted_step:
  "bind (lift_result input) f w = (r, w') \<Longrightarrow> (w' = w \<Longrightarrow> P) \<Longrightarrow> (\<And>v. input = Inr v \<Longrightarrow> f v w = (r, w') \<Longrightarrow> P) \<Longrightarrow> P"
  by (auto simp: bind_def lift_result_def split: prod.splits sum.splits)

lemma run_endpoint_step:
  "run_endpoint sv e wr ep w = (r, w') \<Longrightarrow> service_step config w w' \<or> w' = w"
  by (cases ep)
    (auto simp: ret_def elim!: mapped_step with_input_step lifted_step intro: service_step.intros split: prod.splits)

lemma handle_step:
  assumes "handle sv e wr w = (r, w')"
  shows "service_step config w w' \<or> w' = w"
proof (cases "\<exists>ep. dispatch sv (wr_method wr) (wr_path wr) = To ep")
  case True
  then obtain ep where ep: "dispatch sv (wr_method wr) (wr_path wr) = To ep" by blast
  obtain x where "endpoint_answer sv e wr ep w = (x, w')"
    using assms by (auto simp: handle_def ep split: prod.splits sum.splits)
  then show ?thesis
    using run_endpoint_step [of sv e wr ep w x w' config] by (auto simp: endpoint_answer_def throw_def split: if_splits)
next
  case False
  then show ?thesis using assms by (auto simp: handle_def split: destination.splits)
qed

section \<open>The deployed process\<close>

text \<open>The process as it is deployed: it answers requests over HTTP, and the scheduler's thread starts and goes around.\<close>

inductive deployed_step :: "server \<Rightarrow> scheduler_config \<Rightarrow> world \<Rightarrow> world \<Rightarrow> bool" for sv config where
  a_request: "handle sv e wr w = (r, w') \<Longrightarrow> deployed_step sv config w w'"
| a_pass: "loop_pass e config w = (r1, w') \<Longrightarrow> deployed_step sv config w w'"
| a_start: "start e config w = (r2, w') \<Longrightarrow> deployed_step sv config w w'"

abbreviation deployed_steps :: "server \<Rightarrow> scheduler_config \<Rightarrow> world \<Rightarrow> world \<Rightarrow> bool" where
  "deployed_steps sv config \<equiv> (deployed_step sv config)\<^sup>*\<^sup>*"

lemma deployed_step_service: "deployed_step sv config w w' \<Longrightarrow> service_steps config w w'"
  by (induction rule: deployed_step.induct) (auto dest!: handle_step [where config = config] intro: service_step.intros)

lemma deployed_steps_service: "deployed_steps sv config w w' \<Longrightarrow> service_steps config w w'"
  by (induction rule: rtranclp_induct) (auto dest: deployed_step_service)

text \<open>
  C5: what is promised of the service holds of the process as it is deployed. However requests, whatever
  their method, path, headers and bodies, come between the passes of the scheduler: every order that
  left was in the committed ledger before, under an identifier used once; every order of a
  rebalance was authorised when it left; the targets of every user sum to 100 at most; and every user's settings
  are within their bounds.
\<close>

theorem deployed_safe:
  assumes "deployed_steps sv config w w'" "w_trace w = []" "distinct (ledger_ids (t_orders (w_db w)))"
    and "targets_ok (t_assets (w_db w))" "settings_typed (w_db w)"
  shows "distinct (sent_ids (w_trace w')) \<and> list_all written_down (sent (w_trace w')) \<and> all_authorised (w_trace w') \<and>
    targets_ok (t_assets (w_db w')) \<and> settings_typed (w_db w') \<and> ledger_step (t_orders (w_db w)) (t_orders (w_db w'))"
proof -
  note run = deployed_steps_service [OF assms(1)]
  have "recorded.holds w" "authorised.holds w" "targets.holds w" "typed.holds w"
    using assms(2-5) by (simp_all add: recorded.holds_def recorded_def authorised.holds_def all_authorised_def
      targets.holds_def typed.holds_def sent_ids_def sent_def)
  note kept = recorded.service_steps_hold [OF run this(1)] authorised.service_steps_hold [OF run this(2)]
    targets.service_steps_hold [OF run this(3)] typed.service_steps_hold [OF run this(4)] ledger.service_steps_hold [OF run]
  then show ?thesis
    by (simp add: recorded.holds_def recorded_def authorised.holds_def targets.holds_def typed.holds_def ledger.holds_def)
qed

section \<open>Nobody acts without an account\<close>

definition untouched :: "world \<Rightarrow> world \<Rightarrow> bool" where
  "untouched w w' \<longleftrightarrow> w_trace w' = w_trace w \<and> (\<exists>t. w_db w' = (w_db w)\<lparr>db_now := t\<rparr>)"

lemma same_db [simp]: "\<exists>t. (d :: db) = d\<lparr>db_now := t\<rparr>"
  by (rule exI [of _ "db_now d"]) simp

lemma untouched_refl [simp]: "untouched w w"
  by (simp add: untouched_def)

lemma untouched_trans: "untouched w w1 \<Longrightarrow> untouched w1 w2 \<Longrightarrow> untouched w w2"
  by (auto simp: untouched_def)

lemma turned_away_mapped: "turned_away exc w (m w) \<Longrightarrow> turned_away exc w (mapped f m w)"
  unfolding mapped_def by (rule turned_away_bind)

lemma turned_away_input:
  "refusal_of cx rq (env_clock e (w_readings w)) (w_db w) = Some exc \<Longrightarrow> (\<And>v. turned_away exc w (f v w)) \<Longrightarrow>
     turned_away exc w (with_input e cx rq input f w)"
  by (auto simp: with_input_def intro: turned_away_bind current_user_refused split: sum.splits)

lemma run_endpoint_refused:
  assumes "refusal_of (sv_context sv) (http_of wr None) (env_clock e (w_readings w)) (w_db w) = Some exc" "\<not> public_endpoint ep"
  shows "turned_away exc w (run_endpoint sv e wr ep w)"
  using assms(2) account_routes_refused [OF assms(1)]
  by (cases ep) (auto simp: public_endpoint_def intro!: turned_away_mapped turned_away_input [OF assms(1)] split: prod.splits)

lemma refusal_status:
  assumes "refusal_of cx rq t d = Some exc"
  shows "exc \<in> {unauthenticated, HTTPException 403 (Detail ''this account is disabled''), KeyError ''exp''}"
  using assms
  by (auto simp: refusal_of_def unauthenticated_def verify_def decode_def result_simps get_item_def split: option.splits if_splits sum.splits exn.splits)


section \<open>What a refused approval shows\<close>

lemma current_user_untouched:
  assumes "fst (current_user e cx rq w) = Inr user"
  obtains w1 where "current_user e cx rq w = (Inr user, w1)" "untouched w w1"
proof -
  obtain w1 where w1: "current_user e cx rq w = (Inr user, w1)" using assms by (metis prod.collapse)
  then have "untouched w w1"
    by (auto simp: current_user_def untouched_def bind_def now_def get_user_def transaction_gets throw_def ret_def lift_result_def
        split: option.splits sum.splits exn.splits if_splits)
  with w1 that show ?thesis by blast
qed

text \<open>The live proposal of a user, as it is offered.\<close>

definition live_proposal :: "uuid \<Rightarrow> db \<Rightarrow> proposal_row option" where
  "live_proposal user d = (case map_of (t_proposals d) user of None \<Rightarrow> None | Some row \<Rightarrow> if pr_status row = LIVE then Some row else None)"

lemma live_proposal_now [simp]: "live_proposal user (d\<lparr>db_now := t\<rparr>) = live_proposal user d"
  by (simp add: live_proposal_def)

text \<open>The exception an approval or a withdrawal of a version is refused with, when it is.\<close>

definition version_refusal :: "uuid \<Rightarrow> int \<Rightarrow> db \<Rightarrow> exn option" where
  "version_refusal user version d =
     (case live_proposal user d of
        None \<Rightarrow> Some NoProposal
      | Some row \<Rightarrow> if pr_version row = version then None else Some (StaleVersion (proposal_of row)))"

lemma approve_refused:
  assumes "version_refusal user version (w_db w) = Some exc"
  shows "\<exists>w'. approve e public user version w = (Inl exc, w') \<and> untouched w w'"
  using assms
  by (auto simp: version_refusal_def live_proposal_def approve_def approve_guard_def get_live_proposal_def get_proposal_def
      transaction_def session_scope_def act_defs untouched_def split: option.splits if_splits)

lemma withdraw_refused:
  assumes "version_refusal user version (w_db w) = Some exc"
  shows "\<exists>w'. withdraw e user version w = ((case exc of NoProposal \<Rightarrow> Inr False | _ \<Rightarrow> Inl exc), w') \<and> untouched w w'"
  using assms
  by (auto simp: version_refusal_def live_proposal_def withdraw_def withdraw_tx_def get_proposal_def
      transaction_def session_scope_def act_defs untouched_def split: option.splits if_splits)

lemma untouched_refusal: "untouched w w' \<Longrightarrow> version_refusal user version (w_db w') = version_refusal user version (w_db w)"
  by (auto simp: untouched_def version_refusal_def)

text \<open>
  C24: an approval or a withdrawal that does not name the live version is refused, and shows the live one. When there
  is no live proposal it is answered with a 404; when the live proposal is another version than the one
  read, with a 409 that carries the live proposal, so that it can be read again; and nothing was written, sent or asked.
\<close>

theorem stale_version_shows_live:
  assumes "fst (current_user e (sv_context sv) (http_of wr None) w) = Inr user" "1 \<le> version"
    and "dispatch sv (wr_method wr) (wr_path wr) = To Approve_proposal \<and> approve_in_of (sv_coercions sv) (wr_body wr) = Inr version \<or>
      dispatch sv (wr_method wr) (wr_path wr) = To Withdraw_proposal \<and>
      query_required (wr_query wr) ''version'' (co_query_int (sv_coercions sv)) = Inr version"
    and "version_refusal (u_id user) version (w_db w) = Some exc"
    and "handle sv e wr w = (r, w')"
  shows "untouched w w' \<and> r =
    (case live_proposal (u_id user) (w_db w) of
       None \<Rightarrow> detail_answer 404 ''there is no live proposal'' []
     | Some row \<Rightarrow> detail_answer 409 STALE_VERSION [(''proposal'', proposal_json (sv_texts sv) (proposal_of row))])"
proof -
  obtain w1 where w1: "current_user e (sv_context sv) (http_of wr None) w = (Inr user, w1)" "untouched w w1"
    using current_user_untouched [OF assms(1)] by blast
  have refused: "version_refusal (u_id user) version (w_db w1) = Some exc"
    using assms(4) untouched_refusal [OF w1(2)] by simp
  obtain w2 where w2: "approve e (market e) (u_id user) version w1 = (Inl exc, w2)" "untouched w1 w2"
    using approve_refused [OF refused] by blast
  obtain w3 where w3: "withdraw e (u_id user) version w1 = ((case exc of NoProposal \<Rightarrow> Inr False | _ \<Rightarrow> Inl exc), w3)" "untouched w1 w3"
    using withdraw_refused [OF refused] by blast
  have exc: "case live_proposal (u_id user) (w_db w) of None \<Rightarrow> exc = NoProposal | Some row \<Rightarrow> exc = StaleVersion (proposal_of row)"
    using assms(4) by (auto simp: version_refusal_def split: option.splits if_splits)
  note runs = handle_def endpoint_answer_def with_input_def mapped_def reply_answer_def error_answer_def detail_answer_def
    answer_of_def detail_json_def NO_PROPOSAL_def unauthenticated_def act_defs
  from assms(3) consider (approve) "dispatch sv (wr_method wr) (wr_path wr) = To Approve_proposal"
      "approve_in_of (sv_coercions sv) (wr_body wr) = Inr version"
    | (withdraw) "dispatch sv (wr_method wr) (wr_path wr) = To Withdraw_proposal"
      "query_required (wr_query wr) ''version'' (co_query_int (sv_coercions sv)) = Inr version" by blast
  then show ?thesis
  proof cases
    case approve
    have "wr_body wr \<noteq> Not_json" using approve(2) by (auto simp: approve_in_of_def members_of_def)
    then show ?thesis
      using assms(2,5) approve exc w1(1) w2 untouched_trans [OF w1(2) w2(2)]
      by (auto simp: runs approve_proposal_def evaluation_errors_def split: option.splits)
  next
    case withdraw
    then show ?thesis
      using assms(2,5) exc w1(1) w3 untouched_trans [OF w1(2) w3(2)]
      by (auto simp: runs takes_body_def withdraw_proposal_def split: option.splits)
  qed
qed

section \<open>How cookies are set\<close>

lemma mapped_Inr: "mapped f m w = (Inr r, w') \<Longrightarrow> \<exists>a. r = f a"
  by (auto simp: mapped_def bind_def ret_def split: prod.splits sum.splits)

lemma with_input_Inr: "with_input e cx rq input f w = (Inr r, w') \<Longrightarrow> \<exists>v w1. f v w1 = (Inr r, w')"
  by (auto simp: with_input_def bind_def throw_def split: prod.splits sum.splits)

lemma lifted_Inr: "bind (lift_result input) f w = (Inr r, w') \<Longrightarrow> \<exists>v w1. f v w1 = (Inr r, w')"
  by (auto simp: bind_def lift_result_def split: prod.splits sum.splits)

lemma reply_cookies [simp]: "(\<And>a. rs_cookies (f a) = []) \<Longrightarrow> rs_cookies (reply_answer tx f r) = []"
  by (auto simp: reply_answer_def detail_answer_def answer_of_def split: reply.splits)

lemma plain_cookies [simp]: "rs_cookies (answer_of c j) = []" "rs_cookies (empty_answer c) = []" "rs_cookies (detail_answer c y x) = []"
  "rs_cookies (error_answer sv exc) = []" "rs_cookies (served_answer s) = []"
  by (auto simp: answer_of_def empty_answer_def detail_answer_def error_answer_def split: exn.splits) (cases s; simp add: detail_answer_def answer_of_def)

text \<open>A cookie as it may be set: hidden from scripts, sent over HTTPS only when that is configured, and where it belongs.\<close>

definition guarded_cookie :: "app_config \<Rightarrow> set_cookie \<Rightarrow> bool" where
  "guarded_cookie cf k \<longleftrightarrow> sk_httponly k \<and> sk_secure k = cf_cookie_secure cf \<and>
     (sk_name k, sk_path k, sk_samesite k) \<in>
       {(ACCESS_COOKIE, ''/'', ''lax''), (REFRESH_COOKIE, REFRESH_COOKIE_PATH, ''strict''), (LOGIN_COOKIE, LOGIN_COOKIE_PATH, ''lax'')}"

definition guarded_cookies :: "app_config \<Rightarrow> cookie_change list \<Rightarrow> bool" where
  "guarded_cookies cf cs \<longleftrightarrow> (\<forall>c \<in> set cs. case c of Set_cookie k \<Rightarrow> guarded_cookie cf k | Delete_cookie n p \<Rightarrow> True)"

lemma answers_guarded:
  "guarded_cookies cf []" "guarded_cookies cf (rs_cookies (login_answer cf a))" "guarded_cookies cf (rs_cookies (callback_answer cf b))"
  "guarded_cookies cf (rs_cookies (refresh_answer tx cf c))" "guarded_cookies cf (rs_cookies (signed_out n y))"
  "guarded_cookies cf session_ended"
  by (auto simp: guarded_cookies_def guarded_cookie_def login_answer_def callback_answer_def login_refused_def redirect_def
      refresh_answer_def signed_out_def session_set_def session_ended_def answer_of_def empty_answer_def detail_answer_def
      split: prod.splits callback_reply.splits refresh_reply.splits option.splits)

definition sets_cookies :: "api_endpoint \<Rightarrow> bool" where
  "sets_cookies ep \<longleftrightarrow> (case ep of Login p \<Rightarrow> True | Callback p \<Rightarrow> True | Refresh_session \<Rightarrow> True | _ \<Rightarrow> False)"

definition cookies_well_set :: "app_config \<Rightarrow> api_endpoint \<Rightarrow> response \<Rightarrow> bool" where
  "cookies_well_set cf ep r \<longleftrightarrow> guarded_cookies cf (rs_cookies r) \<and>
     (sets_cookies ep \<or> rs_cookies r = (if ep = Logout \<and> rs_status r = 204 then session_ended else [])) \<and>
     (ep = Refresh_session \<and> rs_status r \<in> {401, 403} \<longrightarrow> rs_cookies r = session_ended)"

lemma signed_out_204 [simp]: "rs_status (signed_out 204 None) = 204" "rs_cookies (signed_out n y) = session_ended"
  by (simp_all add: signed_out_def empty_answer_def)

lemma refresh_answer_ends: "rs_status (refresh_answer tx cf c) \<in> {401, 403} \<Longrightarrow> rs_cookies (refresh_answer tx cf c) = session_ended"
  by (cases c) (auto simp: refresh_answer_def answer_of_def)

lemma run_endpoint_cookies:
  assumes "run_endpoint sv e wr ep w = (Inr r, w')"
  shows "cookies_well_set (cx_config (sv_context sv)) ep r"
  using assms
  by (cases ep) (auto simp: cookies_well_set_def sets_cookies_def ret_def answers_guarded refresh_answer_ends
      split: prod.splits dest!: mapped_Inr with_input_Inr lifted_Inr)


section \<open>A concrete server\<close>

fun int_of :: "json \<Rightarrow> int option" where
  "int_of (JInt n) = Some n"
| "int_of _ = None"

definition sample_server :: server where
  "sample_server = \<lparr>sv_context = sample_context, sv_files = None, sv_page = (\<lambda>m path. path = ''/api/docs''),
     sv_texts = \<lparr>tx_decimal = plain_amount, tx_datetime = string_of_int\<rparr>,
     sv_coercions = \<lparr>co_bool = bool_of, co_int = int_of, co_decimal = (\<lambda>j. map_option of_int (int_of j)), co_datetime = int_of,
       co_query_bool = (\<lambda>s. if s = ''true'' then Some True else if s = ''false'' then Some False else None),
       co_query_int = (\<lambda>s. if s = ''1'' then Some 1 else None), co_query_uuid = (\<lambda>s. None)\<rparr>,
     sv_finding = (\<lambda>name. \<lparr>fi_loc = Some [''body'', name], fi_msg = None, fi_type = None, fi_input = ()\<rparr>)\<rparr>"

definition sample_request :: "string \<Rightarrow> string \<Rightarrow> uuid \<Rightarrow> body \<Rightarrow> web_request" where
  "sample_request m path user b = \<lparr>wr_method = m, wr_path = path, wr_query = [], wr_authorization = None,
     wr_cookies = [(ACCESS_COOKIE, it_value (issue_token sample_jwt sample_signer 0 user))], wr_body = b\<rparr>"

lemma sample_server_simps [simp]: "sv_context sample_server = sample_context" "sv_files sample_server = None"
  "sv_page sample_server m path = (path = ''/api/docs'')"
  by (simp_all add: sample_server_def)

lemma sample_request_simps [simp]: "wr_method (sample_request m path user b) = m" "wr_path (sample_request m path user b) = path"
  "wr_body (sample_request m path user b) = b" "http_of (sample_request m path user b) None = signed_in_as user"
  by (simp_all add: sample_request_def http_of_def signed_in_as_def)

lemma sample_approve: "dispatch sample_server ''POST'' ''/api/proposal/approve'' = To Approve_proposal"
  by (simp add: dispatch_def router_defs)

theorem one_address_each_witness:
  "dispatch sample_server ''PUT'' ''/api/assets/XBT'' = To (Put_asset ''XBT'') \<and>
    dispatch sample_server ''PUT'' ''/api/assets/'' \<noteq> To (Put_asset [])"
  using one_address_each [of sample_server "''PUT''" "''api/assets/XBT''" "Put_asset ''XBT''"]
    one_address_each [of sample_server "''PUT''" "''api/assets/''" "Put_asset []"]
  by (simp add: part_ok_def)

definition weekly_request :: web_request where
  "weekly_request = sample_request ''POST'' ''/api/invest'' 7 No_body"

definition deployed_world :: world where
  "deployed_world = weekly_world\<lparr>w_db := (w_db weekly_world)\<lparr>t_users := [sample_user 7 ACTIVE]\<rparr>\<rparr>"

lemma deployed_world_holds: "w_trace deployed_world = []" "t_orders (w_db deployed_world) = []"
  "targets_ok (t_assets (w_db deployed_world))" "settings_typed (w_db deployed_world)"
  using weekly_typed
  by (simp_all add: deployed_world_def weekly_world_def sample_world_def sample_rows_ok settings_typed_def) (simp_all add: sample_db_def empty_db_def)

theorem deployed_safe_witness:
  "all_authorised (w_trace (snd (handle sample_server sample_env weekly_request deployed_world))) \<and>
    settings_typed (w_db (snd (handle sample_server sample_env weekly_request deployed_world)))"
proof -
  have "deployed_steps sample_server default_scheduler_config deployed_world
      (snd (handle sample_server sample_env weekly_request deployed_world))"
    by (rule r_into_rtranclp, rule a_request [OF surjective_pairing])
  from deployed_safe [OF this deployed_world_holds(1) _ deployed_world_holds(3,4)] show ?thesis
    by (simp add: deployed_world_holds(2))
qed


text \<open>A user with a live proposal at its second version, who approves the first.\<close>

definition second_proposal :: proposal_row where
  "second_proposal = \<lparr>pr_version = 2, pr_plan = \<lparr>doc_fiat = ''EUR'', doc_legs = []\<rparr>, pr_trigger = MANUAL, pr_status = LIVE, pr_updated_at = 5\<rparr>"

definition proposed_world :: world where
  "proposed_world = sample_users\<lparr>w_db := (w_db sample_users)\<lparr>t_proposals := [(7, second_proposal)]\<rparr>\<rparr>"

lemma proposed_user: "fst (current_user sample_env sample_context (signed_in_as 7) proposed_world) = Inr (sample_user 7 ACTIVE)"
  by (simp add: current_user_def signed_in_token verify_own [OF sample_jwt_decodes] sample_signer_def sample_env_def proposed_world_def
      sample_users_def sample_world_def sample_user_def SECOND_def bind_def now_def transaction_gets get_user_def lift_result_def ret_def)

theorem stale_version_shows_live_witness:
  "\<exists>r w'. handle sample_server sample_env (sample_request ''POST'' ''/api/proposal/approve'' 7 (Json_body (JObj [(''version'', JInt 1)])))
     proposed_world = (r, w') \<and> untouched proposed_world w' \<and>
     r = detail_answer 409 STALE_VERSION [(''proposal'', proposal_json (sv_texts sample_server) (proposal_of second_proposal))]"
proof -
  let ?wr = "sample_request ''POST'' ''/api/proposal/approve'' 7 (Json_body (JObj [(''version'', JInt 1)]))"
  obtain r w' where h: "handle sample_server sample_env ?wr proposed_world = (r, w')" by force
  have live: "live_proposal 7 (w_db proposed_world) = Some second_proposal"
    by (simp add: live_proposal_def proposed_world_def second_proposal_def)
  then have "version_refusal 7 1 (w_db proposed_world) = Some (StaleVersion (proposal_of second_proposal))"
    by (simp add: version_refusal_def second_proposal_def)
  moreover have "approve_in_of (sv_coercions sample_server) (wr_body ?wr) = Inr 1"
    by (simp add: approve_in_of_def members_of_def only_keys_def required_field_def sample_server_def)
  ultimately show ?thesis
    using stale_version_shows_live [OF _ _ _ _ h, of "sample_user 7 ACTIVE" 1 "StaleVersion (proposal_of second_proposal)"]
      proposed_user live h by (simp add: sample_approve sample_user_def)
qed


end
