(* ===== verification/Scheduler_Thread.thy ===== *)
theory Scheduler_Thread
  imports Scheduler Sample_Account
begin

text \<open>
  The life of the scheduler's thread (\<open>start\<close>, \<open>stop\<close> and \<open>run\<close> of \<open>core/scheduler.py\<close>) as a state machine: the
  event that tells the loop to stop, and the threads that were started, each somewhere in its loop.
  \<open>stop\<close> is called from another thread, as the application does, and waits for the loop to end.
\<close>

section \<open>The machine\<close>

text \<open>Where a thread is: about to check the event, in a tick, waiting for the next one, or at its end.\<close>

datatype loop = Checking | Ticking | Waiting | Ended

record scheduler_object =
  so_stop :: bool
  so_threads :: "loop list"
  so_thread :: "nat option"

definition new_scheduler :: scheduler_object where
  "new_scheduler = \<lparr>so_stop = False, so_threads = [], so_thread = None\<rparr>"

definition running :: "scheduler_object \<Rightarrow> bool" where
  "running s \<longleftrightarrow> (case so_thread s of None \<Rightarrow> False | Some i \<Rightarrow> so_threads s ! i \<noteq> Ended)"

definition launched :: "scheduler_object \<Rightarrow> scheduler_object" where
  "launched s = s\<lparr>so_stop := False, so_threads := so_threads s @ [Checking], so_thread := Some (length (so_threads s))\<rparr>"

definition moved :: "nat \<Rightarrow> loop \<Rightarrow> scheduler_object \<Rightarrow> scheduler_object" where
  "moved i l s = s\<lparr>so_threads := (so_threads s)[i := l]\<rparr>"

definition is_at :: "scheduler_object \<Rightarrow> nat \<Rightarrow> loop \<Rightarrow> bool" where
  "is_at s i l \<longleftrightarrow> i < length (so_threads s) \<and> so_threads s ! i = l"

datatype life_event = Started | Start_failed | Stop_asked | Stopped | Tick_begun nat | Tick_ended nat | Woken nat | Loop_left nat

inductive life_step ::
  "scheduler_config \<Rightarrow> scheduler_object \<times> world \<Rightarrow> life_event \<Rightarrow> scheduler_object \<times> world \<Rightarrow> bool" for config where
  started: "start e config w = (Inr n, w') \<Longrightarrow> life_step config (s, w) Started (launched s, w')"
| start_failed: "start e config w = (Inl exc, w') \<Longrightarrow> life_step config (s, w) Start_failed (s, w')"
| stop_asked: "life_step config (s, w) Stop_asked (s\<lparr>so_stop := True\<rparr>, w)"
| stopped: "\<not> running s \<Longrightarrow> life_step config (s, w) Stopped (s, w)"
| tick_begun: "is_at s i Checking \<Longrightarrow> \<not> so_stop s \<Longrightarrow> life_step config (s, w) (Tick_begun i) (moved i Ticking s, w)"
| loop_left: "is_at s i Checking \<Longrightarrow> so_stop s \<Longrightarrow> life_step config (s, w) (Loop_left i) (moved i Ended s, w)"
| tick_ended: "is_at s i Ticking \<Longrightarrow> loop_pass e config w = (Inr (), w') \<Longrightarrow> life_step config (s, w) (Tick_ended i) (moved i Waiting s, w')"
| woken: "is_at s i Waiting \<Longrightarrow> life_step config (s, w) (Woken i) (moved i Checking s, w)"

inductive_simps life_step_simps:
  "life_step config sw Started sw'" "life_step config sw Start_failed sw'" "life_step config sw Stop_asked sw'"
  "life_step config sw Stopped sw'" "life_step config sw (Tick_begun i) sw'" "life_step config sw (Loop_left i) sw'"
  "life_step config sw (Tick_ended i) sw'" "life_step config sw (Woken i) sw'"

inductive life ::
  "scheduler_config \<Rightarrow> scheduler_object \<times> world \<Rightarrow> life_event list \<Rightarrow> scheduler_object \<times> world \<Rightarrow> bool" for config where
  life_nil: "life config sw [] sw"
| life_cons: "life_step config sw ev sw1 \<Longrightarrow> life config sw1 evs sw2 \<Longrightarrow> life config sw (ev # evs) sw2"

inductive_simps life_simps [simp]: "life config sw [] sw'" "life config sw (ev # evs) sw'"

fun by_loop :: "life_event \<Rightarrow> bool" where
  "by_loop (Tick_begun i) = True"
| "by_loop (Tick_ended i) = True"
| "by_loop (Woken i) = True"
| "by_loop (Loop_left i) = True"
| "by_loop _ = False"

section \<open>A loop that was told to stop\<close>

text \<open>How many steps a loop still takes once it was told to stop.\<close>

fun steps_left :: "loop \<Rightarrow> nat" where
  "steps_left Ticking = 3"
| "steps_left Waiting = 2"
| "steps_left Checking = 1"
| "steps_left Ended = 0"

definition all_left :: "scheduler_object \<Rightarrow> nat" where
  "all_left s = sum_list (map steps_left (so_threads s))"

lemma all_left_stop [simp]: "all_left (s\<lparr>so_stop := b\<rparr>) = all_left s"
  by (simp add: all_left_def)

lemma all_left_moved:
  assumes "is_at s i l"
  shows "all_left (moved i l' s) + steps_left l = all_left s + steps_left l'"
proof -
  let ?xs = "map steps_left (so_threads s)"
  have i: "i < length ?xs" "?xs ! i = steps_left l" using assms by (simp_all add: is_at_def)
  have "steps_left l \<le> sum_list ?xs" using elem_le_sum_list [OF i(1)] i(2) by simp
  moreover have "sum_list (?xs[i := steps_left l']) = sum_list ?xs + steps_left l' - steps_left l"
    using sum_list_update [OF i(1)] i(2) by simp
  ultimately show ?thesis by (simp add: all_left_def moved_def map_update)
qed

lemma moved_simps [simp]: "so_stop (moved i l s) = so_stop s" "so_thread (moved i l s) = so_thread s"
  "length (so_threads (moved i l s)) = length (so_threads s)"
  by (simp_all add: moved_def)

text \<open>Every step of a loop uses one up, and only a loop that was not told to stop begins a tick.\<close>

lemma told_step:
  assumes "life_step config (s, w) ev (s', w')" "so_stop s" "ev \<noteq> Started"
  shows "so_stop s' \<and> so_thread s' = so_thread s \<and> length (so_threads s') = length (so_threads s) \<and> (\<forall>i. ev \<noteq> Tick_begun i) \<and>
    all_left s = all_left s' + (if by_loop ev then 1 else 0)"
  using assms all_left_moved [of s _ Ticking Waiting] all_left_moved [of s _ Waiting Checking] all_left_moved [of s _ Checking Ended]
  by (cases ev) (auto simp: life_step_simps)

lemma told_life:
  assumes "life config (s, w) evs (s', w')" "so_stop s" "Started \<notin> set evs"
  shows "so_stop s' \<and> so_thread s' = so_thread s \<and> length (so_threads s') = length (so_threads s) \<and> (\<forall>i. Tick_begun i \<notin> set evs) \<and>
    all_left s = all_left s' + length (filter by_loop evs)"
  using assms
proof (induction evs arbitrary: s w)
  case Nil
  then show ?case by simp
next
  case (Cons ev evs)
  from Cons.prems(1) obtain s1 w1 where step: "life_step config (s, w) ev (s1, w1)" and rest: "life config (s1, w1) evs (s', w')"
    by auto
  from told_step [OF step Cons.prems(2)] Cons.prems(3) Cons.IH [OF rest] show ?case by auto
qed

text \<open>While a loop is left, it has a step to take: a tick returns whatever it meets.\<close>

lemma told_progress:
  assumes "so_stop s" "0 < all_left s"
  shows "\<exists>ev s' w'. by_loop ev \<and> life_step config (s, w) ev (s', w')"
proof -
  have "\<exists>i l. is_at s i l \<and> l \<noteq> Ended"
  proof (rule ccontr)
    assume "\<not> (\<exists>i l. is_at s i l \<and> l \<noteq> Ended)"
    then have "set (so_threads s) \<subseteq> {Ended}" by (auto simp: is_at_def in_set_conv_nth)
    then have "map steps_left (so_threads s) = map (\<lambda>l. 0) (so_threads s)" by (intro map_cong) auto
    then have "all_left s = sum_list (map (\<lambda>l. 0) (so_threads s))" by (simp only: all_left_def)
    then show False using assms(2) by simp
  qed
  then obtain i l where l: "is_at s i l" "l \<noteq> Ended" by blast
  obtain w' where "loop_pass sample_env config w = (Inr (), w')" using loop_pass_returns by (metis prod.collapse)
  then show ?thesis
    using l assms(1) loop_left [of s i config w] tick_ended [of s i sample_env config w w'] woken [of s i config w]
    by (cases l) (metis by_loop.simps(2-4))+
qed

section \<open>One start, one stop\<close>

lemma life_append: "life config sw (xs @ ys) sw' \<longleftrightarrow> (\<exists>sw1. life config sw xs sw1 \<and> life config sw1 ys sw')"
  by (induction xs arbitrary: sw) auto

lemma one_thread_step:
  assumes "life_step config (s, w) ev (s', w')"
  shows "length (so_threads s') = length (so_threads s) + (if ev = Started then 1 else 0) \<and>
    so_thread s' = (if ev = Started then Some (length (so_threads s)) else so_thread s)"
  using assms by (cases ev) (auto simp: life_step_simps launched_def)

lemma one_thread:
  assumes "life config (s, w) evs (s', w')" "length (filter (\<lambda>ev. ev = Started) evs) = 1"
  shows "length (so_threads s') = Suc (length (so_threads s)) \<and> so_thread s' = Some (length (so_threads s))"
proof -
  have grown: "length (so_threads s2) = length (so_threads s1) + length (filter (\<lambda>ev. ev = Started) xs) \<and>
      (Started \<notin> set xs \<longrightarrow> so_thread s2 = so_thread s1)"
    if "life config (s1, w1) xs (s2, w2)" for s1 w1 xs s2 w2
    using that
  proof (induction xs arbitrary: s1 w1)
    case (Cons x xs)
    then obtain s3 w3 where x: "life_step config (s1, w1) x (s3, w3)" and xs: "life config (s3, w3) xs (s2, w2)" by auto
    from one_thread_step [OF x] Cons.IH [OF xs] show ?case by auto
  qed simp
  have none: "Started \<notin> set zs \<Longrightarrow> filter (\<lambda>ev. ev = Started) zs = []" for zs by (auto simp: filter_empty_conv)
  have "Started \<in> set evs" by (rule ccontr) (use none assms(2) in simp)
  then obtain xs ys where evs: "evs = xs @ Started # ys" "Started \<notin> set xs" using split_list_first [of Started evs] by blast
  have "filter (\<lambda>ev. ev = Started) ys = []" using assms(2) none [OF evs(2)] by (simp add: evs(1))
  then have ys: "Started \<notin> set ys" by (auto simp: filter_empty_conv)
  obtain s1 w1 s2 w2 where runs: "life config (s, w) xs (s1, w1)" "life_step config (s1, w1) Started (s2, w2)" "life config (s2, w2) ys (s', w')"
    using assms(1) by (auto simp: evs(1) life_append)
  then show ?thesis using grown [OF runs(1)] grown [OF runs(3)] one_thread_step [OF runs(2)] evs(2) ys none [OF evs(2)] none [OF ys] by simp
qed

lemma none_left: "all_left s = 0 \<longleftrightarrow> set (so_threads s) \<subseteq> {Ended}"
proof -
  have "steps_left l = 0 \<longleftrightarrow> l = Ended" for l by (cases l) auto
  then show ?thesis by (auto simp: all_left_def)
qed

text \<open>
  C23: the scheduler stops cleanly. Once a stop was asked for, the loop that was started begins no tick; the tick
  under way, if there is one, is finished, and within three of its own steps, each of which it
  can take, the loop is at its end; the call returns only then, and nothing of the loop comes after.
\<close>

theorem scheduler_stops:
  assumes "life config (new_scheduler, w0) before (s, w)" "length (filter (\<lambda>ev. ev = Started) before) = 1"
    and "life config (s, w) (Stop_asked # after) (s', w')" "Started \<notin> set after"
  shows "(\<forall>i. Tick_begun i \<notin> set after) \<and> length (filter by_loop after) \<le> 3 \<and>
    (running s' \<longrightarrow> (\<exists>ev s2 w2. by_loop ev \<and> life_step config (s', w') ev (s2, w2))) \<and>
    (\<forall>early late. after = early @ Stopped # late \<longrightarrow> filter by_loop late = [] \<and> so_threads s' = [Ended])"
proof -
  obtain l where l: "so_threads s = [l]" "so_thread s = Some 0"
    using one_thread [OF assms(1,2)] by (auto simp: new_scheduler_def length_Suc_conv)
  let ?s = "s\<lparr>so_stop := True\<rparr>"
  have run: "life config (?s, w) after (s', w')" using assms(3) by (auto simp: life_step_simps)
  have "all_left ?s \<le> 3" using l(1) by (cases l) (simp_all add: all_left_def)
  with told_life [OF run _ assms(4)] have told: "so_stop s'" "so_thread s' = Some 0" "\<forall>i. Tick_begun i \<notin> set after"
      "length (filter by_loop after) \<le> 3" "length (so_threads s') = 1" using l by auto
  have "0 < all_left s'" if "running s'"
    using that told(2,5) none_left [of s'] by (auto simp: running_def length_Suc_conv)
  then have progress: "running s' \<longrightarrow> (\<exists>ev s2 w2. by_loop ev \<and> life_step config (s', w') ev (s2, w2))"
    using told_progress [OF told(1)] by blast
  have "filter by_loop late = [] \<and> so_threads s' = [Ended]" if after: "after = early @ Stopped # late" for early late
  proof -
    obtain s1 w1 where parts: "life config (?s, w) early (s1, w1)" "\<not> running s1" "life config (s1, w1) late (s', w')"
      using run by (auto simp: after life_append life_step_simps)
    have early: "so_stop s1" "so_thread s1 = Some 0" "length (so_threads s1) = 1"
      using told_life [OF parts(1)] assms(4) l by (auto simp: after)
    have "all_left s1 = 0" using parts(2) early by (auto simp: none_left running_def length_Suc_conv)
    with told_life [OF parts(3) early(1)] assms(4) have "length (filter by_loop late) = 0" "all_left s' = 0" by (auto simp: after)
    then show ?thesis using told(5) by (auto simp: none_left length_Suc_conv)
  qed
  then show ?thesis using told(3,4) progress by blast
qed

text \<open>The scheduler of an empty database, stopped in its first tick.\<close>

theorem scheduler_stops_witness:
  "\<exists>s w s' w'. life default_scheduler_config (new_scheduler, sample_world\<lparr>w_db := empty_db\<rparr>) [Started, Tick_begun 0] (s, w) \<and>
     life default_scheduler_config (s, w) [Stop_asked, Tick_ended 0, Woken 0, Loop_left 0, Stopped] (s', w') \<and> so_threads s' = [Ended]"
proof -
  let ?c = default_scheduler_config
  let ?s = "\<lparr>so_stop = False, so_threads = [Ticking], so_thread = Some 0\<rparr>"
  let ?s' = "\<lparr>so_stop = True, so_threads = [Ended], so_thread = Some 0\<rparr>"
  obtain n w where "start sample_env ?c (sample_world\<lparr>w_db := empty_db\<rparr>) = (Inr n, w)"
    by (simp add: start_def now_def transaction_def session_scope_def backfill_def unscheduled_settings_def act_defs
        sample_world_def empty_db_def)
  then have up: "life ?c (new_scheduler, sample_world\<lparr>w_db := empty_db\<rparr>) [Started, Tick_begun 0] (?s, w)"
    by (auto simp: life_step_simps launched_def new_scheduler_def is_at_def moved_def)
  obtain w' where "loop_pass sample_env ?c w = (Inr (), w')" using loop_pass_returns by (metis prod.collapse)
  then have down: "life ?c (?s, w) [Stop_asked, Tick_ended 0, Woken 0, Loop_left 0, Stopped] (?s', w')"
    by (auto simp: life_step_simps is_at_def moved_def running_def)
  from scheduler_stops [OF up _ down] have "so_threads ?s' = [Ended]" by simp
  with up down show ?thesis by blast
qed

end
