(* ===== verification/Concurrency.thy ===== *)
theory Concurrency
  imports Proposal_Safety Targets_Safety Settings_Safety
begin

text \<open>
  Requests, ticks and scripts at once. Everything any of them does to the database is one of a fixed set of transactions,
  and between two transactions of one operation any others may commit. What a transaction keeps is then kept by every
  interleaving of any number of operations, which an invariant of the service needs its transactions
  alone to show. A transaction takes effect at one point here. The row locks of the code make that so where a user's row
  is checked before a write; the decision of an approval and the scheduler's move of a next run read without
  one, and the last section is about the first.
\<close>

section \<open>The transactions of the code\<close>

inductive commit :: "db \<Rightarrow> db \<Rightarrow> bool" where
  clock_moves: "commit d (d\<lparr>db_now := t\<rparr>)"
| attempt_recorded: "record_attempt user c pair asset sd reason amount at_time i d = (Inr u1, d') \<Longrightarrow> commit d d'"
| order_sent: "mark_sent c txid d = (Inr u1, d') \<Longrightarrow> commit d d'"
| order_failed: "mark_failed c error d = (Inr u1, d') \<Longrightarrow> commit d d'"
| order_settled: "settle c lookup d = (Inr u2, d') \<Longrightarrow> commit d d'"
| snapshot_pinned: "pin_snapshot user sid d = (Inr u3, d') \<Longrightarrow> commit d d'"
| snapshot_kept: "keep_snapshot sid user as_of fiat tv cash hs d = (Inr u4, d') \<Longrightarrow> commit d d'"
| evaluation_started: "start_evaluation eid user as_of op_name trg d = (Inr u5, d') \<Longrightarrow> commit d d'"
| evaluation_finished: "finish_evaluation eid status as_of lines d = (Inr u6, d') \<Longrightarrow> commit d d'"
| proposal_withdrawn: "withdraw_tx user version d = (Inr u7, d') \<Longrightarrow> commit d d'"
| proposal_kept: "keep_proposal user doc ptrg d = (Inr u8, d') \<Longrightarrow> commit d d'"
| proposal_approved: "approve_tx user version doc d = (Inr u9, d') \<Longrightarrow> commit d d'"
| proposal_executed: "set_status user EXECUTED d = (Inr u10, d') \<Longrightarrow> commit d d'"
| rebalance_decided: "automatic_tx user d = (Inr u9, d') \<Longrightarrow> commit d d'"
| run_advanced: "advance_tx config user k t d = (Inr u1, d') \<Longrightarrow> commit d d'"
| streak_counted: "count_tx user failed d = (Inr u11, d') \<Longrightarrow> commit d d'"
| runs_filled: "backfill t config d = (Inr u12, d') \<Longrightarrow> commit d d'"
| evaluations_swept: "delete_evaluations_before t d = (Inr u13, d') \<Longrightarrow> commit d d'"
| tokens_swept: "delete_expired_refresh_tokens t d = (Inr u14, d') \<Longrightarrow> commit d d'"
| target_put: "put_tx user code pair pct d = (Inr u1, d') \<Longrightarrow> pct_ok pct \<Longrightarrow> commit d d'"
| target_deleted: "delete_asset user code d = (Inr u7, d') \<Longrightarrow> commit d d'"
| key_saved: "save_credentials user s t d = (Inr u1, d') \<Longrightarrow> commit d d'"
| key_deleted: "delete_credentials user d = (Inr u7, d') \<Longrightarrow> commit d d'"
| key_resealed: "reseal ae ci n user d = (Inr u15, d') \<Longrightarrow> commit d d'"
| settings_patched: "patch_tx user p config t1 t2 d = (Inr u16, d') \<Longrightarrow> validated b = Inr p \<Longrightarrow> commit d d'"
| signed_in: "sign_in_tx cx g new_user new_family v t d = (Inr u17, d') \<Longrightarrow> commit d d'"
| sign_in_refreshed: "refresh_tx cx v presented t d = (Inr u18, d') \<Longrightarrow> commit d d'"
| signed_off: "revoke h presented t d = (Inr u19, d') \<Longrightarrow> commit d d'"

abbreviation commits :: "db \<Rightarrow> db \<Rightarrow> bool" where
  "commits \<equiv> commit\<^sup>*\<^sup>*"

section \<open>An invariant under every interleaving\<close>

text \<open>One that also the recording and the marking of an order keep, whoever does it.\<close>

locale interleaved_invariant = transactional_invariant + application_invariant +
  assumes safe_attempt: "safe (record_attempt user c pair asset sd reason amount at_time i)"
    and safe_sent: "safe (mark_sent c txid)"
    and safe_failed: "safe (mark_failed c error)"
begin

lemma commit_keeps:
  assumes "commit d d'" "J d tr"
  shows "J d' tr"
  using assms
  by (induction rule: commit.induct)
    (rule clock, assumption | erule safeD [rotated 2], rule safe_attempt safe_sent safe_failed safe_intros, (assumption | rule refl)+)+

lemma commits_keep: "commits d d' \<Longrightarrow> J d tr \<Longrightarrow> J d' tr"
  by (induction rule: rtranclp_induct) (auto dest: commit_keeps)

end

section \<open>Every operation is a sequence of them\<close>

interpretation committed: transacting_invariant "\<lambda>d tr. commits before d" for before
  by unfold_locales (auto intro: rtranclp.rtrancl_into_rtrancl clock_moves)

lemma committed_safe: "(\<And>d a d'. m d = (Inr a, d') \<Longrightarrow> commit d d') \<Longrightarrow> committed.safe before m"
  by (auto simp: committed.safe_def intro: rtranclp.rtrancl_into_rtrancl)

interpretation committed: telemetry_invariant "\<lambda>d tr. commits before d" for before
  by unfold_locales
    (rule committed_safe, erule order_settled snapshot_pinned snapshot_kept evaluation_started evaluation_finished)+

lemma committed_marks [safe_intros]:
  "committed.safe before (record_attempt user c pair asset sd reason amount at_time i)" "committed.safe before (mark_sent c txid)"
  "committed.safe before (mark_failed c error)"
  by (rule committed_safe, erule attempt_recorded order_sent order_failed)+

lemma committed_place: "keeps (committed.holds before) (place (kraken e who) l c v)"
proof (rule keepsI)
  fix w r w' assume "committed.holds before w" "place (kraken e who) l c v w = (r, w')"
  then show "committed.holds before w'" by (cases rule: place_cases [OF \<open>place (kraken e who) l c v w = (r, w')\<close>]) (simp_all add: committed.holds_def)
qed

lemma committed_send_leg: "keeps (committed.holds before) (send_leg e user i (kraken e who) l reason)"
  unfolding send_leg_def after_placement_def Let_def
  by (auto intro!: keeps_intros safe_intros committed_place split: placement_outcome.splits option.splits)

interpretation committed: executor_invariant "\<lambda>d tr. commits before d" "\<lambda>_ _. True" for before
  by unfold_locales (rule committed_send_leg)

interpretation committed: transactional_invariant "\<lambda>d tr. commits before d" for before
  by unfold_locales
    (rule committed_safe, erule proposal_withdrawn proposal_kept proposal_approved proposal_executed rebalance_decided run_advanced
      streak_counted runs_filled evaluations_swept tokens_swept)+

interpretation committed: application_invariant "\<lambda>d tr. commits before d" for before
proof (unfold_locales, goal_cases)
  case (1 x u c p) then show ?case by (intro committed_safe target_put)
next
  case (6 b b' u config t t') then show ?case by (intro committed_safe settings_patched)
qed (rule committed_safe, erule target_deleted key_saved key_deleted key_resealed signed_in sign_in_refreshed signed_off)+



section \<open>What holds of every interleaving\<close>

interpretation targets: interleaved_invariant "\<lambda>d tr. targets_ok (t_assets d)"
  by unfold_locales (rule targets.safe_record targets.safe_marks)+

interpretation typed: interleaved_invariant "\<lambda>d tr. settings_typed d"
  by unfold_locales (rule typed.safe_record typed.safe_marks)+

interpretation slot: interleaved_invariant "\<lambda>d tr. slot_step\<^sup>*\<^sup>* before (slot_of user d)" for before user
  by unfold_locales (rule slot.safe_record slot.safe_marks)+

lemma ledger_attempt: "ledger.safe before (record_attempt user c pair asset sd reason amount at_time i)"
  unfolding ledger.safe_def record_attempt_def act_defs
  by (auto split: sum.splits if_splits intro: ledger.attempts simp: ledger_ids_def)

interpretation ledger: interleaved_invariant "\<lambda>d tr. ledger_step before (t_orders d)" for before
  by unfold_locales (rule ledger_attempt, (rule ledger.safe_step, rule orders_step_marks)+)



section \<open>An approval and a withdrawal at once\<close>

text \<open>
  A withdrawal locks the slot it checks. The decision of an approval does not: it reads the slot, and its statements later write the
  columns it changed over whatever is there by then. That is where the two are not one after another.
\<close>

definition column_written :: "'a \<Rightarrow> 'a \<Rightarrow> 'a \<Rightarrow> 'a" where
  "column_written old new present_row = (if new = old then present_row else new)"

definition late_update :: "proposal_row \<Rightarrow> proposal_row \<Rightarrow> proposal_row \<Rightarrow> proposal_row" where
  "late_update old new present_row =
     \<lparr>pr_version = column_written (pr_version old) (pr_version new) (pr_version present_row),
      pr_plan = column_written (pr_plan old) (pr_plan new) (pr_plan present_row),
      pr_trigger = column_written (pr_trigger old) (pr_trigger new) (pr_trigger present_row),
      pr_status = column_written (pr_status old) (pr_status new) (pr_status present_row),
      pr_updated_at = pr_updated_at new\<rparr>"

lemma late_update_unhindered: "late_update old new old = new"
  by (simp add: late_update_def column_written_def)

text \<open>
  A withdrawal that commits between the reading and the writing of an approval of the same version is confirmed, and the proposal
  executes all the same.
\<close>

lemma withdrawal_overtaken:
  assumes "approve_tx user version doc d = (Inr (None, ls), d1)" "withdraw_tx user version d = (Inr True, d2)"
    and "map_of (t_proposals d) user = Some old" "map_of (t_proposals d1) user = Some new" "map_of (t_proposals d2) user = Some present_row"
  shows "pr_status old = LIVE \<and> pr_status present_row = WITHDRAWN \<and> pr_status (late_update old new present_row) = EXECUTING"
  using assms unfolding proposal_op_defs act_defs late_update_def column_written_def
  by (auto simp: update_conv' split: if_splits option.splits sum.splits prod.splits)

end
