(* ===== verification/Locks.thy ===== *)
theory Locks
  imports Calendar "HOL-Library.Word"
begin

text \<open>
  One evaluation per user and one tick at a time, across the processes that share a database
  (\<open>core/db/locks.py\<close>). PostgreSQL's advisory locks of a session are modelled as documented: a try
  never waits, a lock is one connection's, and a connection that is lost gives up what it held.
  Connections are numbered; the pool lends one to one block at a time.
\<close>

section \<open>Keys\<close>

text \<open>The single 64-bit keys and the pairs of 32-bit keys are two spaces.\<close>

datatype pg_key = Single int | Pair int int

definition lock_key :: "uuid \<Rightarrow> int" where
  "lock_key user = sint (ucast (drop_bit 64 user) :: 64 word)"

definition SCHEDULER_LOCK :: pg_key where
  "SCHEDULER_LOCK = Pair 0x636F696E 1"

definition user_lock :: "uuid \<Rightarrow> pg_key" where
  "user_lock user = Single (lock_key user)"

lemma lock_key_bounds: "- (2 ^ 63) \<le> lock_key user \<and> lock_key user < 2 ^ 63"
  using sint_greater_eq [of "ucast (drop_bit 64 user) :: 64 word"] sint_less [of "ucast (drop_bit 64 user) :: 64 word"]
  by (simp add: lock_key_def)

lemma lock_key_eq_iff: "lock_key u = lock_key v \<longleftrightarrow> drop_bit 64 u = drop_bit 64 v"
proof -
  have whole: "(ucast (ucast (drop_bit 64 w) :: 64 word) :: uuid) = drop_bit 64 w" for w :: uuid
    by (rule bit_word_eqI) (auto simp: bit_simps dest: bit_imp_le_length)
  have "lock_key u = lock_key v \<longleftrightarrow> (ucast (drop_bit 64 u) :: 64 word) = ucast (drop_bit 64 v)"
      by (auto simp: lock_key_def intro: signed_word_eqI)
  then show ?thesis using whole by metis
qed

section \<open>The server and the blocks that hold a lock\<close>

text \<open>
  Which connection holds a lock, and which block a connection is lent to: its key, and what it
  yielded.
\<close>

record locks =
  lk_holder :: "pg_key \<Rightarrow> nat option"
  lk_block :: "nat \<Rightarrow> (pg_key \<times> bool) option"

definition no_locks :: locks where
  "no_locks = \<lparr>lk_holder = (\<lambda>_. None), lk_block = (\<lambda>_. None)\<rparr>"

text \<open>
  The two halves of \<open>advisory_user_lock\<close> and \<open>advisory_scheduler_lock\<close>, around the block, and a
  connection that is lost while it is lent. A connection in use is lent to nobody else.
\<close>

definition try_lock :: "nat \<Rightarrow> pg_key \<Rightarrow> locks \<Rightarrow> bool" where
  "try_lock c key s \<longleftrightarrow> lk_holder s key = None"

definition enter_block :: "nat \<Rightarrow> pg_key \<Rightarrow> locks \<Rightarrow> locks" where
  "enter_block c key s =
     (if lk_block s c \<noteq> None then s
      else let taken = try_lock c key s
           in \<lparr>lk_holder = (if taken then (lk_holder s)(key := Some c) else lk_holder s),
               lk_block = (lk_block s)(c := Some (key, taken))\<rparr>)"

definition leave_block :: "nat \<Rightarrow> locks \<Rightarrow> locks" where
  "leave_block c s =
     (case lk_block s c of
        None \<Rightarrow> s
      | Some (key, taken) \<Rightarrow>
          \<lparr>lk_holder = (if taken then (lk_holder s)(key := None) else lk_holder s), lk_block = (lk_block s)(c := None)\<rparr>)"

definition lose_connection :: "nat \<Rightarrow> locks \<Rightarrow> locks" where
  "lose_connection c s =
     \<lparr>lk_holder = (\<lambda>key. if lk_holder s key = Some c then None else lk_holder s key), lk_block = (lk_block s)(c := None)\<rparr>"

inductive lock_step :: "locks \<Rightarrow> locks \<Rightarrow> bool" where
  entered: "lock_step s (enter_block c key s)"
| left: "lock_step s (leave_block c s)"
| lost: "lock_step s (lose_connection c s)"

inductive lock_steps :: "locks \<Rightarrow> locks \<Rightarrow> bool" where
  none: "lock_steps s s"
| more: "lock_steps s s' \<Longrightarrow> lock_step s' s'' \<Longrightarrow> lock_steps s s''"

section \<open>One at a time\<close>

text \<open>The server and the blocks agree: a lock is held by a connection exactly when its block took it.\<close>

definition agree :: "locks \<Rightarrow> bool" where
  "agree s \<longleftrightarrow> (\<forall>key c. lk_holder s key = Some c \<longleftrightarrow> lk_block s c = Some (key, True))"

lemma agree_unique: "agree s \<Longrightarrow> lk_block s c = Some (key, True) \<Longrightarrow> lk_block s d = Some (key, True) \<Longrightarrow> c = d"
  unfolding agree_def by (metis option.inject)

lemma agree_free: "agree s \<Longrightarrow> lk_holder s key = None \<longleftrightarrow> (\<nexists>d. lk_block s d = Some (key, True))"
  unfolding agree_def by (metis not_Some_eq)

lemma agree_step: "lock_step s s' \<Longrightarrow> agree s \<Longrightarrow> agree s'"
proof (induction rule: lock_step.induct)
  case (entered s c key)
  then show ?case using agree_free [of s key] by (auto simp: agree_def enter_block_def try_lock_def Let_def)
next
  case (left s c)
  then show ?case
    using agree_unique [of s c] by (auto simp: agree_def leave_block_def split: option.splits if_splits)
next
  case (lost s c)
  then show ?case using agree_unique [of s c] by (auto simp: agree_def lose_connection_def)
qed

lemma agree_steps: "lock_steps s s' \<Longrightarrow> agree s \<Longrightarrow> agree s'"
  by (induction rule: lock_steps.induct) (auto intro: agree_step)

text \<open>
  C17: at most one evaluation of a user is under way, and at most one tick, whatever processes
  come and go. Of all the blocks of one key at most one yielded that it took the lock; the next
  try succeeds exactly when there is none, so that a block that ended or whose process died locks
  nobody out; and neither another user's lock nor the scheduler's stands in the way, unless
  the first 64 bits of two users are the same.
\<close>

theorem evaluations_exclusive:
  assumes "lock_steps no_locks s"
  shows "(lk_block s c = Some (key, True) \<and> lk_block s c' = Some (key, True) \<longrightarrow> c = c') \<and>
    (try_lock c key s \<longleftrightarrow> (\<nexists>d. lk_block s d = Some (key, True))) \<and>
    user_lock u \<noteq> SCHEDULER_LOCK \<and> (user_lock u = user_lock v \<longleftrightarrow> drop_bit 64 u = drop_bit 64 v)"
proof -
  have "agree s" using agree_steps [OF assms] by (simp add: agree_def no_locks_def)
  then show ?thesis
    using agree_unique agree_free by (auto simp: try_lock_def user_lock_def SCHEDULER_LOCK_def lock_key_eq_iff)
qed

definition two_tries :: locks where
  "two_tries = enter_block 2 (user_lock 7) (enter_block 1 (user_lock 7) no_locks)"

theorem evaluations_exclusive_witness:
  "lk_block two_tries 1 = Some (user_lock 7, True) \<and> lk_block two_tries 2 = Some (user_lock 7, False) \<and>
   \<not> try_lock 3 (user_lock 7) two_tries \<and> try_lock 3 (user_lock 7) (lose_connection 1 two_tries)"
proof -
  have "lock_steps no_locks two_tries"
    unfolding two_tries_def by (rule more [OF more [OF none]]) (rule entered)+
  from evaluations_exclusive [OF this, of 3 "user_lock 7"] show ?thesis
    by (auto simp: two_tries_def enter_block_def lose_connection_def no_locks_def try_lock_def Let_def)
qed

end
