(* ===== verification/Migrations.thy ===== *)
theory Migrations
  imports Config
begin

text \<open>
  The schema of the database, as the models describe it (\<open>core/db/models.py\<close>, \<open>core/db/types.py\<close>)
  and as the migrations build it (\<open>scripts/migrations/versions\<close>). A schema is its tables, each with
  columns and constraints, and its indexes; an operation of Alembic is a step on it that the
  database may refuse. Only the schema is modelled, not what a step does to the rows.
\<close>

section \<open>Schemas\<close>

datatype col_type =
    Uuid_type | String_type nat | Text_type | Integer_type | Big_integer_type | Boolean_type
  | Numeric_type nat nat | Timestamp_type | Bytes_type "nat option" | Json_type

record col =
  co_name :: string
  co_type :: col_type
  co_nullable :: bool
  co_default :: "string option"
  co_identity :: bool

datatype constr =
    Primary_key "string list"
  | Unique "string option" "string list"
  | Check string string
  | Foreign_key "string option" "string list" string "string list" string

record schema =
  sc_tables :: "(col list \<times> constr list) dict"
  sc_indexes :: "(string \<times> string list \<times> string option) dict"

definition empty_schema :: schema where
  "empty_schema = \<lparr>sc_tables = [], sc_indexes = []\<rparr>"

text \<open>A column, by what most have: no default of the server.\<close>

definition not_null :: "string \<Rightarrow> col_type \<Rightarrow> col" where
  "not_null name t = \<lparr>co_name = name, co_type = t, co_nullable = False, co_default = None, co_identity = False\<rparr>"

definition nullable :: "string \<Rightarrow> col_type \<Rightarrow> col" where
  "nullable name t = \<lparr>co_name = name, co_type = t, co_nullable = True, co_default = None, co_identity = False\<rparr>"

definition defaulted :: "string \<Rightarrow> col_type \<Rightarrow> string \<Rightarrow> col" where
  "defaulted name t d = \<lparr>co_name = name, co_type = t, co_nullable = False, co_default = Some d, co_identity = False\<rparr>"

definition user_key :: constr where
  "user_key = Foreign_key None [''user_id''] ''users'' [''id''] ''CASCADE''"

section \<open>The operations of a migration\<close>

datatype op =
    Create_table string "col list" "constr list"
  | Drop_table string
  | Create_index string string "string list" "string option"
  | Drop_index string
  | Add_column string col
  | Drop_column string string
  | Alter_type string string col_type
  | Create_foreign_key string string string "string list" "string list" string
  | Drop_constraint string string

definition has_columns :: "schema \<Rightarrow> string \<Rightarrow> string list \<Rightarrow> bool" where
  "has_columns s t cs = (case map_of (sc_tables s) t of
     None \<Rightarrow> False | Some (cols, _) \<Rightarrow> list_all (\<lambda>c. c \<in> set (map co_name cols)) cs)"

fun refers_to :: "string \<Rightarrow> string option \<Rightarrow> constr \<Rightarrow> bool" where
  "refers_to t c (Foreign_key n cs t' cs' d) = (t' = t \<and> (case c of None \<Rightarrow> True | Some x \<Rightarrow> x \<in> set cs'))"
| "refers_to t c _ = False"

text \<open>Whether a foreign key of another table points to a table, or to a column of it.\<close>

definition referenced :: "schema \<Rightarrow> string \<Rightarrow> string option \<Rightarrow> bool" where
  "referenced s t c = list_ex (\<lambda>(n, _, cons). n \<noteq> t \<and> list_ex (refers_to t c) cons) (sc_tables s)"

fun targets_exist :: "schema \<Rightarrow> constr \<Rightarrow> bool" where
  "targets_exist s (Foreign_key n cs t cs' d) = has_columns s t cs'"
| "targets_exist s _ = True"

fun mentions :: "string \<Rightarrow> constr \<Rightarrow> bool" where
  "mentions c (Primary_key cs) = (c \<in> set cs)"
| "mentions c (Unique n cs) = (c \<in> set cs)"
| "mentions c (Check n condition) = False"
| "mentions c (Foreign_key n cs t cs' d) = (c \<in> set cs)"

fun constr_name :: "constr \<Rightarrow> string option" where
  "constr_name (Unique n cs) = n"
| "constr_name (Check n condition) = Some n"
| "constr_name (Foreign_key n cs t cs' d) = n"
| "constr_name (Primary_key cs) = None"

definition change_table ::
  "string \<Rightarrow> (col list \<times> constr list \<Rightarrow> col list \<times> constr list) \<Rightarrow> schema \<Rightarrow> schema" where
  "change_table t f s = s\<lparr>sc_tables := map (\<lambda>(n, def). (n, if n = t then f def else def)) (sc_tables s)\<rparr>"

text \<open>
  What PostgreSQL makes of an operation, None for an error. A dropped table takes its indexes with
  it, a dropped column the indexes and the constraints over it, and neither goes while a
  foreign key of another table points to it. A column that is added must have a value for
  the rows already there.
\<close>

fun apply_op :: "op \<Rightarrow> schema \<Rightarrow> schema option" where
  "apply_op (Create_table t cols cons) s =
     (if t \<in> set (map fst (sc_tables s)) then None
      else let s' = s\<lparr>sc_tables := sc_tables s @ [(t, cols, cons)]\<rparr>
           in if list_all (targets_exist s') cons then Some s' else None)"
| "apply_op (Drop_table t) s =
     (if t \<notin> set (map fst (sc_tables s)) \<or> referenced s t None then None
      else Some \<lparr>sc_tables = filter (\<lambda>(n, _). n \<noteq> t) (sc_tables s),
                sc_indexes = filter (\<lambda>(n, (t', _)). t' \<noteq> t) (sc_indexes s)\<rparr>)"
| "apply_op (Create_index n t cs cond) s =
     (if n \<in> set (map fst (sc_indexes s)) \<or> \<not> has_columns s t cs then None
      else Some (s\<lparr>sc_indexes := sc_indexes s @ [(n, t, cs, cond)]\<rparr>))"
| "apply_op (Drop_index n) s =
     (if n \<notin> set (map fst (sc_indexes s)) then None
      else Some (s\<lparr>sc_indexes := filter (\<lambda>(m, _). m \<noteq> n) (sc_indexes s)\<rparr>))"
| "apply_op (Add_column t c) s =
     (if t \<notin> set (map fst (sc_tables s)) \<or> has_columns s t [co_name c] \<or>
         \<not> (co_nullable c \<or> co_default c \<noteq> None \<or> co_identity c) then None
      else Some (change_table t (\<lambda>(cols, cons). (cols @ [c], cons)) s))"
| "apply_op (Drop_column t c) s =
     (if \<not> has_columns s t [c] \<or> referenced s t (Some c) then None
      else Some (change_table t (\<lambda>(cols, cons). (filter (\<lambda>x. co_name x \<noteq> c) cols, filter (\<lambda>k. \<not> mentions c k) cons)) s
             \<lparr>sc_indexes := filter (\<lambda>(n, (t', cs, _)). \<not> (t' = t \<and> c \<in> set cs)) (sc_indexes s)\<rparr>))"
| "apply_op (Alter_type t c ty) s =
     (if \<not> has_columns s t [c] then None
      else Some (change_table t (\<lambda>(cols, cons). (map (\<lambda>x. if co_name x = c then x\<lparr>co_type := ty\<rparr> else x) cols, cons)) s))"
| "apply_op (Create_foreign_key n t rt cs rcs d) s =
     (if \<not> has_columns s t cs \<or> \<not> has_columns s rt rcs then None
      else Some (change_table t (\<lambda>(cols, cons). (cols, cons @ [Foreign_key (Some n) cs rt rcs d])) s))"
| "apply_op (Drop_constraint n t) s =
     (case map_of (sc_tables s) t of
        None \<Rightarrow> None
      | Some (cols, cons) \<Rightarrow>
          if Some n \<notin> set (map constr_name cons) then None
          else Some (change_table t (\<lambda>(cols, cons). (cols, filter (\<lambda>k. constr_name k \<noteq> Some n) cons)) s))"

definition run_ops :: "op list \<Rightarrow> schema \<Rightarrow> schema option" where
  "run_ops ops s = fold (\<lambda>f acc. Option.bind acc (apply_op f)) ops (Some s)"

section \<open>scripts/migrations/versions\<close>

definition initial_schema_up :: "op list" where
  "initial_schema_up =
    [Create_table ''users''
       [not_null ''id'' Uuid_type, not_null ''provider'' (String_type 32), not_null ''subject'' (String_type 255),
        not_null ''email'' (String_type 320), not_null ''status'' (String_type 16),
        defaulted ''created_at'' Timestamp_type ''now()'', defaulted ''updated_at'' Timestamp_type ''now()'']
       [Check ''ck_users_status'' ''status IN ('ACTIVE', 'DISABLED')'', Primary_key [''id''],
        Unique (Some ''uq_users_provider_subject'') [''provider'', ''subject'']],
     Create_table ''asset_config''
       [not_null ''user_id'' Uuid_type, not_null ''asset'' (String_type 16), not_null ''pair'' (String_type 32),
        not_null ''target_pct'' (Numeric_type 5 2), defaulted ''created_at'' Timestamp_type ''now()'',
        defaulted ''updated_at'' Timestamp_type ''now()'']
       [Check ''ck_asset_config_target_pct'' ''target_pct >= 0 AND target_pct <= 100'', user_key,
        Primary_key [''user_id'', ''asset'']],
     Create_table ''orders''
       [not_null ''id'' Uuid_type, not_null ''user_id'' Uuid_type, not_null ''cl_ord_id'' (String_type 64),
        nullable ''txid'' (String_type 64), not_null ''pair'' (String_type 32), not_null ''asset'' (String_type 16),
        not_null ''side'' (String_type 8), not_null ''reason'' (String_type 16), not_null ''status'' (String_type 16),
        not_null ''requested_fiat'' (Numeric_type 24 12), nullable ''executed_volume'' (Numeric_type 24 12),
        nullable ''executed_price'' (Numeric_type 24 12), nullable ''fee'' (Numeric_type 24 12),
        defaulted ''created_at'' Timestamp_type ''now()'', defaulted ''updated_at'' Timestamp_type ''now()'']
       [Check ''ck_orders_reason'' ''reason IN ('INVEST', 'REBALANCE')'', Check ''ck_orders_side'' ''side IN ('buy', 'sell')'',
        Check ''ck_orders_status'' ''status IN ('PENDING', 'FILLED', 'FAILED')'', user_key, Primary_key [''id''],
        Unique None [''cl_ord_id'']],
     Create_index ''ix_orders_user_created_at'' ''orders'' [''user_id'', ''created_at''] None,
     Create_index ''ix_orders_user_pending'' ''orders'' [''user_id''] (Some (''status = 'PENDING'' @ [CHR 0x27])),
     Create_table ''portfolio_snapshots''
       [not_null ''id'' Uuid_type, not_null ''user_id'' Uuid_type, not_null ''as_of'' Timestamp_type,
        not_null ''fiat'' (String_type 8), not_null ''total_value'' (Numeric_type 24 12),
        not_null ''cash'' (Numeric_type 24 12), not_null ''holdings'' Json_type,
        defaulted ''created_at'' Timestamp_type ''now()'']
       [user_key, Primary_key [''id'']],
     Create_index ''ix_portfolio_snapshots_user_as_of'' ''portfolio_snapshots'' [''user_id'', ''as_of''] None,
     Create_table ''proposal''
       [not_null ''id'' Uuid_type, not_null ''user_id'' Uuid_type, not_null ''version'' Integer_type,
        not_null ''plan'' Json_type, not_null ''trigger'' (String_type 16), not_null ''status'' (String_type 16),
        defaulted ''created_at'' Timestamp_type ''now()'', defaulted ''updated_at'' Timestamp_type ''now()'']
       [Check ''ck_proposal_status'' ''status IN ('EXECUTING', 'EXECUTED', 'LIVE', 'WITHDRAWN')'',
        Check ''ck_proposal_trigger'' ''trigger IN ('MANUAL', 'SCHEDULED')'', user_key, Primary_key [''id''],
        Unique None [''user_id'']],
     Create_table ''sessions''
       [not_null ''id'' Uuid_type, not_null ''user_id'' Uuid_type, not_null ''started_at'' Timestamp_type,
        nullable ''finished_at'' Timestamp_type, nullable ''duration_ms'' Integer_type, not_null ''status'' (String_type 16),
        nullable ''log_messages'' Text_type]
       [user_key, Primary_key [''id'']],
     Create_index ''ix_sessions_started_at'' ''sessions'' [''started_at''] None,
     Create_index ''ix_sessions_user_started_at'' ''sessions'' [''user_id'', ''started_at''] None,
     Create_table ''user_credentials''
       [not_null ''user_id'' Uuid_type, not_null ''ciphertext'' (Bytes_type None), not_null ''nonce'' (Bytes_type None),
        not_null ''key_version'' Integer_type, not_null ''validated_at'' Timestamp_type,
        defaulted ''created_at'' Timestamp_type ''now()'', defaulted ''updated_at'' Timestamp_type ''now()'']
       [user_key, Primary_key [''user_id'']],
     Create_table ''user_settings''
       [not_null ''user_id'' Uuid_type, not_null ''fiat'' (String_type 8), not_null ''invest_cash_enabled'' Boolean_type,
        not_null ''cash_rebalance_enabled'' Boolean_type, not_null ''auto_rebalance_enabled'' Boolean_type,
        not_null ''min_drift_pct'' (Numeric_type 4 1), not_null ''min_order_fiat'' (Numeric_type 10 1),
        not_null ''invest_cadence_mode'' (String_type 16), nullable ''invest_interval_days'' Integer_type,
        nullable ''invest_interval_months'' Integer_type, nullable ''invest_cadence_anchor'' Timestamp_type,
        not_null ''rebalance_cadence_mode'' (String_type 16), nullable ''rebalance_interval_days'' Integer_type,
        nullable ''rebalance_interval_months'' Integer_type, nullable ''rebalance_cadence_anchor'' Timestamp_type,
        nullable ''next_invest_at'' Timestamp_type, nullable ''next_rebalance_at'' Timestamp_type,
        not_null ''paused'' Boolean_type, defaulted ''created_at'' Timestamp_type ''now()'',
        defaulted ''updated_at'' Timestamp_type ''now()'']
       [Check ''ck_user_settings_invest_cadence_mode'' ''invest_cadence_mode IN ('MIN', 'INTERVAL')'',
        Check ''ck_user_settings_rebalance_cadence_mode'' ''rebalance_cadence_mode IN ('MIN', 'INTERVAL')'', user_key,
        Primary_key [''user_id'']],
     Create_index ''ix_user_settings_next_invest_at'' ''user_settings'' [''next_invest_at''] (Some ''paused = false''),
     Create_index ''ix_user_settings_next_rebalance_at'' ''user_settings'' [''next_rebalance_at''] (Some ''paused = false'')]"

definition initial_schema_down :: "op list" where
  "initial_schema_down =
    [Drop_index ''ix_user_settings_next_rebalance_at'',
     Drop_index ''ix_user_settings_next_invest_at'',
     Drop_table ''user_settings'',
     Drop_table ''user_credentials'',
     Drop_index ''ix_sessions_user_started_at'',
     Drop_index ''ix_sessions_started_at'',
     Drop_table ''sessions'',
     Drop_table ''proposal'',
     Drop_index ''ix_portfolio_snapshots_user_as_of'',
     Drop_table ''portfolio_snapshots'',
     Drop_index ''ix_orders_user_pending'',
     Drop_index ''ix_orders_user_created_at'',
     Drop_table ''orders'',
     Drop_table ''asset_config'',
     Drop_table ''users'']"

definition refresh_tokens_up :: "op list" where
  "refresh_tokens_up =
    [Create_table ''refresh_tokens''
       [not_null ''id'' Uuid_type, not_null ''user_id'' Uuid_type, not_null ''family_id'' Uuid_type,
        not_null ''token_hash'' (Bytes_type (Some 32)), not_null ''issued_at'' Timestamp_type,
        not_null ''expires_at'' Timestamp_type, nullable ''used_at'' Timestamp_type, nullable ''revoked_at'' Timestamp_type]
       [user_key, Primary_key [''id''], Unique (Some ''uq_refresh_tokens_token_hash'') [''token_hash'']],
     Create_index ''ix_refresh_tokens_expires_at'' ''refresh_tokens'' [''expires_at''] None,
     Create_index ''ix_refresh_tokens_family_id'' ''refresh_tokens'' [''family_id''] None]"

definition refresh_tokens_down :: "op list" where
  "refresh_tokens_down =
    [Drop_index ''ix_refresh_tokens_family_id'',
     Drop_index ''ix_refresh_tokens_expires_at'',
     Drop_table ''refresh_tokens'']"

definition order_cost_up :: "op list" where
  "order_cost_up =
    [Add_column ''orders'' (nullable ''cost'' (Numeric_type 24 12)),
     Add_column ''orders'' (nullable ''error'' (String_type 64)),
     Add_column ''orders'' (defaulted ''attempted_at'' Timestamp_type ''now()'')]"

definition order_cost_down :: "op list" where
  "order_cost_down =
    [Drop_column ''orders'' ''attempted_at'',
     Drop_column ''orders'' ''error'',
     Drop_column ''orders'' ''cost'']"

definition widen_status_up :: "op list" where
  "widen_status_up =
    [Alter_type ''sessions'' ''status'' (String_type 32)]"

definition widen_status_down :: "op list" where
  "widen_status_down =
    [Alter_type ''sessions'' ''status'' (String_type 16)]"

definition scheduler_columns_up :: "op list" where
  "scheduler_columns_up =
    [Add_column ''user_settings'' (defaulted ''failure_streak'' Integer_type ''0''),
     Add_column ''portfolio_snapshots'' (defaulted ''pinned'' Boolean_type ''false''),
     Add_column ''sessions'' (nullable ''operation'' (String_type 16)),
     Add_column ''sessions'' (nullable ''trigger'' (String_type 16))]"

definition scheduler_columns_down :: "op list" where
  "scheduler_columns_down =
    [Drop_column ''sessions'' ''trigger'',
     Drop_column ''sessions'' ''operation'',
     Drop_column ''portfolio_snapshots'' ''pinned'',
     Drop_column ''user_settings'' ''failure_streak'']"

definition onboarded_at_up :: "op list" where
  "onboarded_at_up =
    [Add_column ''user_settings'' (nullable ''onboarded_at'' Timestamp_type)]"

definition onboarded_at_down :: "op list" where
  "onboarded_at_down =
    [Drop_column ''user_settings'' ''onboarded_at'']"

definition order_session_up :: "op list" where
  "order_session_up =
    [Add_column ''orders'' (nullable ''session_id'' Uuid_type),
     Create_foreign_key ''fk_orders_session_id_sessions'' ''orders'' ''sessions'' [''session_id''] [''id''] ''SET NULL'',
     Create_index ''ix_orders_session_id'' ''orders'' [''session_id''] None,
     Add_column ''orders'' (\<lparr>co_name = ''seq'', co_type = Big_integer_type, co_nullable = False, co_default = None, co_identity = True\<rparr>)]"

definition order_session_down :: "op list" where
  "order_session_down =
    [Drop_column ''orders'' ''seq'',
     Drop_index ''ix_orders_session_id'',
     Drop_constraint ''fk_orders_session_id_sessions'' ''orders'',
     Drop_column ''orders'' ''session_id'']"

text \<open>The revisions, each with the one it follows.\<close>

record revision =
  rv_id :: string
  rv_follows :: "string option"
  rv_upgrade :: "op list"
  rv_downgrade :: "op list"

definition REVISIONS :: "revision list" where
  "REVISIONS =
    [\<lparr>rv_id = ''5a3d1b0a36f9'', rv_follows = None, rv_upgrade = initial_schema_up, rv_downgrade = initial_schema_down\<rparr>,
     \<lparr>rv_id = ''1f1a1f05d7e9'', rv_follows = Some ''5a3d1b0a36f9'', rv_upgrade = refresh_tokens_up, rv_downgrade = refresh_tokens_down\<rparr>,
     \<lparr>rv_id = ''97e34820ce16'', rv_follows = Some ''1f1a1f05d7e9'', rv_upgrade = order_cost_up, rv_downgrade = order_cost_down\<rparr>,
     \<lparr>rv_id = ''8b8c04912293'', rv_follows = Some ''97e34820ce16'', rv_upgrade = widen_status_up, rv_downgrade = widen_status_down\<rparr>,
     \<lparr>rv_id = ''c7a4e2d91f3b'', rv_follows = Some ''8b8c04912293'', rv_upgrade = scheduler_columns_up, rv_downgrade = scheduler_columns_down\<rparr>,
     \<lparr>rv_id = ''b4884c7eade8'', rv_follows = Some ''c7a4e2d91f3b'', rv_upgrade = onboarded_at_up, rv_downgrade = onboarded_at_down\<rparr>,
     \<lparr>rv_id = ''e5b7c1d93a42'', rv_follows = Some ''b4884c7eade8'', rv_upgrade = order_session_up, rv_downgrade = order_session_down\<rparr>]"

section \<open>core/db/models.py\<close>

definition enum_check :: "string \<Rightarrow> string list \<Rightarrow> string \<Rightarrow> constr" where
  "enum_check column values name =
     Check name (column @ '' IN ('' @ concat (map (\<lambda>v. [CHR 0x27] @ v @ [CHR 0x27]) (take 1 values)) @
       concat (map (\<lambda>v. '', '' @ [CHR 0x27] @ v @ [CHR 0x27]) (drop 1 values)) @ '')'')"

definition timestamps :: "col list" where
  "timestamps = [defaulted ''created_at'' Timestamp_type ''now()'', defaulted ''updated_at'' Timestamp_type ''now()'']"

definition users_table :: "col list \<times> constr list" where
  "users_table =
     ([not_null ''id'' Uuid_type, not_null ''provider'' (String_type 32), not_null ''subject'' (String_type 255),
       not_null ''email'' (String_type 320), not_null ''status'' (String_type 16)] @ timestamps,
      [Primary_key [''id''], Unique (Some ''uq_users_provider_subject'') [''provider'', ''subject''],
       enum_check ''status'' [''ACTIVE'', ''DISABLED''] ''ck_users_status''])"

definition credentials_table :: "col list \<times> constr list" where
  "credentials_table =
     ([not_null ''user_id'' Uuid_type, not_null ''ciphertext'' (Bytes_type None), not_null ''nonce'' (Bytes_type None),
       not_null ''key_version'' Integer_type, not_null ''validated_at'' Timestamp_type] @ timestamps,
      [Primary_key [''user_id''], user_key])"

definition settings_table :: "col list \<times> constr list" where
  "settings_table =
     ([not_null ''user_id'' Uuid_type, not_null ''fiat'' (String_type 8), not_null ''invest_cash_enabled'' Boolean_type,
       not_null ''cash_rebalance_enabled'' Boolean_type, not_null ''auto_rebalance_enabled'' Boolean_type,
       not_null ''min_drift_pct'' (Numeric_type 4 1), not_null ''min_order_fiat'' (Numeric_type 10 1),
       not_null ''invest_cadence_mode'' (String_type 16), nullable ''invest_interval_days'' Integer_type,
       nullable ''invest_interval_months'' Integer_type, nullable ''invest_cadence_anchor'' Timestamp_type,
       not_null ''rebalance_cadence_mode'' (String_type 16), nullable ''rebalance_interval_days'' Integer_type,
       nullable ''rebalance_interval_months'' Integer_type, nullable ''rebalance_cadence_anchor'' Timestamp_type,
       nullable ''next_invest_at'' Timestamp_type, nullable ''next_rebalance_at'' Timestamp_type,
       not_null ''paused'' Boolean_type, nullable ''onboarded_at'' Timestamp_type,
       defaulted ''failure_streak'' Integer_type ''0''] @ timestamps,
      [Primary_key [''user_id''], user_key,
       enum_check ''invest_cadence_mode'' [''MIN'', ''INTERVAL''] ''ck_user_settings_invest_cadence_mode'',
       enum_check ''rebalance_cadence_mode'' [''MIN'', ''INTERVAL''] ''ck_user_settings_rebalance_cadence_mode''])"

definition asset_table :: "col list \<times> constr list" where
  "asset_table =
     ([not_null ''user_id'' Uuid_type, not_null ''asset'' (String_type 16), not_null ''pair'' (String_type 32),
       not_null ''target_pct'' (Numeric_type 5 2)] @ timestamps,
      [Primary_key [''user_id'', ''asset''], user_key,
       Check ''ck_asset_config_target_pct'' ''target_pct >= 0 AND target_pct <= 100''])"

definition orders_table :: "col list \<times> constr list" where
  "orders_table =
     ([not_null ''id'' Uuid_type, not_null ''user_id'' Uuid_type, nullable ''session_id'' Uuid_type,
       \<lparr>co_name = ''seq'', co_type = Big_integer_type, co_nullable = False, co_default = None, co_identity = True\<rparr>,
       not_null ''cl_ord_id'' (String_type 64), nullable ''txid'' (String_type 64), not_null ''pair'' (String_type 32),
       not_null ''asset'' (String_type 16), not_null ''side'' (String_type 8), not_null ''reason'' (String_type 16),
       not_null ''status'' (String_type 16), not_null ''requested_fiat'' (Numeric_type 24 12),
       nullable ''executed_volume'' (Numeric_type 24 12), nullable ''executed_price'' (Numeric_type 24 12),
       nullable ''fee'' (Numeric_type 24 12), nullable ''cost'' (Numeric_type 24 12), nullable ''error'' (String_type 64),
       defaulted ''attempted_at'' Timestamp_type ''now()''] @ timestamps,
      [Primary_key [''id''], user_key, Foreign_key None [''session_id''] ''sessions'' [''id''] ''SET NULL'',
       Unique None [''cl_ord_id''], enum_check ''side'' [''buy'', ''sell''] ''ck_orders_side'',
       enum_check ''reason'' [''INVEST'', ''REBALANCE''] ''ck_orders_reason'',
       enum_check ''status'' [''PENDING'', ''FILLED'', ''FAILED''] ''ck_orders_status''])"

definition proposal_table :: "col list \<times> constr list" where
  "proposal_table =
     ([not_null ''id'' Uuid_type, not_null ''user_id'' Uuid_type, not_null ''version'' Integer_type,
       not_null ''plan'' Json_type, not_null ''trigger'' (String_type 16), not_null ''status'' (String_type 16)] @ timestamps,
      [Primary_key [''id''], user_key, Unique None [''user_id''],
       enum_check ''trigger'' [''MANUAL'', ''SCHEDULED''] ''ck_proposal_trigger'',
       enum_check ''status'' [''EXECUTING'', ''EXECUTED'', ''LIVE'', ''WITHDRAWN''] ''ck_proposal_status''])"

definition snapshots_table :: "col list \<times> constr list" where
  "snapshots_table =
     ([not_null ''id'' Uuid_type, not_null ''user_id'' Uuid_type, not_null ''as_of'' Timestamp_type,
       not_null ''fiat'' (String_type 8), not_null ''total_value'' (Numeric_type 24 12),
       not_null ''cash'' (Numeric_type 24 12), not_null ''holdings'' Json_type,
       defaulted ''pinned'' Boolean_type ''false'', defaulted ''created_at'' Timestamp_type ''now()''],
      [Primary_key [''id''], user_key])"

definition sessions_table :: "col list \<times> constr list" where
  "sessions_table =
     ([not_null ''id'' Uuid_type, not_null ''user_id'' Uuid_type, not_null ''started_at'' Timestamp_type,
       nullable ''finished_at'' Timestamp_type, nullable ''duration_ms'' Integer_type, not_null ''status'' (String_type 32),
       nullable ''operation'' (String_type 16), nullable ''trigger'' (String_type 16), nullable ''log_messages'' Text_type],
      [Primary_key [''id''], user_key])"

definition refresh_tokens_table :: "col list \<times> constr list" where
  "refresh_tokens_table =
     ([not_null ''id'' Uuid_type, not_null ''user_id'' Uuid_type, not_null ''family_id'' Uuid_type,
       not_null ''token_hash'' (Bytes_type (Some 32)), not_null ''issued_at'' Timestamp_type,
       not_null ''expires_at'' Timestamp_type, nullable ''used_at'' Timestamp_type, nullable ''revoked_at'' Timestamp_type],
      [Primary_key [''id''], user_key, Unique (Some ''uq_refresh_tokens_token_hash'') [''token_hash'']])"

text \<open>\<open>Base.metadata\<close>: the tables, and the indexes their classes declare.\<close>

definition METADATA :: schema where
  "METADATA = \<lparr>
     sc_tables = [(''users'', users_table), (''user_credentials'', credentials_table), (''user_settings'', settings_table),
       (''asset_config'', asset_table), (''orders'', orders_table), (''proposal'', proposal_table),
       (''portfolio_snapshots'', snapshots_table), (''sessions'', sessions_table), (''refresh_tokens'', refresh_tokens_table)],
     sc_indexes = [
       (''ix_user_settings_next_invest_at'', ''user_settings'', [''next_invest_at''], Some ''paused = false''),
       (''ix_user_settings_next_rebalance_at'', ''user_settings'', [''next_rebalance_at''], Some ''paused = false''),
       (''ix_orders_user_created_at'', ''orders'', [''user_id'', ''created_at''], None),
       (''ix_orders_session_id'', ''orders'', [''session_id''], None),
       (''ix_orders_user_pending'', ''orders'', [''user_id''], Some (''status = 'PENDING'' @ [CHR 0x27])),
       (''ix_portfolio_snapshots_user_as_of'', ''portfolio_snapshots'', [''user_id'', ''as_of''], None),
       (''ix_sessions_user_started_at'', ''sessions'', [''user_id'', ''started_at''], None),
       (''ix_sessions_started_at'', ''sessions'', [''started_at''], None),
       (''ix_refresh_tokens_family_id'', ''refresh_tokens'', [''family_id''], None),
       (''ix_refresh_tokens_expires_at'', ''refresh_tokens'', [''expires_at''], None)]\<rparr>"

section \<open>The migrations build the models\<close>

text \<open>
  Two schemas are the same when they have the same tables, columns, constraints and indexes, in
  whatever order, and whatever a foreign key is called.
\<close>

fun nameless :: "constr \<Rightarrow> constr" where
  "nameless (Foreign_key n cs t cs' d) = Foreign_key None cs t cs' d"
| "nameless k = k"

definition same_members :: "'a list \<Rightarrow> 'a list \<Rightarrow> bool" where
  "same_members xs ys \<longleftrightarrow> length xs = length ys \<and> list_all (\<lambda>x. x \<in> set ys) xs \<and> list_all (\<lambda>y. y \<in> set xs) ys"

definition same_schema :: "schema \<Rightarrow> schema \<Rightarrow> bool" where
  "same_schema a b \<longleftrightarrow> same_members (map fst (sc_tables a)) (map fst (sc_tables b)) \<and> same_members (sc_indexes a) (sc_indexes b) \<and>
     list_all (\<lambda>(t, cols, cons). case map_of (sc_tables b) t of
        None \<Rightarrow> False
      | Some (cols', cons') \<Rightarrow> same_members cols cols' \<and> same_members (map nameless cons) (map nameless cons')) (sc_tables a)"

text \<open>The schema after so many revisions.\<close>

definition schema_after :: "nat \<Rightarrow> schema option" where
  "schema_after k = fold (\<lambda>r acc. Option.bind acc (run_ops (rv_upgrade r))) (take k REVISIONS) (Some empty_schema)"

definition chained :: "revision list \<Rightarrow> bool" where
  "chained rs \<longleftrightarrow> map rv_follows rs = None # map (\<lambda>r. Some (rv_id r)) (butlast rs) \<and> distinct (map rv_id rs)"

lemma revisions_chained: "chained REVISIONS" "length REVISIONS = 7"
  by code_simp+

text \<open>
  An insert names the columns it gives. It is accepted when they are columns of the table and
  every other column has a value of its own or may be null.
\<close>

definition needs_value :: "col \<Rightarrow> bool" where
  "needs_value c \<longleftrightarrow> \<not> co_nullable c \<and> co_default c = None \<and> \<not> co_identity c"

definition accepts :: "schema \<Rightarrow> string \<Rightarrow> string list \<Rightarrow> bool" where
  "accepts s t given = (case map_of (sc_tables s) t of
     None \<Rightarrow> False
   | Some (cols, _) \<Rightarrow> list_all (\<lambda>n. n \<in> set (map co_name cols)) given \<and>
       list_all (\<lambda>c. needs_value c \<longrightarrow> co_name c \<in> set given) cols)"

definition keeps_inserts :: "schema \<Rightarrow> schema \<Rightarrow> bool" where
  "keeps_inserts s s' = list_all (\<lambda>(t, cols, _). case map_of (sc_tables s') t of
     None \<Rightarrow> False
   | Some (cols', _) \<Rightarrow> list_all (\<lambda>n. n \<in> set (map co_name cols')) (map co_name cols) \<and>
       list_all (\<lambda>n. n \<in> set (map co_name (filter needs_value cols))) (map co_name (filter needs_value cols'))) (sc_tables s)"

lemma keeps_insertsD: "keeps_inserts s s' \<Longrightarrow> accepts s t given \<Longrightarrow> accepts s' t given"
  by (fastforce simp: keeps_inserts_def accepts_def list_all_iff dest: map_of_SomeD split: option.splits)

text \<open>The line is walked once: every step is checked, and the end is compared with the models.\<close>

fun walks :: "revision list \<Rightarrow> schema \<Rightarrow> bool" where
  "walks [] s = same_schema s METADATA"
| "walks (r # rs) s = (case run_ops (rv_upgrade r) s of
     None \<Rightarrow> False
   | Some s' \<Rightarrow> keeps_inserts s s' \<and> run_ops (rv_downgrade r) s' = Some s \<and> walks rs s')"

lemma revisions_walk: "walks REVISIONS empty_schema"
  by code_simp

definition upgraded :: "revision list \<Rightarrow> schema option \<Rightarrow> schema option" where
  "upgraded rs acc = fold (\<lambda>r acc. Option.bind acc (run_ops (rv_upgrade r))) rs acc"

lemma walks_end: "walks rs s \<Longrightarrow> \<exists>s'. upgraded rs (Some s) = Some s' \<and> same_schema s' METADATA"
  by (induction rs arbitrary: s) (auto simp: upgraded_def split: option.splits)

lemma walks_step:
  "walks rs s \<Longrightarrow> k < length rs \<Longrightarrow> \<exists>a b. upgraded (take k rs) (Some s) = Some a \<and>
     run_ops (rv_upgrade (rs ! k)) a = Some b \<and> run_ops (rv_downgrade (rs ! k)) b = Some a \<and> keeps_inserts a b"
proof (induction rs arbitrary: s k)
  case (Cons r rs)
  then show ?case by (cases k) (auto simp: upgraded_def split: option.splits)
qed simp

lemma schema_after_upgraded: "schema_after k = upgraded (take k REVISIONS) (Some empty_schema)"
  by (simp add: schema_after_def upgraded_def)

lemma schema_after_Suc:
  "k < length REVISIONS \<Longrightarrow> schema_after (Suc k) = Option.bind (schema_after k) (run_ops (rv_upgrade (REVISIONS ! k)))"
  by (simp add: schema_after_def take_Suc_conv_app_nth)

text \<open>
  C39: the database the migrations build is the one the code is written against. The revisions
  form one line, every operation of every upgrade is accepted, and what they leave is the schema of the models:
  the same tables, columns with their types and defaults, constraints and indexes.
\<close>

theorem migrations_build_models:
  "chained REVISIONS \<and> (\<exists>s. schema_after (length REVISIONS) = Some s \<and> same_schema s METADATA)"
  using walks_end [OF revisions_walk] revisions_chained by (simp add: schema_after_upgraded)

text \<open>
  A release and the one before it live on one database. Every upgrade of the line goes through, its downgrade
  leaves exactly the schema from before it, and whatever the earlier release inserts is
  accepted by the later schema as well.
\<close>

theorem migrations_step:
  assumes "k < length REVISIONS"
  shows "\<exists>s s'. schema_after k = Some s \<and> run_ops (rv_upgrade (REVISIONS ! k)) s = Some s' \<and> schema_after (Suc k) = Some s' \<and>
    run_ops (rv_downgrade (REVISIONS ! k)) s' = Some s \<and> (\<forall>t given. accepts s t given \<longrightarrow> accepts s' t given)"
proof -
  from walks_step [OF revisions_walk assms] obtain a b where "schema_after k = Some a" "run_ops (rv_upgrade (REVISIONS ! k)) a = Some b"
    "run_ops (rv_downgrade (REVISIONS ! k)) b = Some a" "keeps_inserts a b"
    by (auto simp: schema_after_upgraded)
  then show ?thesis using keeps_insertsD schema_after_Suc [OF assms] by auto
qed

theorem migrations_step_witness:
  "\<exists>s s'. schema_after 6 = Some s \<and> run_ops order_session_down s' = Some s \<and> schema_after 7 = Some s'"
  using migrations_step [of 6] revisions_chained by (auto simp: REVISIONS_def)

end
