(* ===== verification/Key_Limits.thy ===== *)
theory Key_Limits
  imports Prelude
begin

text \<open>
  The pacing of calls and the nonces of one exchange account (\<open>exchange/limits.py\<close>). The
  limiter is shared by every client, so its two tables are a state and every call a step; the
  guard makes a step atomic. Times are exact numbers of seconds: the rounding of Python's
  floats is not modelled.
\<close>

record limiter =
  min_interval :: rat
  last_call :: "string \<rightharpoonup> rat"
  last_nonce :: "string \<rightharpoonup> int"

definition PUBLIC_BUCKET :: string where
  "PUBLIC_BUCKET = ''__public__''"

definition new_limiter :: "rat \<Rightarrow> limiter" where
  "new_limiter interval = \<lparr>min_interval = interval, last_call = Map.empty, last_nonce = Map.empty\<rparr>"

text \<open>
  \<open>wait_turn\<close> at the monotonic time \<open>now\<close>: how long the caller sleeps, when that is positive,
  and the slot it has reserved.
\<close>

definition wait_turn :: "string \<Rightarrow> rat \<Rightarrow> limiter \<Rightarrow> rat \<times> limiter" where
  "wait_turn bucket now l =
     (let wait = (case last_call l bucket of None \<Rightarrow> 0 | Some previous \<Rightarrow> previous + min_interval l - now)
      in (max wait 0, l\<lparr>last_call := (last_call l)(bucket \<mapsto> now + max wait 0)\<rparr>))"

text \<open>\<open>next_nonce\<close> at the wall-clock time \<open>clock\<close>.\<close>

definition next_nonce :: "string \<Rightarrow> rat \<Rightarrow> limiter \<Rightarrow> int \<times> limiter" where
  "next_nonce bucket clock l =
     (let candidate = (if 0 \<le> clock then \<lfloor>clock * 1000000\<rfloor> else \<lceil>clock * 1000000\<rceil>);
          previous = (case last_nonce l bucket of None \<Rightarrow> 0 | Some n \<Rightarrow> n);
          nonce = (if candidate \<le> previous then previous + 1 else candidate)
      in (nonce, l\<lparr>last_nonce := (last_nonce l)(bucket \<mapsto> nonce)\<rparr>))"

section \<open>Sequences of calls\<close>

text \<open>A step of the limiter: a bucket asks for its turn or for a nonce, at some time.\<close>

datatype limiter_step = Turn string rat | Nonce string rat

fun run_limiter :: "limiter_step list \<Rightarrow> limiter \<Rightarrow> (string \<times> rat) list \<times> (string \<times> int) list \<times> limiter" where
  "run_limiter [] l = ([], [], l)"
| "run_limiter (Turn b now # steps) l =
     (let (wait, l') = wait_turn b now l; (slots, nonces, l'') = run_limiter steps l'
      in ((b, now + wait) # slots, nonces, l''))"
| "run_limiter (Nonce b clock # steps) l =
     (let (n, l') = next_nonce b clock l; (slots, nonces, l'') = run_limiter steps l'
      in (slots, (b, n) # nonces, l''))"

text \<open>The values handed to one bucket, in order.\<close>

definition of_bucket :: "string \<Rightarrow> (string \<times> 'a) list \<Rightarrow> 'a list" where
  "of_bucket b xs = map snd (filter (\<lambda>(b', _). b' = b) xs)"

definition spaced :: "rat \<Rightarrow> rat list \<Rightarrow> bool" where
  "spaced d ts \<longleftrightarrow> sorted_wrt (\<lambda>s t. s + d \<le> t) ts"

lemma of_bucket_Cons [simp]:
  "of_bucket b ((b', x) # xs) = (if b' = b then x # of_bucket b xs else of_bucket b xs)"
  "of_bucket b [] = []"
  by (simp_all add: of_bucket_def)

lemma run_limiter_slots:
  assumes "run_limiter steps l = (slots, nonces, l')" "0 \<le> min_interval l"
  shows "spaced (min_interval l) (of_bucket b slots) \<and>
     (\<forall>t \<in> set (of_bucket b slots). \<forall>p. last_call l b = Some p \<longrightarrow> p + min_interval l \<le> t)"
  using assms
proof (induction steps l arbitrary: slots nonces l' rule: run_limiter.induct)
  case (2 b' now steps l)
  obtain wait l1 where w: "wait_turn b' now l = (wait, l1)" by fastforce
  obtain slots1 nonces1 l2 where r: "run_limiter steps l1 = (slots1, nonces1, l2)" by (metis prod_cases3)
  have l1: "min_interval l1 = min_interval l" "last_call l1 = (last_call l)(b' \<mapsto> now + wait)"
    and wait: "wait = max (case last_call l b' of None \<Rightarrow> 0 | Some p \<Rightarrow> p + min_interval l - now) 0"
    using w by (auto simp: wait_turn_def Let_def)
  have IH: "spaced (min_interval l) (of_bucket b slots1) \<and>
     (\<forall>t \<in> set (of_bucket b slots1). \<forall>p. last_call l1 b = Some p \<longrightarrow> p + min_interval l \<le> t)"
    using "2.IH" [OF w [symmetric] refl r] "2.prems"(2) l1 by simp
  have slots: "slots = (b', now + wait) # slots1" using "2.prems"(1) w r by simp
  show ?case
  proof (cases "b' = b")
    case True
    have later: "p + min_interval l \<le> now + wait" if "last_call l b = Some p" for p
      using that True by (simp add: wait)
    have "p + min_interval l \<le> t" if "last_call l b = Some p" "t \<in> set (of_bucket b slots1)" for p t
      using later [OF that(1)] IH that(2) True "2.prems"(2) by (fastforce simp: l1)
    then show ?thesis using IH True later by (auto simp: slots spaced_def l1)
  next
    case False
    then show ?thesis using IH by (simp add: slots l1)
  qed
next
  case (3 b' clock steps l)
  obtain n l1 where w: "next_nonce b' clock l = (n, l1)" by fastforce
  obtain slots1 nonces1 l2 where r: "run_limiter steps l1 = (slots1, nonces1, l2)" by (metis prod_cases3)
  have l1: "min_interval l1 = min_interval l" "last_call l1 = last_call l"
    using w by (auto simp: next_nonce_def Let_def)
  show ?case
    using "3.IH" [OF w [symmetric] refl r] "3.prems" w r l1 by simp
qed (simp add: spaced_def)

lemma run_limiter_nonces:
  assumes "run_limiter steps l = (slots, nonces, l')"
  shows "sorted_wrt (<) (of_bucket b nonces) \<and>
     (\<forall>n \<in> set (of_bucket b nonces). (case last_nonce l b of None \<Rightarrow> 0 | Some p \<Rightarrow> p) < n)"
  using assms
proof (induction steps l arbitrary: slots nonces l' rule: run_limiter.induct)
  case (2 b' now steps l)
  obtain wait l1 where w: "wait_turn b' now l = (wait, l1)" by fastforce
  obtain slots1 nonces1 l2 where r: "run_limiter steps l1 = (slots1, nonces1, l2)" by (metis prod_cases3)
  have "last_nonce l1 = last_nonce l" using w by (auto simp: wait_turn_def Let_def)
  then show ?case using "2.IH" [OF w [symmetric] refl r] "2.prems" w r by simp
next
  case (3 b' clock steps l)
  obtain n l1 where w: "next_nonce b' clock l = (n, l1)" by fastforce
  obtain slots1 nonces1 l2 where r: "run_limiter steps l1 = (slots1, nonces1, l2)" by (metis prod_cases3)
  have l1: "last_nonce l1 = (last_nonce l)(b' \<mapsto> n)"
    and n: "(case last_nonce l b' of None \<Rightarrow> 0 | Some p \<Rightarrow> p) < n"
    using w by (auto simp: next_nonce_def Let_def split: if_splits)
  have IH: "sorted_wrt (<) (of_bucket b nonces1) \<and>
     (\<forall>m \<in> set (of_bucket b nonces1). (case last_nonce l1 b of None \<Rightarrow> 0 | Some p \<Rightarrow> p) < m)"
    using "3.IH" [OF w [symmetric] refl r] by simp
  have nonces: "nonces = (b', n) # nonces1" using "3.prems"(1) w r by simp
  show ?case using IH n by (cases "b' = b") (auto simp: nonces l1 dest: less_trans)
qed simp

text \<open>
  Every nonce handed to a key is greater than the one before it, and positive, whatever the
  clock does in between, backwards included, and however the calls of other keys interleave.
\<close>

theorem nonces_increase:
  "sorted_wrt (<) (of_bucket b (fst (snd (run_limiter steps (new_limiter interval))))) \<and>
   (\<forall>n \<in> set (of_bucket b (fst (snd (run_limiter steps (new_limiter interval))))). 0 < n)"
  using run_limiter_nonces [of steps "new_limiter interval" _ _ _ b]
  by (cases "run_limiter steps (new_limiter interval)") (fastforce simp: new_limiter_def)

theorem nonces_increase_witness:
  "of_bucket ''key'' (fst (snd (run_limiter [Nonce ''key'' 5, Nonce ''other'' 9, Nonce ''key'' 3] (new_limiter 1))))
     = [5000000, 5000001] \<and>
   sorted_wrt (<) (of_bucket ''key'' (fst (snd (run_limiter [Nonce ''key'' 5, Nonce ''key'' 3] (new_limiter 1)))))"
  using nonces_increase [of "''key''" "[Nonce ''key'' 5, Nonce ''key'' 3]" 1]
  by (simp add: next_nonce_def new_limiter_def)

text \<open>
  The slots one key is given are at least the minimum interval apart, in the order they are
  given, whatever times the callers arrive at; the public bucket is paced the same way.
\<close>

theorem calls_paced:
  assumes "0 \<le> interval"
  shows "spaced interval (of_bucket b (fst (run_limiter steps (new_limiter interval))))"
  using run_limiter_slots [of steps "new_limiter interval" _ _ _ b] assms
  by (cases "run_limiter steps (new_limiter interval)") (simp add: new_limiter_def)

theorem calls_paced_witness:
  "of_bucket PUBLIC_BUCKET (fst (run_limiter [Turn PUBLIC_BUCKET 10, Turn PUBLIC_BUCKET 10, Turn PUBLIC_BUCKET 15] (new_limiter 1)))
     = [10, 11, 15] \<and>
   spaced 1 (of_bucket PUBLIC_BUCKET (fst (run_limiter [Turn PUBLIC_BUCKET 10, Turn PUBLIC_BUCKET 10] (new_limiter 1))))"
  using calls_paced [of 1 PUBLIC_BUCKET "[Turn PUBLIC_BUCKET 10, Turn PUBLIC_BUCKET 10]"]
  by (simp add: wait_turn_def new_limiter_def)

end
