(* ===== verification/Signing.thy ===== *)
theory Signing
  imports Url Kraken_Client Key_Limits
begin

text \<open>
  The wire to Kraken: the encoding and the signature of a private call (\<open>exchange/signing.py\<close>), and
  the two ways in of the client (\<open>KrakenClient._public\<close> and \<open>_call_private\<close>), which the client of
  \<open>Kraken_Client\<close> takes as its transport. The hash functions and the network are parameters. A
  volume is written with the digits of its value; the zeros a quantized decimal carries at its
  end are not modelled.
\<close>

section \<open>exchange/signing.py\<close>

text \<open>SHA-256 of a message, and HMAC-SHA-512 of a key and a message.\<close>

record hashes =
  hs_sha256 :: "bytes \<Rightarrow> bytes"
  hs_hmac_sha512 :: "bytes \<Rightarrow> bytes \<Rightarrow> bytes"

definition encode_body :: "(string \<times> string) list \<Rightarrow> string" where
  "encode_body payload = urlencode payload"

definition sign :: "hashes \<Rightarrow> string \<Rightarrow> string \<Rightarrow> string \<Rightarrow> string \<Rightarrow> string result" where
  "sign h path nonce_text body secret =
     (case b64_decode secret of
        None \<Rightarrow> Inl (ValueError ''the API secret is not valid base64'')
      | Some decoded \<Rightarrow>
          let message = utf8 path @ hs_sha256 h (utf8 (nonce_text @ body))
          in Inr (b64_encode (hs_hmac_sha512 h decoded message)))"

section \<open>What each request says\<close>

fun endpoint :: "request \<Rightarrow> string" where
  "endpoint Assets = ''Assets''"
| "endpoint (AssetPairs pairs) = ''AssetPairs''"
| "endpoint (Ticker pairs) = ''Ticker''"
| "endpoint GetApiKeyInfo = ''GetApiKeyInfo''"
| "endpoint Balance = ''Balance''"
| "endpoint (AddOrder order) = ''AddOrder''"
| "endpoint (OpenOrders cl_ord_id) = ''OpenOrders''"
| "endpoint (ClosedOrders cl_ord_id) = ''ClosedOrders''"
| "endpoint (QueryOrders txid) = ''QueryOrders''"

definition given_id :: "string option \<Rightarrow> (string \<times> string) list" where
  "given_id cl_ord_id = (case cl_ord_id of None \<Rightarrow> [] | Some i \<Rightarrow> if i = [] then [] else [(''cl_ord_id'', i)])"

definition order_params :: "add_order_request \<Rightarrow> (string \<times> string) list" where
  "order_params order =
     [(''pair'', ao_pair order), (''type'', ao_type order), (''ordertype'', ao_ordertype order),
      (''volume'', format_places (places_of (ao_volume order)) (ao_volume order)), (''cl_ord_id'', ao_cl_ord_id order)] @
     (case ao_oflags order of None \<Rightarrow> [] | Some flags \<Rightarrow> [(''oflags'', flags)]) @
     (if ao_validate order then [(''validate'', ''true'')] else [])"

fun params_of :: "request \<Rightarrow> (string \<times> string) list" where
  "params_of (AssetPairs pairs) = (if pairs = [] then [] else [(''pair'', join_on CHR '','' pairs)])"
| "params_of (Ticker pairs) = [(''pair'', join_on CHR '','' pairs)]"
| "params_of (AddOrder order) = order_params order"
| "params_of (OpenOrders cl_ord_id) = given_id cl_ord_id"
| "params_of (ClosedOrders cl_ord_id) = given_id cl_ord_id"
| "params_of (QueryOrders txid) = [(''txid'', txid)]"
| "params_of _ = []"

section \<open>The transport\<close>

text \<open>A request as it leaves, under the bucket it was paced by.\<close>

datatype wired =
    Get string "(string \<times> string) list"
  | Post string string string string string

text \<open>
  What the process keeps for its calls: the limiter all clients share, how often each clock was
  read, and what was sent. The network answers a request after those before it: the JSON of a
  good response, or None for anything that raises.
\<close>

record wire =
  wi_limiter :: limiter
  wi_monotonic :: nat
  wi_clock :: nat
  wi_sent :: "wired list"

record network =
  nw_answer :: "wired list \<Rightarrow> wired \<Rightarrow> json option"
  nw_monotonic :: "nat \<Rightarrow> rat"
  nw_clock :: "nat \<Rightarrow> rat"

definition turn :: "network \<Rightarrow> string \<Rightarrow> (wire, unit) act" where
  "turn net bucket w =
     (Inr (), w\<lparr>wi_limiter := snd (wait_turn bucket (nw_monotonic net (wi_monotonic w)) (wi_limiter w)),
                wi_monotonic := Suc (wi_monotonic w)\<rparr>)"

definition nonce_of :: "network \<Rightarrow> string \<Rightarrow> (wire, string) act" where
  "nonce_of net bucket w =
     (let (n, l) = next_nonce bucket (nw_clock net (wi_clock w)) (wi_limiter w)
      in (Inr (string_of_int n), w\<lparr>wi_limiter := l, wi_clock := Suc (wi_clock w)\<rparr>))"

definition exchanged :: "network \<Rightarrow> wired \<Rightarrow> (wire, answer) act" where
  "exchanged net r w =
     (Inr (case nw_answer net (wi_sent w) r of None \<Rightarrow> NoAnswer | Some body \<Rightarrow> Body body),
      w\<lparr>wi_sent := wi_sent w @ [r]\<rparr>)"

text \<open>\<open>_public\<close> and \<open>_call_private\<close>, to the answer that \<open>_unwrap\<close> then judges.\<close>

definition public_send :: "network \<Rightarrow> request \<Rightarrow> (wire, answer) act" where
  "public_send net r =
     seq (turn net PUBLIC_BUCKET) (exchanged net (Get (''/0/public/'' @ endpoint r) (params_of r)))"

definition bucket_of :: "string option \<Rightarrow> credentials \<Rightarrow> string" where
  "bucket_of bucket k = (case bucket of None \<Rightarrow> api_key k | Some b \<Rightarrow> if b = [] then api_key k else b)"

definition private_send :: "hashes \<Rightarrow> network \<Rightarrow> string option \<Rightarrow> credentials \<Rightarrow> request \<Rightarrow> (wire, answer) act" where
  "private_send h net bucket k r =
     (let path = ''/0/private/'' @ endpoint r; b = bucket_of bucket k
      in seq (turn net b)
         (bind (nonce_of net b) (\<lambda>nonce_text.
            let body = encode_body ((''nonce'', nonce_text) # params_of r)
            in case sign h path nonce_text body (api_secret k) of
                 Inl _ \<Rightarrow> ret SecretUnreadable
               | Inr signature \<Rightarrow> exchanged net (Post b path body (api_key k) signature))))"

text \<open>\<open>KrakenClient\<close> over the wire.\<close>

definition wire_client :: "hashes \<Rightarrow> network \<Rightarrow> string option \<Rightarrow> credentials option \<Rightarrow> wire client" where
  "wire_client h net bucket who =
     \<lparr>cl_credentials = who,
      cl_send = (\<lambda>who r. case who of None \<Rightarrow> public_send net r | Some k \<Rightarrow> private_send h net bucket k r)\<rparr>"

definition new_wire :: "rat \<Rightarrow> wire" where
  "new_wire interval = \<lparr>wi_limiter = new_limiter interval, wi_monotonic = 0, wi_clock = 0, wi_sent = []\<rparr>"

text \<open>\<open>_redact\<close>, with \<open>str.replace\<close>.\<close>

function replaced :: "string \<Rightarrow> string \<Rightarrow> string \<Rightarrow> string" where
  "replaced part new s =
     (if part = [] then new @ concat (map (\<lambda>c. c # new) s)
      else if s = [] then []
      else if take (length part) s = part then new @ replaced part new (drop (length part) s)
      else hd s # replaced part new (tl s))"
  by pat_completeness auto
termination by (relation "measure (length \<circ> snd \<circ> snd)") (auto simp: length_greater_0_conv)

declare replaced.simps [simp del]

definition redact :: "credentials option \<Rightarrow> string \<Rightarrow> string" where
  "redact who text =
     (case who of None \<Rightarrow> text | Some k \<Rightarrow> replaced (api_secret k) ''***'' (replaced (api_key k) ''***'' text))"

section \<open>What is on the wire\<close>

text \<open>A call: the bucket it is paced by, whose key signs it, and what it asks.\<close>

type_synonym call = "string option \<times> credentials option \<times> request"

fun send_call :: "hashes \<Rightarrow> network \<Rightarrow> call \<Rightarrow> wire \<Rightarrow> wire" where
  "send_call h net (bucket, who, r) w = snd (cl_send (wire_client h net bucket who) who r w)"

definition send_calls :: "hashes \<Rightarrow> network \<Rightarrow> call list \<Rightarrow> wire \<Rightarrow> wire" where
  "send_calls h net calls w = fold (send_call h net) calls w"

text \<open>A call leaves unless its secret cannot sign.\<close>

fun leaves :: "call \<Rightarrow> bool" where
  "leaves (bucket, None, r) = True"
| "leaves (bucket, Some k, r) = (b64_decode (api_secret k) \<noteq> None)"

text \<open>
  A request on the wire says what a call asks and nothing else, as its receiver reads it, and a
  private one is signed over the body that left.
\<close>

fun carries :: "hashes \<Rightarrow> wired \<Rightarrow> call \<Rightarrow> bool" where
  "carries h (Get path params) (bucket, None, r) \<longleftrightarrow> path = ''/0/public/'' @ endpoint r \<and> params = params_of r"
| "carries h (Post b path body key signature) (bucket, Some k, r) \<longleftrightarrow>
     b = bucket_of bucket k \<and> path = ''/0/private/'' @ endpoint r \<and> key = api_key k \<and>
     (\<exists>n. read_form body = Some ((''nonce'', string_of_int n) # params_of r) \<and> 
        sign h path (string_of_int n) body (api_secret k) = Inr signature)"
| "carries h _ _ = False"

text \<open>The nonces of what was sent under a bucket, as they are read from the bodies.\<close>

fun nonce_in :: "string \<Rightarrow> wired \<Rightarrow> int option" where
  "nonce_in bucket (Post b path body key signature) =
     (if b \<noteq> bucket then None
      else (case read_form body of
              Some ((name, text) # _) \<Rightarrow> if name = ''nonce'' then python_int text else None
            | _ \<Rightarrow> None))"
| "nonce_in bucket (Get path params) = None"

definition nonces_sent :: "string \<Rightarrow> wire \<Rightarrow> int list" where
  "nonces_sent bucket w = List.map_filter (nonce_in bucket) (wi_sent w)"

definition nonces_ok :: "wire \<Rightarrow> bool" where
  "nonces_ok w \<longleftrightarrow> (\<forall>b. sorted_wrt (<) (nonces_sent b w) \<and>
     (\<forall>n\<in>set (nonces_sent b w). n \<le> (case last_nonce (wi_limiter w) b of None \<Rightarrow> 0 | Some p \<Rightarrow> p)))"

lemma next_nonce_grows:
  assumes "next_nonce b t l = (n, l')"
  shows "(case last_nonce l b of None \<Rightarrow> 0 | Some p \<Rightarrow> p) < n" "last_nonce l' = (last_nonce l)(b \<mapsto> n)"
  using assms by (auto simp: next_nonce_def Let_def split: if_splits)

lemma turn_keeps: "\<exists>l i. turn net b w = (Inr (), w\<lparr>wi_limiter := l, wi_monotonic := i\<rparr>) \<and> last_nonce l = last_nonce (wi_limiter w)"
  by (auto simp: turn_def wait_turn_def Let_def)

text \<open>One private call, on the limiter and on the wire.\<close>

lemma private_send_cases:
  obtains n l where "(case last_nonce (wi_limiter w) (bucket_of bucket k) of None \<Rightarrow> 0 | Some p \<Rightarrow> p) < n"
    "last_nonce l = (last_nonce (wi_limiter w))(bucket_of bucket k \<mapsto> n)"
    "wi_limiter (snd (private_send h net bucket k r w)) = l"
    "wi_sent (snd (private_send h net bucket k r w)) = wi_sent w @
       (case sign h (''/0/private/'' @ endpoint r) (string_of_int n) (encode_body ((''nonce'', string_of_int n) # params_of r)) (api_secret k) of
          Inl e \<Rightarrow> []
        | Inr signature \<Rightarrow> [Post (bucket_of bucket k) (''/0/private/'' @ endpoint r)
            (encode_body ((''nonce'', string_of_int n) # params_of r)) (api_key k) signature])"
proof -
  let ?b = "bucket_of bucket k"
  obtain l1 i where t: "turn net ?b w = (Inr (), w\<lparr>wi_limiter := l1, wi_monotonic := i\<rparr>)" "last_nonce l1 = last_nonce (wi_limiter w)"
    using turn_keeps by blast
  obtain n l2 where n: "next_nonce ?b (nw_clock net (wi_clock w)) l1 = (n, l2)" by fastforce
  show ?thesis
    by (rule that [of n l2])
      (use next_nonce_grows [OF n] t n in \<open>simp_all add: private_send_def seq_def bind_def nonce_of_def exchanged_def ret_def Let_def
        split: sum.splits\<close>)
qed

lemma sign_Inl: "sign h path n body secret = Inl e \<Longrightarrow> b64_decode secret = None"
  and sign_Inr: "sign h path n body secret = Inr signature \<Longrightarrow> b64_decode secret \<noteq> None"
  by (auto simp: sign_def Let_def split: option.splits)

lemma public_send_wire:
  "wi_sent (snd (public_send net r w)) = wi_sent w @ [Get (''/0/public/'' @ endpoint r) (params_of r)]"
  "last_nonce (wi_limiter (snd (public_send net r w))) = last_nonce (wi_limiter w)"
  using turn_keeps [of net PUBLIC_BUCKET w] by (auto simp: public_send_def seq_def bind_def exchanged_def)

lemma send_call_wire:
  "\<exists>ws. wi_sent (send_call h net c w) = wi_sent w @ ws \<and> list_all2 (carries h) ws (if leaves c then [c] else []) \<and>
     (nonces_ok w \<longrightarrow> nonces_ok (send_call h net c w))"
proof -
  obtain bucket who r where c: "c = (bucket, who, r)" by (metis prod_cases3)
  show ?thesis
  proof (cases who)
    case None
    then show ?thesis
      by (simp add: c wire_client_def public_send_wire nonces_ok_def nonces_sent_def map_filter_def)
  next
    case (Some k)
    let ?w = "snd (private_send h net bucket k r w)"
    obtain n l where n: "(case last_nonce (wi_limiter w) (bucket_of bucket k) of None \<Rightarrow> 0 | Some p \<Rightarrow> p) < n"
      and l: "last_nonce (wi_limiter ?w) = (last_nonce (wi_limiter w))(bucket_of bucket k \<mapsto> n)"
      and ws: "wi_sent ?w = wi_sent w @
         (case sign h (''/0/private/'' @ endpoint r) (string_of_int n) (encode_body ((''nonce'', string_of_int n) # params_of r)) (api_secret k) of
            Inl e \<Rightarrow> []
          | Inr signature \<Rightarrow> [Post (bucket_of bucket k) (''/0/private/'' @ endpoint r)
              (encode_body ((''nonce'', string_of_int n) # params_of r)) (api_key k) signature])"
      by (rule private_send_cases [of w bucket k h net r]) blast
    let ?sign = "sign h (''/0/private/'' @ endpoint r) (string_of_int n) (encode_body ((''nonce'', string_of_int n) # params_of r)) (api_secret k)"
    have "nonces_ok ?w" if "nonces_ok w"
    proof -
      have "nonces_sent b ?w = nonces_sent b w @ (if b = bucket_of bucket k \<and> b64_decode (api_secret k) \<noteq> None then [n] else [])" for b
        using sign_Inl sign_Inr by (fastforce simp: nonces_sent_def ws encode_body_def map_filter_def split: sum.splits)
      then show ?thesis
        using that n by (fastforce simp: nonces_ok_def l sorted_wrt_append dest: order.strict_trans1 split: if_splits)
    qed
    moreover have "send_call h net c w = ?w" by (simp add: c Some wire_client_def)
    ultimately show ?thesis
      using sign_Inl [of h _ _ _ "api_secret k"] sign_Inr [of h _ _ _ "api_secret k"]
      by (cases ?sign) (fastforce simp: ws c Some encode_body_def)+
  qed
qed

lemma send_calls_wire:
  "\<exists>ws. wi_sent (send_calls h net calls w) = wi_sent w @ ws \<and> list_all2 (carries h) ws (filter leaves calls) \<and>
     (nonces_ok w \<longrightarrow> nonces_ok (send_calls h net calls w))"
proof (induction calls arbitrary: w)
  case (Cons c calls)
  obtain ws where ws: "wi_sent (send_call h net c w) = wi_sent w @ ws" "list_all2 (carries h) ws (if leaves c then [c] else [])"
    "nonces_ok w \<longrightarrow> nonces_ok (send_call h net c w)" using send_call_wire by blast
  obtain ws' where ws': "wi_sent (send_calls h net calls (send_call h net c w)) = wi_sent (send_call h net c w) @ ws'"
    "list_all2 (carries h) ws' (filter leaves calls)"
    "nonces_ok (send_call h net c w) \<longrightarrow> nonces_ok (send_calls h net calls (send_call h net c w))" using Cons.IH by blast
  have "list_all2 (carries h) (ws @ ws') ((if leaves c then [c] else []) @ filter leaves calls)"
    using ws(2) ws'(2) by (rule list_all2_appendI)
  then show ?case using ws ws' by (auto simp: send_calls_def intro!: exI [of _ "ws @ ws'"])
qed (simp add: send_calls_def)

text \<open>
  C19: what is sent to Kraken is what was asked. Calls made one after another leave as requests
  one for one, in order, except those whose secret cannot sign. Each says what its call asks, and no value of
  a field can be read as another field; a private one is signed over the body that left; and
  the nonces read from the bodies of a bucket strictly increase, whatever the clock does.
\<close>

theorem calls_on_the_wire:
  assumes "w = send_calls h net calls (new_wire interval)"
  shows "list_all2 (carries h) (wi_sent w) (filter leaves calls) \<and> sorted_wrt (<) (nonces_sent bucket w)"
proof -
  have "nonces_ok (new_wire interval)" by (simp add: nonces_ok_def nonces_sent_def new_wire_def map_filter_def)
  then show ?thesis
    using send_calls_wire [of h net calls "new_wire interval"] assms by (auto simp: nonces_ok_def new_wire_def)
qed

definition sample_hashes :: hashes where
  "sample_hashes = \<lparr>hs_sha256 = rev, hs_hmac_sha512 = (\<lambda>k m. k @ m)\<rparr>"

definition sample_network :: network where
  "sample_network = \<lparr>nw_answer = (\<lambda>_ _. None), nw_monotonic = of_nat, nw_clock = (\<lambda>n. 10 - of_nat n)\<rparr>"

definition sample_calls :: "call list" where
  "sample_calls = [(Some ''u'', Some \<lparr>api_key = ''k'', api_secret = ''c2Vj''\<rparr>, QueryOrders ''a&nonce=1''),
     (Some ''u'', Some \<lparr>api_key = ''k'', api_secret = ''not base64''\<rparr>, Balance), (None, None, Assets),
     (Some ''u'', Some \<lparr>api_key = ''k'', api_secret = ''c2Vj''\<rparr>, Balance)]"

theorem calls_on_the_wire_witness:
  "length (wi_sent (send_calls sample_hashes sample_network sample_calls (new_wire 1))) = 3 \<and>
   sorted_wrt (<) (nonces_sent ''u'' (send_calls sample_hashes sample_network sample_calls (new_wire 1)))"
proof -
  have "length (filter leaves sample_calls) = 3" by (simp add: sample_calls_def b64_value_def)
  then show ?thesis
    using calls_on_the_wire [OF refl, of sample_hashes sample_network sample_calls 1 "''u''"] by (metis list_all2_lengthD)
qed

section \<open>What is written to the log\<close>

definition starless :: "string \<Rightarrow> bool" where
  "starless part \<longleftrightarrow> part \<noteq> [] \<and> CHR ''*'' \<notin> set part"

lemma replaced_Nil: "part \<noteq> [] \<Longrightarrow> replaced part new [] = []"
  by (simp add: replaced.simps)

lemma replaced_step:
  "part \<noteq> [] \<Longrightarrow> replaced part new (c # s) =
     (if prefix part (c # s) then new @ replaced part new (drop (length part) (c # s)) else c # replaced part new s)"
  by (subst replaced.simps) (auto simp: prefix_def take_is_prefix; metis append_eq_conv_conj)

lemma starless_sublist_stars: "starless t \<Longrightarrow> sublist t (''***'' @ s) \<Longrightarrow> sublist t s"
  by (cases t) (auto simp: starless_def sublist_Cons_right)

lemma prefix_of_replaced:
  assumes "part \<noteq> []" "CHR ''*'' \<notin> set t" "prefix t (replaced part ''***'' s)"
  shows "prefix t s"
  using assms(2,3)
proof (induction s arbitrary: t)
  case (Cons c s)
  then show ?case using assms(1) by (cases t) (auto simp: replaced_step split: if_splits)
qed (use assms(1) in \<open>simp add: replaced_Nil\<close>)

lemma sublist_of_replaced:
  assumes "part \<noteq> []" "starless t"
  shows "sublist t (replaced part ''***'' s) \<Longrightarrow> sublist t s"
proof (induction "length s" arbitrary: s rule: less_induct)
  case less
  show ?case
  proof (cases s)
    case (Cons c s')
    show ?thesis
    proof (cases "prefix part s")
      case True
      then have "sublist t (replaced part ''***'' (drop (length part) s))"
        using less.prems assms(2) starless_sublist_stars [of t] by (simp add: Cons replaced_step [OF assms(1)])
      then have "sublist t (drop (length part) s)" using less.hyps assms(1) Cons by simp
      then show ?thesis by (meson sublist_order.order.trans sublist_drop)
    next
      case False
      then have "prefix t (replaced part ''***'' s) \<or> sublist t (replaced part ''***'' s')"
        using less.prems by (simp add: Cons replaced_step [OF assms(1)] sublist_Cons_right)
      then show ?thesis
        using prefix_of_replaced [OF assms(1)] less.hyps [of s'] assms(2)
        by (auto simp: Cons starless_def sublist_Cons_right)
    qed
  qed (use less assms(1) in \<open>simp add: replaced_Nil\<close>)
qed

lemma replaced_hides:
  assumes "starless part"
  shows "\<not> sublist part (replaced part ''***'' s)"
proof (induction "length s" arbitrary: s rule: less_induct)
  case less
  have part: "part \<noteq> []" using assms by (simp add: starless_def)
  show ?case
  proof (cases s)
    case (Cons c s')
    show ?thesis
    proof (cases "prefix part s")
      case True
      then show ?thesis
        using less [of "drop (length part) s"] starless_sublist_stars [OF assms] part by (auto simp: Cons replaced_step)
    next
      case False
      then show ?thesis
        using less [of s'] prefix_of_replaced [OF part, of part s] assms part
        by (auto simp: Cons replaced_step sublist_Cons_right starless_def)
    qed
  qed (use part in \<open>simp add: replaced_Nil\<close>)
qed

lemma replaced_absent: "part \<noteq> [] \<Longrightarrow> \<not> sublist part s \<Longrightarrow> replaced part new s = s"
  by (induction s) (auto simp: replaced_Nil replaced_step sublist_Cons_right)



end
