(* ===== verification/Startup.thy ===== *)
theory Startup
  imports Access_Safety Signing App Scheduler
begin

text \<open>
  How the web process comes up (\<open>api/main.py\<close>, the lifespan of \<open>api/app.py\<close>), and the script that
  checks a key by hand (\<open>scripts/check_key.py\<close>). The libraries are those of a context that the
  process completes with what the environment says.
\<close>

section \<open>api/main.py\<close>

text \<open>Calls of one key are a second apart.\<close>

definition KRAKEN_MIN_INTERVAL_SECONDS :: rat where
  "KRAKEN_MIN_INTERVAL_SECONDS = 1"

definition process_wire :: wire where
  "process_wire = new_wire KRAKEN_MIN_INTERVAL_SECONDS"

definition build :: "app_context \<Rightarrow> environ \<Rightarrow> app_context result" where
  "build libraries environ =
     rbind (load_config environ) (\<lambda>config.
     rbind (new_cipher (cf_credential_keys config) (cf_credential_key_version config)) (\<lambda>cipher.
       Inr (libraries\<lparr>cx_config := config, cx_cipher := cipher,
         cx_signer := \<lparr>sg_secret = cf_jwt_secret config, sg_ttl = cf_jwt_ttl config\<rparr>\<rparr>)))"

text \<open>The web build is served when there is one.\<close>

definition web_dist :: "(string list \<Rightarrow> bool) \<Rightarrow> string list \<Rightarrow> string list option" where
  "web_dist is_file dir = (if is_file (dir @ [''index.html'']) then Some dir else None)"

text \<open>The lifespan: the scheduler starts with the application when it is enabled.\<close>

definition lifespan :: "env \<Rightarrow> app_context \<Rightarrow> nat option io" where
  "lifespan e cx =
     (let config = cf_scheduler (cx_config cx)
      in if sc_enabled config then bind (start e config) (\<lambda>filled. ret (Some filled)) else ret None)"

section \<open>api/context.py\<close>

text \<open>
  The two sides of Kraken a context gives: the public one, whose calls share one entry of the limiter, and a user's, which has one
  entry however many keys the user tries.
\<close>

definition public_kraken :: "hashes \<Rightarrow> network \<Rightarrow> wire client" where
  "public_kraken h net = wire_client h net None None"

definition kraken_for :: "hashes \<Rightarrow> network \<Rightarrow> uuid \<Rightarrow> credentials \<Rightarrow> wire client" where
  "kraken_for h net user creds = wire_client h net (Some (uuid_text user)) (Some creds)"

lemma kraken_for_entry:
  assumes "b \<noteq> uuid_text user"
  shows "last_nonce (wi_limiter (snd (cl_send (kraken_for h net user creds) (Some creds) r w))) b = last_nonce (wi_limiter w) b"
proof -
  obtain n l where "last_nonce (wi_limiter (snd (private_send h net (Some (uuid_text user)) creds r w))) =
      (last_nonce (wi_limiter w))(bucket_of (Some (uuid_text user)) creds \<mapsto> n)"
    by (rule private_send_cases [of w "Some (uuid_text user)" creds h net r]) blast
  moreover have "uuid_text user \<noteq> []" by (simp add: uuid_text_def Let_def)
  ultimately show ?thesis using assms by (simp add: kraken_for_def wire_client_def bucket_of_def)
qed

section \<open>scripts/check_key.py\<close>

definition check_key_main :: "hashes \<Rightarrow> network \<Rightarrow> environ \<Rightarrow> (wire, int) act" where
  "check_key_main h net environ =
     (let key = environ_get environ ''KRAKEN_API_KEY''; secret = environ_get environ ''KRAKEN_API_SECRET''
      in if key = [] \<or> secret = [] then ret 2
         else bind (validate_key (wire_client h net None (Some \<lparr>api_key = key, api_secret = secret\<rparr>))) (\<lambda>result.
              ret (if kv_accepted result then 0 else 1)))"

section \<open>A process that comes up can work\<close>

lemma load_config_minute: "load_config environ = Inr c \<Longrightarrow> 60 * SECOND \<le> cf_jwt_ttl c"
proof -
  have minutes: "gives (rbind (positive environ name (Some DEFAULT_JWT_TTL_MINUTES)) (duration (60 * SECOND))) (\<lambda>d. 60 * SECOND \<le> d)" for name
  proof (rule gives_rbind)
    show "gives (positive environ name (Some DEFAULT_JWT_TTL_MINUTES)) (\<lambda>n. 0 < n)"
      by (rule gives_positive) (simp add: DEFAULT_JWT_TTL_MINUTES_def)
    show "gives (duration (60 * SECOND) n) (\<lambda>d. 60 * SECOND \<le> d)" if "0 < n" for n
      using that by (simp add: gives_def duration_def SECOND_def)
  qed
  assume "load_config environ = Inr c"
  then show ?thesis
    using minutes [of "''JWT_TTL_MINUTES''"] by (auto simp: load_config_def gives_def result_simps split: if_splits)
qed

lemma keys_ok_cipher: "keys_ok keys \<Longrightarrow> active \<in> fst ` set keys \<Longrightarrow> new_cipher keys active = Inr \<lparr>ci_keys = keys, ci_active = active\<rparr>"
  by (auto simp: new_cipher_def keys_ok_def KEY_BYTES_def list_all_iff find_None_iff case_prod_unfold split: option.splits dest!: find_SomeD)

text \<open>
  A process that comes up can do its work. It comes up exactly when its configuration loads, and
  then every Kraken key it is given can be sealed and opens again for its user, and every access token it
  issues is accepted as its user's from the moment it is issued.
\<close>

theorem startup_ready:
  assumes "opens_own (cx_aead libraries)" "decodes_own (cx_jwt libraries)"
  shows "((\<exists>cx. build libraries environ = Inr cx) \<longleftrightarrow> (\<exists>c. load_config environ = Inr c)) \<and>
    (\<forall>cx user creds n t. build libraries environ = Inr cx \<longrightarrow>
       (\<exists>s. seal (cx_aead cx) (cx_cipher cx) n user creds = Inr s \<and> unseal (cx_aead cx) (cx_cipher cx) user s = Inr creds) \<and>
       verify (cx_jwt cx) (cx_signer cx) t (it_value (issue_token (cx_jwt cx) (cx_signer cx) t user)) = Inr user)"
proof (cases "load_config environ")
  case (Inr c)
  let ?cipher = "\<lparr>ci_keys = cf_credential_keys c, ci_active = cf_credential_key_version c\<rparr>"
  have cipher: "new_cipher (cf_credential_keys c) (cf_credential_key_version c) = Inr ?cipher"
    using load_config_loads [OF Inr] by (intro keys_ok_cipher)
  have "t < (t + cf_jwt_ttl c) div SECOND * SECOND" for t
    using load_config_minute [OF Inr] by (simp add: SECOND_def)
  moreover have "\<exists>s. seal (cx_aead libraries) ?cipher n user creds = Inr s \<and> unseal (cx_aead libraries) ?cipher user s = Inr creds" for n user creds
    using seal_total [OF cipher] unseal_seal [OF assms(1)] by blast
  ultimately show ?thesis
    using Inr cipher verify_own [OF assms(2)] by (auto simp: build_def result_simps)
qed (simp add: build_def)

theorem startup_ready_witness:
  "\<exists>cx. build sample_context sample_environ = Inr cx \<and>
     verify (cx_jwt cx) (cx_signer cx) 5 (it_value (issue_token (cx_jwt cx) (cx_signer cx) 5 7)) = Inr 7"
proof -
  obtain c where "load_config sample_environ = Inr c" using sample_load by (auto split: sum.splits)
  then show ?thesis
    using startup_ready [of sample_context sample_environ] sample_aead_opens sample_jwt_decodes
    by simp blast
qed

text \<open>The script's exit says whether the key was accepted, and without a key it asks nothing.\<close>

lemma check_key_exits:
  assumes "check_key_main h net environ w = (Inr code, w')"
  shows "(code = 2 \<longleftrightarrow> environ_get environ ''KRAKEN_API_KEY'' = [] \<or> environ_get environ ''KRAKEN_API_SECRET'' = []) \<and> (code = 2 \<longrightarrow> w' = w)"
  using assms by (auto simp: check_key_main_def Let_def bind_Inr_iff ret_def split: if_splits)

end
