(* ===== verification/Migration_Env.thy ===== *)
theory Migration_Env
  imports Migrations Startup
begin

text \<open>
  Where the migrations run (\<open>scripts/migrations/env.py\<close>): the database the environment names, like the application's,
  unless the caller set another. The option passes through \<open>configparser\<close>, which reads a percent sign as the
  beginning of a reference unless it is doubled.
\<close>

section \<open>The option\<close>

text \<open>\<open>str.replace("%", "%%")\<close>.\<close>

definition doubled :: "string \<Rightarrow> string" where
  "doubled url = concat (map (\<lambda>c. if c = CHR ''%'' then ''%%'' else [c]) url)"

text \<open>What \<open>configparser\<close> reads back of a value: None where it would follow a reference, or fail.\<close>

fun interpolated :: "string \<Rightarrow> string option" where
  "interpolated [] = Some []"
| "interpolated [c] = (if c = CHR ''%'' then None else Some [c])"
| "interpolated (c # d # cs) =
     (if c \<noteq> CHR ''%'' then map_option ((#) c) (interpolated (d # cs))
      else if d = CHR ''%'' then map_option ((#) c) (interpolated cs)
      else None)"

text \<open>The main option after the first lines of the environment: what the caller set, or the application's.\<close>

definition main_option :: "string option \<Rightarrow> environ \<Rightarrow> string result" where
  "main_option set_by_caller environ =
     (case set_by_caller of
        Some raw \<Rightarrow> if raw \<noteq> [] then Inr raw else rbind (required environ ''DATABASE_URL'') (\<lambda>url. Inr (doubled url))
      | None \<Rightarrow> rbind (required environ ''DATABASE_URL'') (\<lambda>url. Inr (doubled url)))"

text \<open>The two ways to run: to write the SQL out, or over a connection of its own to the server.\<close>

datatype migration_run = Offline string | Online string

definition run_migrations :: "bool \<Rightarrow> string option \<Rightarrow> environ \<Rightarrow> migration_run result" where
  "run_migrations offline set_by_caller environ =
     rbind (main_option set_by_caller environ) (\<lambda>raw. case interpolated raw of
       None \<Rightarrow> Inl (ValueError ''the URL is not an option's value'')
     | Some url \<Rightarrow> Inr (if offline then Offline url else Online url))"

section \<open>The same database\<close>

lemma doubled_simps [simp]: "doubled [] = []" "doubled (c # cs) = (if c = CHR ''%'' then [c, c] else [c]) @ doubled cs"
  by (simp_all add: doubled_def)

lemma interpolated_plain: "c \<noteq> CHR ''%'' \<Longrightarrow> interpolated (c # cs) = map_option ((#) c) (interpolated cs)"
  by (cases cs) simp_all

lemma interpolated_doubled: "interpolated (doubled url) = Some url"
  by (induction url) (auto simp: interpolated_plain)

lemma load_config_url: "load_config environ = Inr c \<Longrightarrow> required environ ''DATABASE_URL'' = Inr (cf_database_url c)"
  by (auto simp: load_config_def result_simps split: if_splits)

text \<open>
  The migrations reach the database the process is configured with, whatever characters its URL has, in either mode.
\<close>

lemma migrations_same_database:
  assumes "build libraries environ = Inr cx"
  shows "run_migrations offline None environ =
    Inr ((if offline then Offline else Online) (eg_url (the (configure (cf_database_url (cx_config cx)) None))))"
proof -
  obtain c where c: "load_config environ = Inr c" "cx_config cx = c"
    using assms by (auto simp: build_def result_simps)
  then show ?thesis
    using load_config_url [OF c(1)]
    by (simp add: run_migrations_def main_option_def interpolated_doubled configure_def create_engine_from_url_def)
qed

end
