(* ===== verification/Spec2Isabelle.thy ===== *)
theory Spec2Isabelle
  imports Reconcile Proposal_Safety Evaluation_Safety Targets_Safety Settings_Safety Execution_Bounds Schedule_Progress
    Sign_In Server_Safety Scheduler_Thread Concurrency Locks Migration_Env
begin

text \<open>
  CoinPilot keeps a crypto portfolio on Kraken at the target weights its owner declared. A user's
  request, or the scheduler on the user's cadence, starts an evaluation: the account is read,
  the engine compares it with the targets, and orders are sent, proposed or previewed. This
  development models the platform's Python code under \<open>engine\<close>, \<open>exchange\<close>, \<open>core\<close>, \<open>api\<close> and
  the migrations of \<open>scripts\<close>, and proves what makes it safe to let it trade.

  The model. A pure function is a HOL function over \<open>dec\<close>, Python's decimal as a rational that every
  operation rounds to the 28 digits of the context (\<open>Py_Decimal\<close>); what it may raise is the left
  of a sum whose exceptions are the type \<open>exn\<close> (\<open>Prelude\<close>). Code with effects is an action on a state
  (\<open>Effects\<close>): a transaction acts on the database and is undone by an exception
  (\<open>Database.session_scope\<close>); everything else acts on the world (\<open>World\<close>), which is the committed
  database, the requests sent to Kraken with their answers and the database each saw, the
  catalog, and the marks an evaluation leaves. What the code cannot decide is the environment, an
  argument: Kraken's answers as a function of everything sent before, clocks, random
  identifiers, the advisory locks and the opening of a stored key. No answer, clock or lock is
  assumed to behave. Dictionaries are lists of pairs in insertion order.

  Which theory models what, in the order they build on each other:

  \<^item> \<open>Prelude\<close>, \<open>Effects\<close>: exceptions, results, dictionaries; actions, and triples that carry an
    invariant through the parts of an action. \<open>Py_Decimal\<close>, \<open>Decimal_Text\<close>, \<open>Calendar\<close>: what is used of
    Python's \<open>decimal\<close>, of its texts (\<open>exchange/precision.py\<close>, \<open>core/portfolio.py\<close>), and of dates, uuids
    and crc32.
  \<^item> \<open>Engine\<close>, \<open>Allocation\<close>, \<open>Reconcile\<close>: all of \<open>engine\<close>, from a valuation and targets to a plan of
    legs. Lemmas: how it fails, who gets the cash, that an investment stays within the cash, and
    which drifts a rebalance corrects.
  \<^item> \<open>Exchange_Types\<close>, \<open>Kraken_Client\<close>, \<open>Key_Limits\<close>, \<open>Signing\<close>: all of \<open>exchange\<close>: the vocabulary and its
    rounding, each call and how its answer is judged, the validation of a key, pacing and nonces, and
    the wire itself. \<open>Kraken_Client\<close> takes the transport as a parameter; \<open>Signing.wire_client\<close>
    is the one the code has.
  \<^item> \<open>Proposal_State\<close>, \<open>Cadence\<close>, \<open>Proposal_Plan\<close>, \<open>Portfolio\<close>: a proposal as it is shown, \<open>core/cadence.py\<close>,
    \<open>core/proposal_plan.py\<close>, and \<open>core/markets.py\<close> with \<open>core/portfolio.py\<close>.
  \<^item> \<open>Database\<close>: the tables of \<open>core/db\<close> as records and every query the code makes of them, the
    sessions and the engine of \<open>core/database.py\<close> included. \<open>Refresh\<close>: the
    refresh tokens (\<open>core/refresh.py\<close>, \<open>core/db/refresh_tokens.py\<close>). \<open>Locks\<close>: the advisory locks as
    steps of many processes on one server. \<open>Migrations\<close>, \<open>Migration_Env\<close>: the schema, every revision,
    and the database they are run on.
  \<^item> \<open>World\<close>, \<open>Settlement\<close>, \<open>Execution\<close>, \<open>Rebalance\<close>: reading an account (\<open>core/reading.py\<close>,
    \<open>core/catalog.py\<close>, \<open>core/public_market.py\<close>), settling pending orders, the plan and the evaluation
    with its orders, the life of a proposal and its three decisions.
  \<^item> \<open>Schedule\<close>, \<open>Scheduler\<close>: next runs and the tick, its users taken from the pool in any order.
    \<open>Scheduler_Thread\<close>: the life of the scheduler's thread, a machine of starts, stops and passes. \<open>Config\<close>, \<open>Crypto\<close>, \<open>Tokens\<close>, \<open>Url\<close>, \<open>Google\<close>: the
    environment of the process, keys at rest and the rotation of their master key, signed tokens,
    and the sign-in with Google.
  \<^item> \<open>Api\<close>, \<open>Api_Config\<close>, \<open>Api_Assets\<close>, \<open>Api_Accounts\<close>, \<open>Api_Auth\<close>, \<open>App\<close>: \<open>api\<close>, a definition per
    route, and what surrounds the routes; \<open>Startup\<close> brings the process up (\<open>api/main.py\<close>).
    \<open>Schemas\<close>, \<open>Server\<close>: the API over HTTP: the JSON of every answer and body (\<open>api/schemas.py\<close>), the table of
    routes, parameters, cookies and error answers (\<open>api/app.py\<close> and the decorators of \<open>api/routes\<close>).
  \<^item> \<open>Executor\<close>, \<open>Ledger_Safety\<close>, \<open>Application\<close>, \<open>Service\<close>: locales for an invariant of the service. Their
    parameters are an invariant of the database and the trace, their assumptions that each kind
    of transaction keeps it, and what follows is that every operation and every route does;
    \<open>Service.service_steps\<close> is any sequence of requests, ticks, starts and rotations, each under an
    environment of its own. Each invariant below is an interpretation.
  \<^item> \<open>Authorisation\<close>, \<open>Evaluation_Safety\<close>, \<open>Execution_Bounds\<close>, \<open>Proposal_Safety\<close>, \<open>Targets_Safety\<close>,
    \<open>Settings_Safety\<close>, \<open>Schedule_Progress\<close>, \<open>Access_Safety\<close>, \<open>Sign_In\<close>, \<open>Server_Safety\<close>: the properties that span
    components. \<open>Concurrency\<close>: every step of the service as a sequence of committed transactions, and the
    invariants of the database that hold however the transactions of many operations interleave. \<open>Sample_Account\<close> is the concrete account the witnesses run on.

  What is shown of the whole service: an order is in the ledger, committed, before it leaves; no
  order of a rebalance leaves without an approval of that very plan or the owner's standing consent;
  an order of unknown outcome is the last one sent; buys stay within the cash and sells within the holdings;
  the ledger only grows; a proposal's version only counts up (a refinement of the abstract machine
  \<open>Proposal_Safety.slot_step\<close>); targets never exceed 100; settings stay well typed; a due operation moves on;
  nobody acts without an active account, whatever the request and however many come between the passes of the
  scheduler; cookies are set guarded; the scheduler stops when it is told to; and no stored key is lost by a rotation.

  Loops. The recursions end by structure or by a measure, but for two. The search for the next slot of
  a cadence walks up with \<open>partial_function\<close>, and \<open>Cadence\<close> proves that it returns for every cadence,
  user and time; and the reading of a stored key's JSON counts down from the length of its text, which each
  member shortens (\<open>Crypto.read_members\<close>), which the round trip of a sealed key shows to be enough.
  \<open>Scheduler.run_ticks\<close> is the scheduler's loop until it is told to stop.

  Not modelled, and why.

  \<^item> Decimals: NaN, infinities and exponents in texts, trailing zeros, and the flags of the
    context. Floats: the limiter's times and the first guess of a cadence are exact.
  \<^item> PostgreSQL beyond rows, unique keys, checks and numeric columns: foreign keys with their
    cascades, the lengths of texts, and \<open>updated_at\<close> but of the proposals. A transaction is one
    step. \<open>Service\<close> runs operations one after another; \<open>Concurrency\<close> lets whole transactions interleave, but
    not the statements inside them, so row locks and isolation levels have no effect here. Of the
    migrations only the schema, not what they do to rows.
  \<^item> Threads: \<open>Service\<close> takes the users of a tick one after another, in any order, where the pool of the code
    runs them side by side. The locks' theory shows that two evaluations of one user never run at
    once; reads of the portfolio may. What an evaluation read may be stale when it writes: the
    lemma \<open>withdrawal_overtaken\<close> of \<open>Concurrency\<close> shows a withdrawal that an approval overtakes.
  \<^item> A request has one transaction in the code. It is modelled as the part that reads, before the calls to
    Kraken or Google, and the part that writes, after them; no route writes before its last call.
  \<^item> Libraries are parameters with what is documented of them: AES-GCM, SHA-256, HMAC, JWT, randomness, HTTP,
    and the file system. So is how FastAPI and Pydantic read and write a single number, truth, time or
    identifier, what they say of a field they refuse, and their documentation pages. The OpenAPI document
    (\<open>scripts/export_openapi.py\<close>) and most log lines are left out.
  \<^item> The React application in \<open>web\<close> and the tests.
\<close>

end
